theory Spec2Isabelle
  imports Complex_Main
begin

section \<open>Arrays\<close>

text \<open>
  The filters of \<^verbatim>\<open>dapy/filters/ensemble_kalman.py\<close> compute on numpy arrays of floats.
  The embedding is in exact arithmetic: an entry is a \<^typ>\<open>real\<close>. A one-dimensional array is
  the list of its entries. A two-dimensional array carries its shape, as a numpy array does
  (an array of shape \<open>(0, 3)\<close> is not an array of shape \<open>(0, 0)\<close>), and its rows.
\<close>

type_synonym vec = "real list"

datatype mat = Mat (nrows: nat) (ncols: nat) (rows: "real list list")

definition mat_of :: "nat \<Rightarrow> nat \<Rightarrow> (nat \<Rightarrow> nat \<Rightarrow> real) \<Rightarrow> mat" where
  "mat_of r c f = Mat r c (map (\<lambda>i. map (f i) [0..<c]) [0..<r])"

definition vec_of :: "nat \<Rightarrow> (nat \<Rightarrow> real) \<Rightarrow> vec" where
  "vec_of n f = map f [0..<n]"

definition el :: "mat \<Rightarrow> nat \<Rightarrow> nat \<Rightarrow> real" where
  "el A i j = rows A ! i ! j"

definition wf_mat :: "mat \<Rightarrow> bool" where
  "wf_mat A = (length (rows A) = nrows A \<and> list_all (\<lambda>r. length r = ncols A) (rows A))"

definition shaped :: "nat \<Rightarrow> nat \<Rightarrow> mat \<Rightarrow> bool" where
  "shaped r c A = (wf_mat A \<and> nrows A = r \<and> ncols A = c)"

section \<open>Outcomes of a call\<close>

text \<open>
  A call either returns or raises; before that it may have emitted warnings through
  \<^verbatim>\<open>warnings.warn\<close>. \<open>ValueError\<close> is numpy's error for operands that cannot be broadcast
  together or whose shapes are not aligned in \<^verbatim>\<open>dot\<close>; \<open>LinAlgError\<close> is raised by
  \<^verbatim>\<open>numpy.linalg\<close>. Where floating point would produce \<open>inf\<close> or \<open>nan\<close> (a division by
  zero, the mean of an empty axis, a fractional power of a negative number) numpy only issues
  a \<^verbatim>\<open>RuntimeWarning\<close> and carries on with the non-finite value; no real number stands
  for that value, so the model ends the run there with the outcome \<open>FloatingPointError\<close>
  (the exception numpy raises for these conditions under \<^verbatim>\<open>seterr(all='raise')\<close>),
  tagged with the operation that left the reals.
\<close>

datatype fp_condition = DivideByZero | NegativePower | MeanOfEmpty

datatype np_error = ValueError | LinAlgError | FloatingPointError fp_condition

text \<open>The one warning of the source: 'Eigenvalue(s) outside unit circle, max: {0}', with
  the value that is formatted into the message.\<close>

datatype py_warning = EigenvalueWarning real

type_synonym 'a run = "py_warning list \<times> (np_error + 'a)"

definition ret :: "'a \<Rightarrow> 'a run" where
  "ret x = ([], Inr x)"

definition raise :: "np_error \<Rightarrow> 'a run" where
  "raise e = ([], Inl e)"

definition bnd :: "'a run \<Rightarrow> ('a \<Rightarrow> 'b run) \<Rightarrow> 'b run" where
  "bnd m f = (case m of
       (ws, Inl e) \<Rightarrow> (ws, Inl e)
     | (ws, Inr x) \<Rightarrow> (case f x of (ws', r) \<Rightarrow> (ws @ ws', r)))"

definition warnings_warn :: "py_warning \<Rightarrow> unit run" where
  "warnings_warn w = ([w], Inr ())"

section \<open>Array operations without their checks\<close>

definition tp :: "mat \<Rightarrow> mat" where
  "tp A = mat_of (ncols A) (nrows A) (\<lambda>i j. el A j i)"

definition mmul :: "mat \<Rightarrow> mat \<Rightarrow> mat" where
  "mmul A B = mat_of (nrows A) (ncols B) (\<lambda>i j. \<Sum>k<ncols A. el A i k * el B k j)"

definition vmul :: "vec \<Rightarrow> mat \<Rightarrow> vec" where
  "vmul v B = vec_of (ncols B) (\<lambda>j. \<Sum>k<length v. v ! k * el B k j)"

definition mvmul :: "mat \<Rightarrow> vec \<Rightarrow> vec" where
  "mvmul A v = vec_of (nrows A) (\<lambda>i. \<Sum>k<ncols A. el A i k * v ! k)"

definition smul :: "real \<Rightarrow> mat \<Rightarrow> mat" where
  "smul k A = mat_of (nrows A) (ncols A) (\<lambda>i j. k * el A i j)"

definition eye :: "nat \<Rightarrow> mat" where
  "eye n = mat_of n n (\<lambda>i j. if i = j then 1 else 0)"

definition row :: "vec \<Rightarrow> mat" where
  "row v = mat_of 1 (length v) (\<lambda>i j. v ! j)"

definition map_m :: "(real \<Rightarrow> real) \<Rightarrow> mat \<Rightarrow> mat" where
  "map_m f A = mat_of (nrows A) (ncols A) (\<lambda>i j. f (el A i j))"

definition zip_m :: "(real \<Rightarrow> real \<Rightarrow> real) \<Rightarrow> mat \<Rightarrow> mat \<Rightarrow> mat" where
  "zip_m f A B = mat_of (nrows A) (ncols A) (\<lambda>i j. f (el A i j) (el B i j))"

definition zip_row :: "(real \<Rightarrow> real \<Rightarrow> real) \<Rightarrow> mat \<Rightarrow> vec \<Rightarrow> mat" where
  "zip_row f A v = mat_of (nrows A) (ncols A) (\<lambda>i j. f (el A i j) (v ! j))"

definition zip_v :: "(real \<Rightarrow> real \<Rightarrow> real) \<Rightarrow> vec \<Rightarrow> vec \<Rightarrow> vec" where
  "zip_v f u v = vec_of (length u) (\<lambda>i. f (u ! i) (v ! i))"

definition mean_cols :: "mat \<Rightarrow> vec" where
  "mean_cols A = vec_of (ncols A) (\<lambda>j. (\<Sum>i<nrows A. el A i j) / real (nrows A))"

definition std_cols :: "mat \<Rightarrow> vec" where
  "std_cols A = vec_of (ncols A) (\<lambda>j.
     sqrt ((\<Sum>i<nrows A. (abs (el A i j - mean_cols A ! j))\<^sup>2) / real (nrows A)))"

section \<open>numpy operations\<close>

text \<open>Broadcasting of one axis: the two lengths agree, or one of them is 1 and is stretched
  to the other.\<close>

definition bdim :: "nat \<Rightarrow> nat \<Rightarrow> nat option" where
  "bdim a b = (if a = b then Some a else if a = 1 then Some b
               else if b = 1 then Some a else None)"

definition bidx :: "nat \<Rightarrow> nat \<Rightarrow> nat" where
  "bidx d i = (if d = 1 then 0 else i)"

definition broadcast2 :: "(real \<Rightarrow> real \<Rightarrow> real) \<Rightarrow> mat \<Rightarrow> mat \<Rightarrow> mat run" where
  "broadcast2 f A B =
     (case (bdim (nrows A) (nrows B), bdim (ncols A) (ncols B)) of
        (Some r, Some c) \<Rightarrow>
          ret (mat_of r c (\<lambda>i j. f (el A (bidx (nrows A) i) (bidx (ncols A) j))
                                  (el B (bidx (nrows B) i) (bidx (ncols B) j))))
      | _ \<Rightarrow> raise ValueError)"

definition broadcast1 :: "(real \<Rightarrow> real \<Rightarrow> real) \<Rightarrow> vec \<Rightarrow> vec \<Rightarrow> vec run" where
  "broadcast1 f u v =
     (case bdim (length u) (length v) of
        Some n \<Rightarrow> ret (vec_of n (\<lambda>i. f (u ! bidx (length u) i) (v ! bidx (length v) i)))
      | None \<Rightarrow> raise ValueError)"

text \<open>Elementwise division: the shapes are checked first; a zero among the divisors, as
  they are broadcast, gives a non-finite entry.\<close>

definition has_zero :: "mat \<Rightarrow> bool" where
  "has_zero A = list_ex (list_ex (\<lambda>x. x = 0)) (rows A)"

definition divide2 :: "mat \<Rightarrow> mat \<Rightarrow> mat run" where
  "divide2 A B = bnd (broadcast2 (\<lambda>a b. b) A B) (\<lambda>D.
     if has_zero D then raise (FloatingPointError DivideByZero) else broadcast2 (/) A B)"

definition divide1 :: "vec \<Rightarrow> vec \<Rightarrow> vec run" where
  "divide1 u v = bnd (broadcast1 (\<lambda>a b. b) u v) (\<lambda>d.
     if list_ex (\<lambda>x. x = 0) d then raise (FloatingPointError DivideByZero) else broadcast1 (/) u v)"

text \<open>Division of an array by a scalar, and of a scalar by an array.\<close>

definition div_ms :: "mat \<Rightarrow> real \<Rightarrow> mat run" where
  "div_ms A k = (if k = 0 \<and> nrows A \<noteq> 0 \<and> ncols A \<noteq> 0 then raise (FloatingPointError DivideByZero)
                 else ret (map_m (\<lambda>a. a / k) A))"

definition div_vs :: "vec \<Rightarrow> real \<Rightarrow> vec run" where
  "div_vs v k = (if k = 0 \<and> v \<noteq> [] then raise (FloatingPointError DivideByZero)
                 else ret (map (\<lambda>a. a / k) v))"

definition div_sv :: "real \<Rightarrow> vec \<Rightarrow> vec run" where
  "div_sv k v = (if list_ex (\<lambda>x. x = 0) v then raise (FloatingPointError DivideByZero)
                 else ret (map (\<lambda>a. k / a) v))"

text \<open>\<^verbatim>\<open>v ** 0.5\<close>: \<open>nan\<close> for a negative entry.\<close>

definition pow_half :: "vec \<Rightarrow> vec run" where
  "pow_half v = (if list_ex (\<lambda>x. x < 0) v then raise (FloatingPointError NegativePower)
                 else ret (map sqrt v))"

text \<open>\<^verbatim>\<open>A.mean(0)\<close> and \<^verbatim>\<open>A.std(0)\<close>: over the rows, one value per column;
  the standard deviation divides by the number of rows (\<open>ddof = 0\<close>).\<close>

definition mean0 :: "mat \<Rightarrow> vec run" where
  "mean0 A = (if nrows A = 0 then raise (FloatingPointError MeanOfEmpty) else ret (mean_cols A))"

definition std0 :: "mat \<Rightarrow> vec run" where
  "std0 A = (if nrows A = 0 then raise (FloatingPointError MeanOfEmpty) else ret (std_cols A))"

text \<open>\<^verbatim>\<open>dot\<close> of two matrices, of a vector and a matrix, of a matrix and a vector.\<close>

definition dot_mm :: "mat \<Rightarrow> mat \<Rightarrow> mat run" where
  "dot_mm A B = (if ncols A = nrows B then ret (mmul A B) else raise ValueError)"

definition dot_vm :: "vec \<Rightarrow> mat \<Rightarrow> vec run" where
  "dot_vm v B = (if length v = nrows B then ret (vmul v B) else raise ValueError)"

definition dot_mv :: "mat \<Rightarrow> vec \<Rightarrow> vec run" where
  "dot_mv A v = (if ncols A = length v then ret (mvmul A v) else raise ValueError)"

text \<open>\<^verbatim>\<open>np.clip(v, -np.inf, 1.)\<close>.\<close>

definition clip_upper :: "vec \<Rightarrow> vec" where
  "clip_upper v = map (\<lambda>x. min x 1) v"

section \<open>The linear-algebra library\<close>

text \<open>
  \<^verbatim>\<open>numpy.linalg\<close> is not code of the repository: its four routines are parameters of
  the model. \<^verbatim>\<open>eigh\<close> and \<^verbatim>\<open>solve\<close> reject a matrix that is not square;
  \<^verbatim>\<open>solve\<close> rejects a singular one (\<open>None\<close>).
\<close>

record linalg =
  eigh :: "mat \<Rightarrow> vec \<times> mat"
  solve :: "mat \<Rightarrow> mat \<Rightarrow> mat option"
  svd :: "mat \<Rightarrow> mat \<times> vec \<times> mat"
  pinv :: "mat \<Rightarrow> mat"

definition la_eigh :: "linalg \<Rightarrow> mat \<Rightarrow> (vec \<times> mat) run" where
  "la_eigh L A = (if nrows A = ncols A then ret (eigh L A) else raise LinAlgError)"

definition la_solve :: "linalg \<Rightarrow> mat \<Rightarrow> mat \<Rightarrow> mat run" where
  "la_solve L A B =
     (if nrows A \<noteq> ncols A then raise LinAlgError
      else if nrows B \<noteq> nrows A then raise ValueError
      else (case solve L A B of None \<Rightarrow> raise LinAlgError | Some X \<Rightarrow> ret X))"


section \<open>Perturbed-observation filter\<close>

text \<open>
  \<^verbatim>\<open>EnsembleKalmanFilter\<close>. The observation sampler draws from the random number
  generator it closes over; the model passes the generator's state \<open>'g\<close> through it.
\<close>

record 'g enkf =
  observation_sampler :: "'g \<Rightarrow> mat \<Rightarrow> int \<Rightarrow> mat \<times> 'g"

definition enkf_analysis_update ::
  "linalg \<Rightarrow> 'g enkf \<Rightarrow> 'g \<Rightarrow> mat \<Rightarrow> vec \<Rightarrow> int \<Rightarrow> ((mat \<times> vec \<times> vec) \<times> 'g) run" where
  "enkf_analysis_update L F rng z_forecast x_observed time_index =
    (case observation_sampler F rng z_forecast time_index of (x_forecast, rng') \<Rightarrow>
     bnd (mean0 z_forecast) (\<lambda>z_mean.
     bnd (broadcast2 (-) z_forecast (row z_mean)) (\<lambda>dz_forecast.
     bnd (mean0 x_forecast) (\<lambda>x_mean.
     bnd (broadcast2 (-) x_forecast (row x_mean)) (\<lambda>dx_forecast.
     bnd (broadcast2 (-) (row x_observed) x_forecast) (\<lambda>dx_error.
     bnd (dot_mm dx_error (pinv L dx_forecast)) (\<lambda>gain.
     bnd (dot_mm gain dz_forecast) (\<lambda>increment.
     bnd (broadcast2 (+) z_forecast increment) (\<lambda>z_analysis.
     bnd (mean0 z_analysis) (\<lambda>z_analysis_mean.
     bnd (std0 z_analysis) (\<lambda>z_analysis_std.
     ret ((z_analysis, z_analysis_mean, z_analysis_std), rng'))))))))))))"

section \<open>Square-root filter\<close>

text \<open>\<^verbatim>\<open>EnsembleSquareRootFilter\<close>: the constructor forms the noise covariance
  \<open>J J\<^sup>T\<close> from the noise transform matrix \<open>J\<close>.\<close>

record esrf =
  sr_observation_func :: "mat \<Rightarrow> int \<Rightarrow> mat"
  sr_obser_noise_matrix :: mat
  sr_obser_noise_covar :: mat
  sr_warn :: bool

definition esrf_init :: "(mat \<Rightarrow> int \<Rightarrow> mat) \<Rightarrow> mat \<Rightarrow> bool \<Rightarrow> esrf" where
  "esrf_init observation_func obser_noise_matrix warn =
     \<lparr> sr_observation_func = observation_func,
       sr_obser_noise_matrix = obser_noise_matrix,
       sr_obser_noise_covar = mmul obser_noise_matrix (tp obser_noise_matrix),
       sr_warn = warn \<rparr>"

text \<open>The warning of both square-root filters, and the spread they return.\<close>

definition eig_warning :: "bool \<Rightarrow> vec \<Rightarrow> unit run" where
  "eig_warning warn eigval_m =
     (if warn \<and> list_ex (\<lambda>x. x > 1) eigval_m
      then warnings_warn (EigenvalueWarning (Max (set eigval_m)))
      else ret ())"

definition rms0 :: "mat \<Rightarrow> vec run" where
  "rms0 dz_analysis = bnd (mean0 (map_m (\<lambda>x. x\<^sup>2) dz_analysis)) pow_half"

definition esrf_analysis_update ::
  "linalg \<Rightarrow> esrf \<Rightarrow> mat \<Rightarrow> vec \<Rightarrow> int \<Rightarrow> (mat \<times> vec \<times> vec) run" where
  "esrf_analysis_update L F z_forecast x_observed time_index =
    (let n_particles = nrows z_forecast in
     bnd (mean0 z_forecast) (\<lambda>z_mean_forecast.
     bnd (broadcast2 (-) z_forecast (row z_mean_forecast)) (\<lambda>dz_forecast.
     let x_forecast = sr_observation_func F z_forecast time_index in
     bnd (mean0 x_forecast) (\<lambda>x_mean_forecast.
     bnd (broadcast2 (-) x_forecast (row x_mean_forecast)) (\<lambda>dx_forecast.
     bnd (dot_mm (tp dx_forecast) dx_forecast) (\<lambda>xtx.
     bnd (broadcast2 (+) xtx (smul (real n_particles - 1) (sr_obser_noise_covar F)))
       (\<lambda>c_matrix.
     bnd (la_eigh L c_matrix) (\<lambda>(eigval_c, eigvec_c).
     bnd (divide2 eigvec_c (row eigval_c)) (\<lambda>scaled_c.
     bnd (dot_mm scaled_c (tp eigvec_c)) (\<lambda>c_inv.
     bnd (dot_mm (tp dx_forecast) dz_forecast) (\<lambda>xtz.
     bnd (dot_mm c_inv xtz) (\<lambda>k_gain.
     bnd (broadcast1 (-) x_observed x_mean_forecast) (\<lambda>dx_error.
     bnd (dot_vm dx_error k_gain) (\<lambda>shift.
     bnd (broadcast1 (+) z_mean_forecast shift) (\<lambda>z_mean_analysis.
     bnd (divide2 eigvec_c (row eigval_c)) (\<lambda>scaled_c'.
     bnd (dot_mm dx_forecast scaled_c') (\<lambda>m1.
     bnd (dot_mm m1 (tp eigvec_c)) (\<lambda>m2.
     bnd (dot_mm m2 (tp dx_forecast)) (\<lambda>m_matrix.
     bnd (la_eigh L m_matrix) (\<lambda>(eigval_m, eigvec_m).
     bnd (eig_warning (sr_warn F) eigval_m) (\<lambda>_.
     bnd (pow_half (map (\<lambda>x. abs (1 - x)) (clip_upper eigval_m))) (\<lambda>root.
     bnd (broadcast2 (*) eigvec_m (row root)) (\<lambda>scaled_m.
     bnd (dot_mm scaled_m (tp eigvec_m)) (\<lambda>sqrt_matrix.
     bnd (dot_mm sqrt_matrix dz_forecast) (\<lambda>dz_analysis.
     bnd (broadcast2 (+) (row z_mean_analysis) dz_analysis) (\<lambda>z_analysis.
     bnd (rms0 dz_analysis) (\<lambda>spread.
     ret (z_analysis, z_mean_analysis, spread))))))))))))))))))))))))))))"

section \<open>Woodbury square-root filter\<close>

text \<open>\<^verbatim>\<open>WoodburyEnsembleSquareRootFilter\<close>: the noise precision is a scalar, a
  one-dimensional array (the diagonal) or a two-dimensional array.\<close>

datatype precision = Scalar real | Diagonal vec | Dense mat

definition obser_noise_preci_is_dense :: "precision \<Rightarrow> bool" where
  "obser_noise_preci_is_dense p = (case p of Dense P \<Rightarrow> True | _ \<Rightarrow> False)"

record woodbury =
  wb_observation_func :: "mat \<Rightarrow> int \<Rightarrow> mat"
  wb_obser_noise_preci :: precision
  wb_warn :: bool

definition a_matrix_of :: "precision \<Rightarrow> mat \<Rightarrow> mat run" where
  "a_matrix_of p dx_forecast =
     (if obser_noise_preci_is_dense p
      then (case p of Dense P \<Rightarrow> dot_mm P (tp dx_forecast)
                    | _ \<Rightarrow> raise ValueError)
      else (case p of
              Scalar s \<Rightarrow> ret (tp (smul s dx_forecast))
            | Diagonal d \<Rightarrow> bnd (broadcast2 (*) (row d) dx_forecast) (\<lambda>m. ret (tp m))
            | Dense P \<Rightarrow> bnd (broadcast2 (*) P dx_forecast) (\<lambda>m. ret (tp m))))"

definition woodbury_analysis_update ::
  "linalg \<Rightarrow> woodbury \<Rightarrow> mat \<Rightarrow> vec \<Rightarrow> int \<Rightarrow> (mat \<times> vec \<times> vec) run" where
  "woodbury_analysis_update L F z_forecast x_observed time_index =
    (let n_particles = nrows z_forecast in
     bnd (mean0 z_forecast) (\<lambda>z_mean_forecast.
     bnd (broadcast2 (-) z_forecast (row z_mean_forecast)) (\<lambda>dz_forecast.
     let x_forecast = wb_observation_func F z_forecast time_index in
     bnd (mean0 x_forecast) (\<lambda>x_mean_forecast.
     bnd (broadcast2 (-) x_forecast (row x_mean_forecast)) (\<lambda>dx_forecast.
     bnd (broadcast1 (-) x_observed x_mean_forecast) (\<lambda>dx_error.
     bnd (a_matrix_of (wb_obser_noise_preci F) dx_forecast) (\<lambda>a_matrix.
     bnd (dot_vm dx_error a_matrix) (\<lambda>b_vector.
     bnd (dot_mm dx_forecast a_matrix) (\<lambda>c_matrix.
     bnd (broadcast2 (+) (smul (real n_particles - 1) (eye n_particles)) c_matrix)
       (\<lambda>d_matrix.
     bnd (la_solve L d_matrix c_matrix) (\<lambda>e_matrix.
     bnd (dot_vm b_vector e_matrix) (\<lambda>be.
     bnd (broadcast1 (-) b_vector be) (\<lambda>b_rest.
     bnd (dot_vm b_rest dz_forecast) (\<lambda>shift.
     bnd (div_vs shift (real n_particles - 1)) (\<lambda>shift'.
     bnd (broadcast1 (+) z_mean_forecast shift') (\<lambda>z_mean_analysis.
     bnd (dot_mm c_matrix e_matrix) (\<lambda>ce.
     bnd (broadcast2 (-) c_matrix ce) (\<lambda>c_rest.
     bnd (div_ms c_rest (real n_particles - 1)) (\<lambda>m_matrix.
     bnd (la_eigh L m_matrix) (\<lambda>(eigval_m, eigvec_m).
     bnd (eig_warning (wb_warn F) eigval_m) (\<lambda>_.
     bnd (pow_half (map (\<lambda>x. 1 - x) (clip_upper eigval_m))) (\<lambda>root.
     bnd (broadcast2 (*) eigvec_m (row root)) (\<lambda>scaled_m.
     bnd (dot_mm scaled_m (tp eigvec_m)) (\<lambda>sqrt_matrix.
     bnd (dot_mm sqrt_matrix dz_forecast) (\<lambda>dz_analysis.
     bnd (broadcast2 (+) (row z_mean_analysis) dz_analysis) (\<lambda>z_analysis.
     bnd (rms0 dz_analysis) (\<lambda>spread.
     ret (z_analysis, z_mean_analysis, spread))))))))))))))))))))))))))))"

section \<open>Local ensemble transform filter\<close>

text \<open>\<^verbatim>\<open>LocalEnsembleTransformKalmanFilter.local_analysis_update\<close> reads one field of the
  filter, the inflation factor. \<open>iadd_prefix e k s\<close> is the in-place
  \<^verbatim>\<open>e[:k] += s\<close>: \<open>s\<close> must broadcast to the shape of the slice.\<close>

record letkf =
  inflation_factor :: real

definition iadd_prefix :: "vec \<Rightarrow> nat \<Rightarrow> vec \<Rightarrow> vec run" where
  "iadd_prefix e k s =
     (let l = min k (length e) in
      if length s = l \<or> length s = 1
      then ret (vec_of (length e) (\<lambda>i. if i < l then e ! i + s ! bidx (length s) i else e ! i))
      else raise ValueError)"

definition local_analysis_update ::
  "linalg \<Rightarrow> letkf \<Rightarrow> mat \<Rightarrow> mat \<Rightarrow> vec \<Rightarrow> vec \<Rightarrow> vec \<Rightarrow> mat run" where
  "local_analysis_update L F z_forecast x_forecast x_observed obs_noise_std
       localisation_weights =
    (let n_p = nrows z_forecast in
     bnd (mean0 z_forecast) (\<lambda>z_mean_forecast.
     bnd (broadcast2 (-) z_forecast (row z_mean_forecast)) (\<lambda>dz_forecast.
     bnd (mean0 x_forecast) (\<lambda>x_mean_forecast.
     bnd (broadcast2 (-) x_forecast (row x_mean_forecast)) (\<lambda>dx_forecast.
     bnd (divide1 localisation_weights (map (\<lambda>s. s\<^sup>2) obs_noise_std)) (\<lambda>eff_inv_obs_var.
     bnd (pow_half eff_inv_obs_var) (\<lambda>eff_root.
     bnd (broadcast2 (*) dx_forecast (row eff_root)) (\<lambda>dx_scaled.
     case svd L dx_scaled of (eigvec_p, sing_val, vh) \<Rightarrow>
     bnd (div_vs (map (\<lambda>x. x * (real n_p - 1)) (replicate n_p 1)) (inflation_factor F))
       (\<lambda>eigval_p_inv0.
     bnd (iadd_prefix eigval_p_inv0 (ncols dx_forecast) (map (\<lambda>s. s\<^sup>2) sing_val))
       (\<lambda>eigval_p_inv.
     bnd (div_sv 1 eigval_p_inv) (\<lambda>eigval_p.
     bnd (pow_half eigval_p) (\<lambda>eigval_p_root.
     bnd (broadcast2 (*) eigvec_p (row eigval_p_root)) (\<lambda>scaled_p.
     bnd (dot_mm scaled_p (tp eigvec_p)) (\<lambda>root_p.
     let dw_matrix = smul (sqrt (real n_p - 1)) root_p in
     bnd (broadcast2 (*) dx_forecast (row eff_inv_obs_var)) (\<lambda>dx_weighted.
     bnd (broadcast1 (-) x_observed x_mean_forecast) (\<lambda>dx_error.
     bnd (dot_mv dx_weighted dx_error) (\<lambda>d_vector.
     bnd (dot_mv (tp eigvec_p) d_vector) (\<lambda>projected.
     bnd (broadcast1 (*) eigval_p projected) (\<lambda>weighted.
     bnd (dot_mv eigvec_p weighted) (\<lambda>w_mean.
     bnd (broadcast2 (+) (row w_mean) dw_matrix) (\<lambda>w_matrix.
     bnd (dot_mm w_matrix dz_forecast) (\<lambda>combination.
     broadcast2 (+) (row z_mean_forecast) combination))))))))))))))))))))))"

section \<open>Quantities of the updates\<close>

text \<open>The intermediate arrays of the updates, written without the checks; the theorems below
  show that the updates compute them. \<open>center\<close> subtracts the column means, \<open>diag_m\<close> is the
  diagonal matrix of a vector, \<open>eig_inverse\<close> and \<open>root_matrix\<close> rebuild a matrix from what
  \<^verbatim>\<open>eigh\<close> returned, \<open>eig_shape\<close> is the shape of what \<^verbatim>\<open>eigh\<close> returns for an
  \<open>n \<times> n\<close> matrix.\<close>

definition center :: "mat \<Rightarrow> mat" where
  "center A = zip_row (-) A (mean_cols A)"

definition esrf_c_matrix :: "esrf \<Rightarrow> mat \<Rightarrow> int \<Rightarrow> mat" where
  "esrf_c_matrix F z t = (let dx = center (sr_observation_func F z t) in
     zip_m (+) (mmul (tp dx) dx) (smul (real (nrows z) - 1) (sr_obser_noise_covar F)))"

definition eig_inverse :: "vec \<times> mat \<Rightarrow> mat" where
  "eig_inverse wV = mmul (zip_row (/) (snd wV) (fst wV)) (tp (snd wV))"

definition esrf_mean :: "linalg \<Rightarrow> esrf \<Rightarrow> mat \<Rightarrow> vec \<Rightarrow> int \<Rightarrow> vec" where
  "esrf_mean L F z x t = (let xf = sr_observation_func F z t; dx = center xf in
     zip_v (+) (mean_cols z)
       (vmul (zip_v (-) x (mean_cols xf))
          (mmul (eig_inverse (eigh L (esrf_c_matrix F z t))) (mmul (tp dx) (center z)))))"

definition esrf_m_matrix :: "linalg \<Rightarrow> esrf \<Rightarrow> mat \<Rightarrow> int \<Rightarrow> mat" where
  "esrf_m_matrix L F z t = (let dx = center (sr_observation_func F z t);
       wV = eigh L (esrf_c_matrix F z t) in
     mmul (mmul (mmul dx (zip_row (/) (snd wV) (fst wV))) (tp (snd wV))) (tp dx))"

definition root_matrix :: "(real \<Rightarrow> real) \<Rightarrow> vec \<times> mat \<Rightarrow> mat" where
  "root_matrix g wV = mmul (zip_row (*) (snd wV) (map g (fst wV))) (tp (snd wV))"

definition esrf_deviations :: "linalg \<Rightarrow> esrf \<Rightarrow> mat \<Rightarrow> int \<Rightarrow> mat" where
  "esrf_deviations L F z t =
     mmul (root_matrix (\<lambda>x. sqrt (abs (1 - min x 1))) (eigh L (esrf_m_matrix L F z t)))
       (center z)"

definition rms_cols :: "mat \<Rightarrow> vec" where
  "rms_cols D = map sqrt (mean_cols (map_m (\<lambda>x. x\<^sup>2) D))"

definition eig_shape :: "nat \<Rightarrow> vec \<times> mat \<Rightarrow> bool" where
  "eig_shape n wV = (length (fst wV) = n \<and> nrows (snd wV) = n \<and> ncols (snd wV) = n)"

definition diag_m :: "vec \<Rightarrow> mat" where
  "diag_m p = mat_of (length p) (length p) (\<lambda>i j. if i = j then p ! i else 0)"

text \<open>A run that did not end with the \<open>nan\<close> of a root of a negative number.\<close>

definition no_nan_root :: "'a run \<Rightarrow> bool" where
  "no_nan_root r = (snd r \<noteq> Inl (FloatingPointError NegativePower))"

definition wb_a_matrix :: "precision \<Rightarrow> mat \<Rightarrow> mat" where
  "wb_a_matrix p dx = (case p of
       Scalar s \<Rightarrow> tp (smul s dx)
     | Diagonal d \<Rightarrow> tp (zip_row (\<lambda>a b. b * a) dx d)
     | Dense P \<Rightarrow> mmul P (tp dx))"

definition preci_shape :: "nat \<Rightarrow> precision \<Rightarrow> bool" where
  "preci_shape n p = (case p of
       Scalar s \<Rightarrow> True
     | Diagonal d \<Rightarrow> length d = n
     | Dense P \<Rightarrow> nrows P = n \<and> ncols P = n)"

definition wb_c_matrix :: "woodbury \<Rightarrow> mat \<Rightarrow> int \<Rightarrow> mat" where
  "wb_c_matrix F z t = (let dx = center (wb_observation_func F z t) in
     mmul dx (wb_a_matrix (wb_obser_noise_preci F) dx))"

definition wb_d_matrix :: "woodbury \<Rightarrow> mat \<Rightarrow> int \<Rightarrow> mat" where
  "wb_d_matrix F z t =
     zip_m (+) (smul (real (nrows z) - 1) (eye (nrows z))) (wb_c_matrix F z t)"

definition wb_e_matrix :: "linalg \<Rightarrow> woodbury \<Rightarrow> mat \<Rightarrow> int \<Rightarrow> mat" where
  "wb_e_matrix L F z t = the (solve L (wb_d_matrix F z t) (wb_c_matrix F z t))"

definition wb_mean :: "linalg \<Rightarrow> woodbury \<Rightarrow> mat \<Rightarrow> vec \<Rightarrow> int \<Rightarrow> vec" where
  "wb_mean L F z x t = (let xf = wb_observation_func F z t;
       b = vmul (zip_v (-) x (mean_cols xf)) (wb_a_matrix (wb_obser_noise_preci F) (center xf))
     in zip_v (+) (mean_cols z)
          (map (\<lambda>a. a / (real (nrows z) - 1))
             (vmul (zip_v (-) b (vmul b (wb_e_matrix L F z t))) (center z))))"

definition wb_m_matrix :: "linalg \<Rightarrow> woodbury \<Rightarrow> mat \<Rightarrow> int \<Rightarrow> mat" where
  "wb_m_matrix L F z t =
     map_m (\<lambda>a. a / (real (nrows z) - 1))
       (zip_m (-) (wb_c_matrix F z t) (mmul (wb_c_matrix F z t) (wb_e_matrix L F z t)))"

definition wb_deviations :: "linalg \<Rightarrow> woodbury \<Rightarrow> mat \<Rightarrow> int \<Rightarrow> mat" where
  "wb_deviations L F z t =
     mmul (root_matrix (\<lambda>x. sqrt (1 - min x 1)) (eigh L (wb_m_matrix L F z t))) (center z)"

definition enkf_analysis :: "linalg \<Rightarrow> 'g enkf \<Rightarrow> 'g \<Rightarrow> mat \<Rightarrow> vec \<Rightarrow> int \<Rightarrow> mat" where
  "enkf_analysis L F rng z x t = (let xf = fst (observation_sampler F rng z t) in
     zip_m (+) z (mmul (mmul (zip_row (\<lambda>a b. b - a) xf x) (pinv L (center xf))) (center z)))"

definition le_eff :: "vec \<Rightarrow> vec \<Rightarrow> vec" where
  "le_eff w sd = zip_v (/) w (map (\<lambda>s. s\<^sup>2) sd)"

definition le_scaled :: "mat \<Rightarrow> vec \<Rightarrow> vec \<Rightarrow> mat" where
  "le_scaled xf w sd = zip_row (*) (center xf) (map sqrt (le_eff w sd))"

definition le_eigval_p_inv :: "linalg \<Rightarrow> letkf \<Rightarrow> nat \<Rightarrow> mat \<Rightarrow> vec \<Rightarrow> vec \<Rightarrow> vec" where
  "le_eigval_p_inv L F n xf w sd = (let sing_val = fst (snd (svd L (le_scaled xf w sd))) in
     vec_of n (\<lambda>i. (real n - 1) / inflation_factor F +
                  (if i < min (ncols xf) n then (sing_val ! i)\<^sup>2 else 0)))"

definition le_w_matrix ::
  "linalg \<Rightarrow> letkf \<Rightarrow> nat \<Rightarrow> mat \<Rightarrow> vec \<Rightarrow> vec \<Rightarrow> vec \<Rightarrow> mat" where
  "le_w_matrix L F n xf x sd w =
     (let eigvec_p = fst (svd L (le_scaled xf w sd));
          eigval_p = map (\<lambda>a. 1 / a) (le_eigval_p_inv L F n xf w sd);
          dw_matrix = smul (sqrt (real n - 1))
             (mmul (zip_row (*) eigvec_p (map sqrt eigval_p)) (tp eigvec_p));
          d_vector = mvmul (zip_row (*) (center xf) (le_eff w sd)) (zip_v (-) x (mean_cols xf));
          w_mean = mvmul eigvec_p (zip_v (*) eigval_p (mvmul (tp eigvec_p) d_vector))
      in zip_row (\<lambda>a b. b + a) dw_matrix w_mean)"

definition le_analysis ::
  "linalg \<Rightarrow> letkf \<Rightarrow> mat \<Rightarrow> mat \<Rightarrow> vec \<Rightarrow> vec \<Rightarrow> vec \<Rightarrow> mat" where
  "le_analysis L F z xf x sd w =
     zip_row (\<lambda>a b. b + a) (mmul (le_w_matrix L F (nrows z) xf x sd w) (center z)) (mean_cols z)"

definition svd_shape :: "mat \<Rightarrow> mat \<times> vec \<times> mat \<Rightarrow> bool" where
  "svd_shape A usv = (nrows (fst usv) = nrows A \<and> ncols (fst usv) = nrows A \<and>
     length (fst (snd usv)) = min (nrows A) (ncols A))"

definition enkf_consistent :: "linalg \<Rightarrow> 'g enkf \<Rightarrow> 'g \<Rightarrow> mat \<Rightarrow> vec \<Rightarrow> int \<Rightarrow> bool" where
  "enkf_consistent L F rng z x t = (let xf = fst (observation_sampler F rng z t) in
     0 < nrows z \<and> nrows xf = nrows z \<and> ncols xf = length x \<and>
     nrows (pinv L (center xf)) = ncols xf \<and> ncols (pinv L (center xf)) = nrows xf)"

definition esrf_consistent :: "linalg \<Rightarrow> esrf \<Rightarrow> mat \<Rightarrow> vec \<Rightarrow> int \<Rightarrow> bool" where
  "esrf_consistent L F z x t = (let xf = sr_observation_func F z t in
     0 < nrows z \<and> nrows xf = nrows z \<and> ncols xf = length x \<and>
     nrows (sr_obser_noise_covar F) = length x \<and> ncols (sr_obser_noise_covar F) = length x \<and>
     eig_shape (length x) (eigh L (esrf_c_matrix F z t)) \<and>
     eig_shape (nrows z) (eigh L (esrf_m_matrix L F z t)))"

definition woodbury_consistent :: "linalg \<Rightarrow> woodbury \<Rightarrow> mat \<Rightarrow> vec \<Rightarrow> int \<Rightarrow> bool" where
  "woodbury_consistent L F z x t = (let xf = wb_observation_func F z t in
     1 < nrows z \<and> nrows xf = nrows z \<and> ncols xf = length x \<and>
     preci_shape (length x) (wb_obser_noise_preci F) \<and>
     eig_shape (nrows z) (eigh L (wb_m_matrix L F z t)))"

definition solve_shape :: "linalg \<Rightarrow> mat \<Rightarrow> mat \<Rightarrow> bool" where
  "solve_shape L A B = (case solve L A B of None \<Rightarrow> False
     | Some X \<Rightarrow> nrows X = ncols A \<and> ncols X = ncols B)"

definition letkf_consistent ::
  "linalg \<Rightarrow> letkf \<Rightarrow> mat \<Rightarrow> mat \<Rightarrow> vec \<Rightarrow> vec \<Rightarrow> vec \<Rightarrow> bool" where
  "letkf_consistent L F z xf x sd w =
     (1 < nrows z \<and> nrows xf = nrows z \<and> ncols xf = length x \<and>
      length sd = length x \<and> length w = length x \<and>
      list_all (\<lambda>s. s \<noteq> 0) sd \<and> list_all (\<lambda>a. 0 \<le> a) w \<and> 0 < inflation_factor F \<and>
      svd_shape (le_scaled xf w sd) (svd L (le_scaled xf w sd)))"

definition svd_valid :: "mat \<Rightarrow> mat \<times> vec \<times> mat \<Rightarrow> bool" where
  "svd_valid A usv = (let U = fst usv; s = fst (snd usv); Vh = snd (snd usv);
       n = nrows A; d = ncols A in
     shaped n n U \<and> length s = min n d \<and> shaped d d Vh \<and>
     mmul (tp U) U = eye n \<and> mmul U (tp U) = eye n \<and>
     mmul Vh (tp Vh) = eye d \<and> mmul (tp Vh) Vh = eye d \<and>
     A = mat_of n d (\<lambda>i j. \<Sum>l<min n d. el U i l * s ! l * el Vh l j))"

text \<open>What \<^verbatim>\<open>numpy.linalg.eigh\<close> returns for a square matrix \<open>A\<close> in exact arithmetic:
  eigenvalues \<open>w\<close> and an orthogonal matrix \<open>V\<close> whose columns are eigenvectors,
  \<open>A V = V diag(w)\<close>.\<close>

definition eigh_valid :: "mat \<Rightarrow> vec \<times> mat \<Rightarrow> bool" where
  "eigh_valid A wV = (let w = fst wV; V = snd wV; n = nrows A in
     length w = n \<and> shaped n n V \<and>
     mmul (tp V) V = eye n \<and> mmul V (tp V) = eye n \<and>
     mmul A V = zip_row (*) V w)"

text \<open>The quadratic form of a matrix, and positive definiteness.\<close>

definition quad :: "mat \<Rightarrow> vec \<Rightarrow> real" where
  "quad A v = (\<Sum>i<nrows A. \<Sum>j<ncols A. v ! i * el A i j * v ! j)"

definition nonzero_vec :: "nat \<Rightarrow> vec \<Rightarrow> bool" where
  "nonzero_vec n v = (length v = n \<and> list_ex (\<lambda>a. a \<noteq> 0) v)"

definition pos_def :: "mat \<Rightarrow> bool" where
  "pos_def A = (nrows A = ncols A \<and> (\<forall>v. nonzero_vec (nrows A) v \<longrightarrow> 0 < quad A v))"

text \<open>\<^verbatim>\<open>numpy.linalg.solve\<close> raises for a singular matrix, and otherwise returns the
  solution \<open>X\<close> of \<open>A X = B\<close>.\<close>

definition singular :: "mat \<Rightarrow> bool" where
  "singular A = (\<exists>v. nonzero_vec (ncols A) v \<and> mvmul A v = replicate (nrows A) 0)"

definition solve_valid :: "mat \<Rightarrow> mat \<Rightarrow> mat option \<Rightarrow> bool" where
  "solve_valid A B r = (case r of
       None \<Rightarrow> singular A
     | Some X \<Rightarrow> \<not> singular A \<and> shaped (ncols A) (ncols B) X \<and> mmul A X = B)"

text \<open>The precision matrix that a precision stands for, for observations of dimension \<open>n\<close>.\<close>

definition preci_matrix :: "nat \<Rightarrow> precision \<Rightarrow> mat" where
  "preci_matrix n p = (case p of
       Scalar s \<Rightarrow> smul s (eye n)
     | Diagonal d \<Rightarrow> diag_m d
     | Dense P \<Rightarrow> P)"

section \<open>Example inputs\<close>

text \<open>Two particles with a one-dimensional state that is observed directly, and the answers of
  the library routines on the arrays that arise from them: \<open>eigh0\<close> is exact on \<open>1 \<times> 1\<close>
  matrices and on symmetric \<open>2 \<times> 2\<close> matrices with equal diagonal entries (eigenvalues in
  ascending order), \<open>solve0\<close> is Cramer's
  rule for one and for two unknowns, \<open>svd0\<close> is exact on zero matrices and \<open>pinv0\<close> on matrices with one
  column.\<close>

definition z0 :: mat where
  "z0 = Mat 2 1 [[1], [-1]]"

definition x0 :: vec where
  "x0 = [3]"

definition obs0 :: "mat \<Rightarrow> int \<Rightarrow> mat" where
  "obs0 z t = z"

definition eigh0 :: "mat \<Rightarrow> vec \<times> mat" where
  "eigh0 A = (if nrows A = 1 then ([el A 0 0], eye 1)
     else if el A 0 1 \<le> 0
     then ([el A 0 0 + el A 0 1, el A 0 0 - el A 0 1],
           smul (sqrt (1/2)) (Mat 2 2 [[1, 1], [1, -1]]))
     else ([el A 0 0 - el A 0 1, el A 0 0 + el A 0 1],
           smul (sqrt (1/2)) (Mat 2 2 [[1, 1], [-1, 1]])))"

definition solve0 :: "mat \<Rightarrow> mat \<Rightarrow> mat option" where
  "solve0 A B =
     (if nrows A = 1
      then (if el A 0 0 = 0 then None else Some (smul (1 / el A 0 0) B))
      else (let det = el A 0 0 * el A 1 1 - el A 0 1 * el A 1 0 in
        if det = 0 then None
        else Some (mmul (smul (1 / det)
               (Mat 2 2 [[el A 1 1, - el A 0 1], [- el A 1 0, el A 0 0]])) B)))"

definition svd0 :: "mat \<Rightarrow> mat \<times> vec \<times> mat" where
  "svd0 A = (eye (nrows A), replicate (min (nrows A) (ncols A)) 0, eye (ncols A))"

definition pinv0 :: "mat \<Rightarrow> mat" where
  "pinv0 A = (let s = (\<Sum>i<nrows A. (el A i 0)\<^sup>2) in
     mat_of (ncols A) (nrows A) (\<lambda>i j. if s = 0 then 0 else el A j i / s))"

definition L0 :: linalg where
  "L0 = \<lparr> eigh = eigh0, solve = solve0, svd = svd0, pinv = pinv0 \<rparr>"

definition wb0 :: woodbury where
  "wb0 = \<lparr> wb_observation_func = obs0, wb_obser_noise_preci = Scalar 1, wb_warn = True \<rparr>"

definition J0 :: mat where
  "J0 = Mat 1 1 [[1]]"

definition esrf0 :: esrf where
  "esrf0 = esrf_init obs0 J0 True"

definition enkf0 :: "unit enkf" where
  "enkf0 = \<lparr> observation_sampler = (\<lambda>g z t. (obs0 z t, g)) \<rparr>"

definition letkf0 :: letkf where
  "letkf0 = \<lparr> inflation_factor = 1 \<rparr>"

definition eigh_noisy :: "real \<Rightarrow> mat \<Rightarrow> vec \<times> mat" where
  "eigh_noisy hi A = (if nrows A = 1 then eigh0 A else ([0, hi], snd (eigh0 A)))"

definition L_noisy :: "real \<Rightarrow> linalg" where
  "L_noisy hi = L0\<lparr>eigh := eigh_noisy hi\<rparr>"

definition z2 :: mat where
  "z2 = Mat 2 2 [[1, 1], [-1, -1]]"

definition esrf2 :: esrf where
  "esrf2 = esrf_init obs0 (eye 2) True"

definition z1 :: mat where
  "z1 = Mat 1 1 [[5]]"

text \<open>Double precision. \<open>double x\<close> is the double-precision number nearest to \<open>x\<close> (53
  significant bits, ties to the even significand), for \<open>x\<close> in the normal range.
  \<open>eigh_double\<close> and \<open>solve_double\<close> are \<open>eigh0\<close> and \<open>solve0\<close> on arrays of doubles: the
  entries of their arguments, and of their answers, are rounded. \<open>esrf_small\<close> has the noise
  covariance \<open>(1 / 2 ^ 60) I\<close>, \<open>wb_sharp\<close> the noise precision \<open>2 ^ 60\<close>.\<close>

definition double :: "real \<Rightarrow> real" where
  "double x = (if x = 0 then 0 else
     let ulp = 2 powr (of_int \<lfloor>log 2 \<bar>x\<bar>\<rfloor> - 52);
         q = x / ulp;
         f = \<lfloor>q\<rfloor> in
     if q - of_int f < 1/2 \<or> (q - of_int f = 1/2 \<and> even f)
     then of_int f * ulp else (of_int f + 1) * ulp)"

definition eigh_double :: "mat \<Rightarrow> vec \<times> mat" where
  "eigh_double A = (let wV = eigh0 (map_m double A) in
     (map double (fst wV), map_m double (snd wV)))"

definition solve_double :: "mat \<Rightarrow> mat \<Rightarrow> mat option" where
  "solve_double A B = map_option (map_m double) (solve0 (map_m double A) (map_m double B))"

definition L_double :: linalg where
  "L_double = L0\<lparr>eigh := eigh_double, solve := solve_double\<rparr>"

definition esrf_small :: esrf where
  "esrf_small = esrf_init obs0 (smul (1 / 2 ^ 30) (eye 2)) True"

definition wb_sharp :: woodbury where
  "wb_sharp = \<lparr> wb_observation_func = obs0, wb_obser_noise_preci = Scalar (2 ^ 60),
     wb_warn = True \<rparr>"

section \<open>Basic facts\<close>

lemma nrows_mat_of [simp]: "nrows (mat_of r c f) = r"
  and ncols_mat_of [simp]: "ncols (mat_of r c f) = c"
  by (simp_all add: mat_of_def)

lemma el_mat_of [simp]: "i < r \<Longrightarrow> j < c \<Longrightarrow> el (mat_of r c f) i j = f i j"
  by (simp add: mat_of_def el_def)

lemma wf_mat_of [simp]: "wf_mat (mat_of r c f)"
  by (simp add: mat_of_def wf_mat_def list_all_iff)

lemma mat_of_cong: "(\<And>i j. i < r \<Longrightarrow> j < c \<Longrightarrow> f i j = g i j) \<Longrightarrow> mat_of r c f = mat_of r c g"
  by (simp add: mat_of_def)

lemma mat_of_el: "wf_mat A \<Longrightarrow> mat_of (nrows A) (ncols A) (el A) = A"
proof (cases A)
  case (Mat r c rs)
  assume "wf_mat A"
  with Mat have len: "length rs = r" and rows: "\<And>x. x \<in> set rs \<Longrightarrow> length x = c"
    by (auto simp: wf_mat_def list_all_iff)
  have "map (\<lambda>i. map (\<lambda>j. rs ! i ! j) [0..<c]) [0..<r] = rs"
  proof (rule nth_equalityI)
    show "length (map (\<lambda>i. map (\<lambda>j. rs ! i ! j) [0..<c]) [0..<r]) = length rs"
      by (simp add: len)
  next
    fix i assume "i < length (map (\<lambda>i. map (\<lambda>j. rs ! i ! j) [0..<c]) [0..<r])"
    then have i: "i < r" by simp
    then have "length (rs ! i) = c" using rows len by simp
    then have "map (\<lambda>j. rs ! i ! j) [0..<c] = rs ! i"
      by (intro nth_equalityI) simp_all
    with i show "map (\<lambda>i. map (\<lambda>j. rs ! i ! j) [0..<c]) [0..<r] ! i = rs ! i"
      by simp
  qed
  with Mat show ?thesis by (simp add: mat_of_def el_def[abs_def])
qed

lemma mat_eqI:
  assumes "wf_mat A" "wf_mat B" "nrows A = nrows B" "ncols A = ncols B"
    and "\<And>i j. i < nrows B \<Longrightarrow> j < ncols B \<Longrightarrow> el A i j = el B i j"
  shows "A = B"
proof -
  have "mat_of (nrows A) (ncols A) (el A) = mat_of (nrows B) (ncols B) (el B)"
    using assms by (auto intro: mat_of_cong)
  then show ?thesis using assms(1,2) by (simp add: mat_of_el)
qed

lemma length_vec_of [simp]: "length (vec_of n f) = n"
  by (simp add: vec_of_def)

lemma nth_vec_of [simp]: "i < n \<Longrightarrow> vec_of n f ! i = f i"
  by (simp add: vec_of_def)

lemma vec_of_cong: "(\<And>i. i < n \<Longrightarrow> f i = g i) \<Longrightarrow> vec_of n f = vec_of n g"
  by (simp add: vec_of_def)

lemma vec_of_nth: "vec_of (length v) ((!) v) = v"
  by (simp add: vec_of_def map_nth)

lemma bnd_ret [simp]: "bnd (ret x) f = f x"
  by (simp add: bnd_def ret_def split: prod.splits)

lemma bnd_raise [simp]: "bnd (raise e) f = raise e"
  by (simp add: bnd_def raise_def)

lemma bnd_warn [simp]: "bnd (warnings_warn w) f = (w # fst (f ()), snd (f ()))"
  by (simp add: bnd_def warnings_warn_def split: prod.splits)

lemma bdim_same [simp]: "bdim a a = Some a"
  and bdim_one_r [simp]: "bdim a (Suc 0) = Some a"
  and bdim_one_l [simp]: "bdim (Suc 0) a = Some a"
  by (auto simp: bdim_def)

lemma bidx_lt [simp]: "i < d \<Longrightarrow> bidx d i = i"
  by (auto simp: bidx_def)

lemma bidx_one [simp]: "bidx (Suc 0) i = 0"
  by (simp add: bidx_def)

lemma broadcast2_same:
  "nrows A = nrows B \<Longrightarrow> ncols A = ncols B \<Longrightarrow> broadcast2 f A B = ret (zip_m f A B)"
  unfolding broadcast2_def zip_m_def by (auto intro!: arg_cong[where f=ret] mat_of_cong)

lemma broadcast2_row_r:
  "ncols A = length v \<Longrightarrow> broadcast2 f A (row v) = ret (zip_row f A v)"
  unfolding broadcast2_def zip_row_def row_def
  by (auto intro!: arg_cong[where f=ret] mat_of_cong)

lemma broadcast2_row_l:
  "ncols A = length v \<Longrightarrow> broadcast2 f (row v) A = ret (zip_row (\<lambda>a b. f b a) A v)"
  unfolding broadcast2_def zip_row_def row_def
  by (auto intro!: arg_cong[where f=ret] mat_of_cong)

lemma broadcast1_same:
  "length u = length v \<Longrightarrow> broadcast1 f u v = ret (zip_v f u v)"
  unfolding broadcast1_def zip_v_def
  by (auto intro!: arg_cong[where f=ret] vec_of_cong)

lemma shape_simps [simp]:
  "nrows (tp A) = ncols A" "ncols (tp A) = nrows A"
  "nrows (mmul A B) = nrows A" "ncols (mmul A B) = ncols B"
  "nrows (smul k A) = nrows A" "ncols (smul k A) = ncols A"
  "nrows (eye n) = n" "ncols (eye n) = n"
  "nrows (row v) = 1" "ncols (row v) = length v"
  "nrows (map_m g A) = nrows A" "ncols (map_m g A) = ncols A"
  "nrows (zip_m f A B) = nrows A" "ncols (zip_m f A B) = ncols A"
  "nrows (zip_row f A v) = nrows A" "ncols (zip_row f A v) = ncols A"
  "length (vmul v B) = ncols B" "length (mvmul A v) = nrows A"
  "length (zip_v f u v) = length u" "length (mean_cols A) = ncols A"
  "length (std_cols A) = ncols A" "length (clip_upper v) = length v"
  by (simp_all add: tp_def mmul_def smul_def eye_def row_def map_m_def zip_m_def zip_row_def
      vmul_def mvmul_def zip_v_def mean_cols_def std_cols_def clip_upper_def)

lemma wf_simps [simp]:
  "wf_mat (tp A)" "wf_mat (mmul A B)" "wf_mat (smul k A)" "wf_mat (eye n)" "wf_mat (row v)"
  "wf_mat (map_m g A)" "wf_mat (zip_m f A B)" "wf_mat (zip_row f A v)"
  by (simp_all add: tp_def mmul_def smul_def eye_def row_def map_m_def zip_m_def zip_row_def)

lemma has_zero_mat_of: "has_zero (mat_of r c f) \<longleftrightarrow> (\<exists>i<r. \<exists>j<c. f i j = 0)"
proof -
  have "has_zero (mat_of r c f) \<longleftrightarrow> (\<exists>i\<in>{0..<r}. \<exists>j\<in>{0..<c}. f i j = 0)"
    by (force simp: has_zero_def mat_of_def list_ex_iff)
  then show ?thesis by (simp add: Bex_def)
qed

lemma divide2_row:
  "ncols A = length v \<Longrightarrow> divide2 A (row v) =
     (if nrows A \<noteq> 0 \<and> list_ex (\<lambda>x. x = 0) v then raise (FloatingPointError DivideByZero)
      else ret (zip_row (/) A v))"
  by (auto simp: divide2_def broadcast2_row_r zip_row_def has_zero_mat_of list_ex_iff
      in_set_conv_nth)

lemma divide1_same:
  "length u = length v \<Longrightarrow> divide1 u v =
     (if list_ex (\<lambda>x. x = 0) v then raise (FloatingPointError DivideByZero)
      else ret (zip_v (/) u v))"
  by (auto simp: divide1_def broadcast1_same zip_v_def vec_of_def list_ex_iff in_set_conv_nth)

lemma dot_simps:
  "ncols A = nrows B \<Longrightarrow> dot_mm A B = ret (mmul A B)"
  "length v = nrows B \<Longrightarrow> dot_vm v B = ret (vmul v B)"
  "ncols A = length v \<Longrightarrow> dot_mv A v = ret (mvmul A v)"
  by (simp_all add: dot_mm_def dot_vm_def dot_mv_def)

lemma mean0_pos: "0 < nrows A \<Longrightarrow> mean0 A = ret (mean_cols A)"
  by (simp add: mean0_def)

lemma pow_half_nonneg: "\<forall>x\<in>set v. 0 \<le> x \<Longrightarrow> pow_half v = ret (map sqrt v)"
  by (auto simp: pow_half_def list_ex_iff)

lemma pow_half_abs [simp]: "pow_half (map (\<lambda>x. abs (g x)) v) = ret (map (\<lambda>x. sqrt (abs (g x))) v)"
  by (auto simp: pow_half_def list_ex_iff comp_def)

lemma pow_half_clip [simp]:
  "pow_half (map (\<lambda>x. 1 - x) (clip_upper v)) = ret (map (\<lambda>x. sqrt (1 - min x 1)) v)"
  by (auto simp: pow_half_def list_ex_iff clip_upper_def comp_def)

lemma rms0_pos:
  "0 < nrows D \<Longrightarrow> rms0 D = ret (map sqrt (mean_cols (map_m (\<lambda>x. x\<^sup>2) D)))"
proof -
  assume N: "0 < nrows D"
  have "\<forall>x\<in>set (mean_cols (map_m (\<lambda>x. x\<^sup>2) D)). 0 \<le> x"
    by (auto simp: mean_cols_def vec_of_def map_m_def intro!: divide_nonneg_nonneg sum_nonneg)
  then show ?thesis
    using N by (simp add: rms0_def mean0_pos pow_half_nonneg)
qed

lemma center_shape [simp]: "nrows (center A) = nrows A" "ncols (center A) = ncols A"
  "wf_mat (center A)"
  by (simp_all add: center_def)

lemma pow_half_one_minus_min [simp]:
  "pow_half (map (\<lambda>x. 1 - min x 1) v) = ret (map (\<lambda>x. sqrt (1 - min x 1)) v)"
  by (auto simp: pow_half_def list_ex_iff comp_def)

lemma esrf_shapes [simp]:
  "nrows (esrf_c_matrix F z t) = ncols (sr_observation_func F z t)"
  "ncols (esrf_c_matrix F z t) = ncols (sr_observation_func F z t)"
  "nrows (esrf_m_matrix L F z t) = nrows (sr_observation_func F z t)"
  "ncols (esrf_m_matrix L F z t) = nrows (sr_observation_func F z t)"
  by (simp_all add: esrf_c_matrix_def esrf_m_matrix_def Let_def)

lemma fst_ret [simp]: "fst (ret x) = []" and snd_ret [simp]: "snd (ret x) = Inr x"
  and fst_raise [simp]: "fst (raise e) = []" and snd_raise [simp]: "snd (raise e) = Inl e"
  by (simp_all add: ret_def raise_def)

lemma ret_eq_pair: "ret x = ([], Inr x)"
  by (simp add: ret_def)

lemma esrf_returns:
  assumes N: "0 < nrows z"
    and X: "nrows (sr_observation_func F z t) = nrows z"
           "ncols (sr_observation_func F z t) = dx"
    and R: "nrows (sr_obser_noise_covar F) = dx" "ncols (sr_obser_noise_covar F) = dx"
    and C: "eig_shape dx (eigh L (esrf_c_matrix F z t))"
           "\<forall>w\<in>set (fst (eigh L (esrf_c_matrix F z t))). w \<noteq> 0"
    and M: "eig_shape (nrows z) (eigh L (esrf_m_matrix L F z t))"
    and x: "length x = dx"
  shows "esrf_analysis_update L F z x t =
     (let wm = fst (eigh L (esrf_m_matrix L F z t)) in
      (if sr_warn F \<and> (\<exists>w\<in>set wm. w > 1) then [EigenvalueWarning (Max (set wm))] else [],
       Inr (zip_row (\<lambda>a b. b + a) (esrf_deviations L F z t) (esrf_mean L F z x t),
            esrf_mean L F z x t,
            rms_cols (esrf_deviations L F z t))))"
  using assms
  apply (simp add: esrf_analysis_update_def Let_def mean0_pos broadcast2_row_r broadcast2_row_l
      broadcast2_same broadcast1_same dot_simps la_eigh_def center_def[symmetric]
      esrf_c_matrix_def[symmetric, unfolded Let_def]
      esrf_m_matrix_def[symmetric, unfolded Let_def]
      esrf_deviations_def esrf_mean_def root_matrix_def
      eig_inverse_def rms_cols_def split_beta eig_shape_def divide2_row
      list_ex_iff eig_warning_def rms0_pos clip_upper_def comp_def)
  apply (simp add: ret_def)
  done

lemma bnd_cong:
  assumes "\<And>ws x. m = (ws, Inr x) \<Longrightarrow> f x = g x"
  shows "bnd m f = bnd m g"
  using assms by (auto simp: bnd_def split: prod.splits sum.splits)

lemma sum_delta_left:
  fixes f :: "nat \<Rightarrow> real"
  assumes "j < n"
  shows "(\<Sum>k<n. (if j = k then a else 0) * f k) = a * f j"
proof -
  have "(\<Sum>k<n. (if j = k then a else 0) * f k) = (\<Sum>k<n. if k = j then a * f k else 0)"
    by (intro sum.cong) auto
  also have "\<dots> = a * f j"
    using assms by (simp add: sum.delta)
  finally show ?thesis .
qed

lemma a_matrix_diagonal_dense:
  assumes "length p = ncols dx"
  shows "a_matrix_of (Diagonal p) dx = a_matrix_of (Dense (diag_m p)) dx"
proof -
  have "tp (zip_row (\<lambda>a b. b * a) dx p) = mmul (diag_m p) (tp dx)"
    unfolding tp_def zip_row_def mmul_def diag_m_def using assms
    by (auto intro!: mat_of_cong simp: sum_delta_left)
  then show ?thesis
    using assms
    by (simp add: a_matrix_of_def obser_noise_preci_is_dense_def broadcast2_row_l dot_simps
        diag_m_def)
qed

lemma broadcast2_row_ncols:
  "broadcast2 f A (row v) = (ws, Inr D) \<Longrightarrow> length v = ncols A \<Longrightarrow> ncols D = ncols A"
  by (auto simp: broadcast2_def ret_def raise_def bdim_def split: if_splits)

lemma mean0_length: "mean0 A = (ws, Inr m) \<Longrightarrow> length m = ncols A"
  by (auto simp: mean0_def ret_def raise_def split: if_splits)

section \<open>Diagonal and dense precision\<close>

text \<open>
  Claim C6. In the Woodbury update, a diagonal precision given as a vector of the length of
  the observation and the same precision given as the dense diagonal matrix give the same run:
  the same analysis ensemble, mean and spread, the same warnings, the same error if there is
  one. Both compute the same matrix \<open>A\<close> (lemma \<open>a_matrix_diagonal_dense\<close>), and the rest of
  the update does not look at the precision again.
\<close>

theorem woodbury_diagonal_dense:
  assumes "length p = ncols (wb_observation_func F z t)"
  shows "woodbury_analysis_update L (F\<lparr>wb_obser_noise_preci := Diagonal p\<rparr>) z x t =
         woodbury_analysis_update L (F\<lparr>wb_obser_noise_preci := Dense (diag_m p)\<rparr>) z x t"
proof -
  have key: "a_matrix_of (Diagonal p) D = a_matrix_of (Dense (diag_m p)) D"
    if "mean0 (wb_observation_func F z t) = (ws, Inr m)"
      and "broadcast2 (-) (wb_observation_func F z t) (row m) = (ws', Inr D)"
    for ws m ws' D
  proof -
    have "length m = ncols (wb_observation_func F z t)"
      using that(1) by (rule mean0_length)
    then have "ncols D = ncols (wb_observation_func F z t)"
      using that(2) by (intro broadcast2_row_ncols)
    then show ?thesis
      using assms by (simp add: a_matrix_diagonal_dense)
  qed
  show ?thesis
    unfolding woodbury_analysis_update_def Let_def
    by (auto intro!: bnd_cong dest: key)
qed

theorem woodbury_diagonal_dense_witness:
  "length [1::real] = ncols (wb_observation_func wb0 z0 0) \<and>
   woodbury_analysis_update L0 (wb0\<lparr>wb_obser_noise_preci := Diagonal [1]\<rparr>) z0 x0 0 =
   woodbury_analysis_update L0 (wb0\<lparr>wb_obser_noise_preci := Dense (diag_m [1])\<rparr>) z0 x0 0"
  using woodbury_diagonal_dense [of "[1]" wb0 z0 0 L0 x0]
  by (simp add: wb0_def z0_def obs0_def)

section \<open>No root of a negative number\<close>

lemma nnr_bnd:
  assumes "no_nan_root m" "\<And>ws x. m = (ws, Inr x) \<Longrightarrow> no_nan_root (f x)"
  shows "no_nan_root (bnd m f)"
  using assms by (auto simp: no_nan_root_def bnd_def split: prod.splits sum.splits)

lemma nnr_ops:
  "no_nan_root (ret y)" "no_nan_root (raise ValueError)" "no_nan_root (raise LinAlgError)"
  "no_nan_root (raise (FloatingPointError DivideByZero))"
  "no_nan_root (raise (FloatingPointError MeanOfEmpty))"
  "no_nan_root (warnings_warn w)"
  by (simp_all add: no_nan_root_def warnings_warn_def)

lemma nnr_broadcast: "no_nan_root (broadcast2 f A B)" "no_nan_root (broadcast1 f u v)"
  by (auto simp: broadcast2_def broadcast1_def nnr_ops split: option.splits)

lemma nnr_numpy:
  "no_nan_root (divide2 A B)" "no_nan_root (divide1 u v)" "no_nan_root (div_ms A k)"
  "no_nan_root (div_vs v k)" "no_nan_root (div_sv k v)" "no_nan_root (mean0 A)"
  "no_nan_root (std0 A)" "no_nan_root (dot_mm A B)" "no_nan_root (dot_vm v B)"
  "no_nan_root (dot_mv A v)" "no_nan_root (la_eigh L A)" "no_nan_root (la_solve L A B)"
  "no_nan_root (eig_warning b ev)" "no_nan_root (a_matrix_of p A)"
  by (auto simp: divide2_def divide1_def div_ms_def div_vs_def div_sv_def mean0_def std0_def
      dot_mm_def dot_vm_def dot_mv_def la_eigh_def la_solve_def eig_warning_def a_matrix_of_def
      nnr_ops nnr_broadcast intro!: nnr_bnd split: option.splits precision.splits)

lemma nnr_roots:
  "no_nan_root (pow_half (map (\<lambda>x. abs (1 - x)) (clip_upper ev)))"
  "no_nan_root (pow_half (map (\<lambda>x. 1 - x) (clip_upper ev)))"
  by (auto simp: pow_half_def list_ex_iff clip_upper_def nnr_ops)

lemma nnr_rms0: "no_nan_root (rms0 D)"
proof (cases "nrows D = 0")
  case True
  then show ?thesis by (simp add: rms0_def mean0_def nnr_ops)
next
  case False
  then show ?thesis by (simp add: rms0_pos nnr_ops)
qed

text \<open>
  Claim C9. In the square-root and the Woodbury update the eigenvalues of \<open>m\<close> are clipped to
  at most 1 before the root is taken, so for every list of real eigenvalues that \<^verbatim>\<open>eigh\<close>
  may return (negative ones and ones above 1 included) every argument \<open>1 - clipped\<close> of the
  root is non-negative, with or without the \<^verbatim>\<open>abs\<close> of the square-root filter. The
  root of the spread is taken of a mean of squares. Hence no run of either update, whatever
  its inputs and whatever the library returns, ends with the \<open>nan\<close> of a root of a negative
  number.
\<close>

theorem square_root_argument_nonnegative:
  "list_all (\<lambda>y. 0 \<le> y) (map (\<lambda>x. 1 - x) (clip_upper eigval_m)) \<and>
   list_all (\<lambda>y. 0 \<le> y) (map (\<lambda>x. abs (1 - x)) (clip_upper eigval_m)) \<and>
   snd (esrf_analysis_update L F z_forecast x_observed time_index)
     \<noteq> Inl (FloatingPointError NegativePower) \<and>
   snd (woodbury_analysis_update L G z_forecast x_observed time_index)
     \<noteq> Inl (FloatingPointError NegativePower)"
proof -
  have "no_nan_root (esrf_analysis_update L F z_forecast x_observed time_index)"
    unfolding esrf_analysis_update_def Let_def
    by (intro nnr_bnd nnr_ops nnr_broadcast nnr_numpy nnr_roots nnr_rms0
        | simp only: split_beta)+
  moreover have "no_nan_root (woodbury_analysis_update L G z_forecast x_observed time_index)"
    unfolding woodbury_analysis_update_def Let_def
    by (intro nnr_bnd nnr_ops nnr_broadcast nnr_numpy nnr_roots nnr_rms0
        | simp only: split_beta)+
  ultimately show ?thesis
    by (simp add: no_nan_root_def list_all_iff clip_upper_def)
qed

section \<open>The updates return\<close>

text \<open>Under consistent shapes, and where no division by zero arises, each update returns the
  arrays of the section on the quantities of the updates; the square-root filters warn
  exactly when an eigenvalue of \<open>m\<close> is above 1.\<close>

lemma wb_a_shape [simp]:
  "preci_shape (ncols dx) p \<Longrightarrow> nrows (wb_a_matrix p dx) = ncols dx"
  "ncols (wb_a_matrix p dx) = nrows dx"
  by (auto simp: wb_a_matrix_def preci_shape_def split: precision.splits)

lemma a_matrix_of_shape:
  "preci_shape (ncols dx) p \<Longrightarrow> a_matrix_of p dx = ret (wb_a_matrix p dx)"
  by (auto simp: a_matrix_of_def wb_a_matrix_def preci_shape_def obser_noise_preci_is_dense_def
      dot_simps broadcast2_row_l split: precision.splits)

lemma wb_shapes [simp]:
  "nrows (wb_c_matrix F z t) = nrows (wb_observation_func F z t)"
  "ncols (wb_c_matrix F z t) = nrows (wb_observation_func F z t)"
  "nrows (wb_d_matrix F z t) = nrows z"
  "ncols (wb_d_matrix F z t) = nrows z"
  "nrows (wb_m_matrix L F z t) = nrows (wb_observation_func F z t)"
  "ncols (wb_m_matrix L F z t) = nrows (wb_observation_func F z t)"
  by (simp_all add: wb_c_matrix_def wb_d_matrix_def wb_m_matrix_def Let_def)

lemma div_by_nonzero:
  "k \<noteq> 0 \<Longrightarrow> div_vs v k = ret (map (\<lambda>a. a / k) v)"
  "k \<noteq> 0 \<Longrightarrow> div_ms A k = ret (map_m (\<lambda>a. a / k) A)"
  by (simp_all add: div_vs_def div_ms_def)

lemma woodbury_returns:
  assumes N: "1 < nrows z"
    and X: "nrows (wb_observation_func F z t) = nrows z"
           "ncols (wb_observation_func F z t) = dx"
    and P: "preci_shape dx (wb_obser_noise_preci F)"
    and E: "solve L (wb_d_matrix F z t) (wb_c_matrix F z t) = Some e"
           "nrows e = nrows z" "ncols e = nrows z"
    and M: "eig_shape (nrows z) (eigh L (wb_m_matrix L F z t))"
    and x: "length x = dx"
  shows "woodbury_analysis_update L F z x t =
     (let wm = fst (eigh L (wb_m_matrix L F z t)) in
      (if wb_warn F \<and> (\<exists>w\<in>set wm. w > 1) then [EigenvalueWarning (Max (set wm))] else [],
       Inr (zip_row (\<lambda>a b. b + a) (wb_deviations L F z t) (wb_mean L F z x t),
            wb_mean L F z x t,
            rms_cols (wb_deviations L F z t))))"
proof -
  have e: "wb_e_matrix L F z t = e"
    by (simp add: wb_e_matrix_def E)
  show ?thesis
    using assms
    apply (simp add: woodbury_analysis_update_def Let_def mean0_pos broadcast2_row_r
        broadcast2_row_l broadcast2_same broadcast1_same dot_simps la_eigh_def la_solve_def
        center_def[symmetric] a_matrix_of_shape
        wb_c_matrix_def[symmetric, unfolded Let_def]
        wb_d_matrix_def[symmetric]
        div_by_nonzero)
    apply (simp add: wb_m_matrix_def[of L F z t, unfolded e, symmetric] split_beta eig_shape_def
        broadcast2_row_r broadcast2_row_l dot_simps eig_warning_def rms0_pos list_ex_iff)
    apply (simp add: ret_def wb_deviations_def wb_mean_def root_matrix_def rms_cols_def e
        Let_def)
    done
qed

lemma enkf_analysis_shape [simp]:
  "nrows (enkf_analysis L F rng z x t) = nrows z" "ncols (enkf_analysis L F rng z x t) = ncols z"
  by (simp_all add: enkf_analysis_def Let_def)

lemma std0_pos: "0 < nrows A \<Longrightarrow> std0 A = ret (std_cols A)"
  by (simp add: std0_def)

lemma enkf_returns:
  assumes N: "0 < nrows z"
    and X: "nrows (fst (observation_sampler F rng z t)) = nrows z"
           "ncols (fst (observation_sampler F rng z t)) = length x"
    and P: "nrows (pinv L (center (fst (observation_sampler F rng z t)))) = length x"
           "ncols (pinv L (center (fst (observation_sampler F rng z t)))) = nrows z"
  shows "enkf_analysis_update L F rng z x t =
     ([], Inr ((enkf_analysis L F rng z x t, mean_cols (enkf_analysis L F rng z x t),
                std_cols (enkf_analysis L F rng z x t)),
               snd (observation_sampler F rng z t)))"
  using assms
  apply (simp add: enkf_analysis_update_def split_beta mean0_pos broadcast2_row_r
      broadcast2_row_l broadcast2_same dot_simps center_def[symmetric]
      enkf_analysis_def[symmetric, unfolded Let_def] std0_pos)
  apply (simp add: ret_def)
  done

lemma le_shapes [simp]:
  "length (le_eff w sd) = length w"
  "nrows (le_scaled xf w sd) = nrows xf" "ncols (le_scaled xf w sd) = ncols xf"
  "length (le_eigval_p_inv L F n xf w sd) = n"
  by (simp_all add: le_eff_def le_scaled_def le_eigval_p_inv_def Let_def)

lemma iadd_prefix_same:
  assumes "length s = min k (length e)"
  shows "iadd_prefix e k s =
     ret (vec_of (length e) (\<lambda>i. e ! i + (if i < min k (length e) then s ! i else 0)))"
  using assms unfolding iadd_prefix_def Let_def
  by (auto intro!: arg_cong[where f=ret] vec_of_cong)

lemma div_sv_nonzero: "\<forall>a\<in>set v. a \<noteq> 0 \<Longrightarrow> div_sv k v = ret (map (\<lambda>a. k / a) v)"
  by (auto simp: div_sv_def list_ex_iff)

lemma le_eff_nonneg:
  assumes "length w = length sd" "\<forall>a\<in>set w. 0 \<le> a"
  shows "\<forall>a\<in>set (le_eff w sd). 0 \<le> a"
  using assms by (auto simp: le_eff_def zip_v_def vec_of_def)

lemma le_eigval_p_inv_pos:
  assumes "1 < n" "0 < inflation_factor F"
  shows "\<forall>a\<in>set (le_eigval_p_inv L F n xf w sd). 0 < a"
proof -
  have "0 < (real n - 1) / inflation_factor F"
    using assms by simp
  then show ?thesis
    by (auto simp: le_eigval_p_inv_def Let_def vec_of_def intro: add_pos_nonneg)
qed

lemma local_update_returns:
  assumes N: "1 < nrows z"
    and X: "nrows xf = nrows z" "ncols xf = dx"
    and x: "length x = dx" "length sd = dx" "length w = dx"
    and sd: "\<forall>s\<in>set sd. s \<noteq> 0"
    and w: "\<forall>a\<in>set w. 0 \<le> a"
    and infl: "0 < inflation_factor F"
    and S: "svd_shape (le_scaled xf w sd) (svd L (le_scaled xf w sd))"
  shows "local_analysis_update L F z xf x sd w = ([], Inr (le_analysis L F z xf x sd w))"
proof -
  have eff: "\<forall>a\<in>set (le_eff w sd). 0 \<le> a"
    using x w by (intro le_eff_nonneg) simp_all
  have sd2: "\<not> list_ex (\<lambda>x. x = 0) (map (\<lambda>s. s\<^sup>2) sd)"
    using sd by (auto simp: list_ex_iff)
  have e0: "map (\<lambda>x. x * (real (nrows z) - 1) / inflation_factor F) (replicate (nrows z) 1)
      = replicate (nrows z) ((real (nrows z) - 1) / inflation_factor F)"
    by simp
  have inv: "vec_of (nrows z) (\<lambda>i. replicate (nrows z) ((real (nrows z) - 1) / inflation_factor F) ! i +
       (if i < dx \<and> i < nrows z then map power2 (fst (snd (svd L (le_scaled xf w sd)))) ! i else 0))
     = le_eigval_p_inv L F (nrows z) xf w sd"
    using S X unfolding le_eigval_p_inv_def Let_def svd_shape_def
    by (auto intro!: vec_of_cong simp: min.commute)
  have pos: "\<forall>a\<in>set (le_eigval_p_inv L F (nrows z) xf w sd). 0 < a"
    using N infl by (rule le_eigval_p_inv_pos)
  then have nz: "\<forall>a\<in>set (le_eigval_p_inv L F (nrows z) xf w sd). a \<noteq> 0"
    by auto
  have pos': "\<forall>a\<in>set (map (\<lambda>a. 1 / a) (le_eigval_p_inv L F (nrows z) xf w sd)). 0 \<le> a"
    using pos by auto
  show ?thesis
    using assms S
    apply (simp add: local_analysis_update_def Let_def mean0_pos broadcast2_row_r
        broadcast2_row_l center_def[symmetric] divide1_same sd2 le_eff_def[symmetric]
        pow_half_nonneg[OF eff] le_scaled_def[symmetric] split_beta div_by_nonzero
        e0 comp_def iadd_prefix_same svd_shape_def min.commute inv)
    apply (simp add: div_sv_nonzero[OF nz] pow_half_nonneg[OF pos'] broadcast2_row_r
        broadcast2_row_l broadcast1_same dot_simps le_eff_def[symmetric])
    apply (simp add: ret_def le_analysis_def le_w_matrix_def Let_def)
    done
qed

lemma el_Mat [simp]: "el (Mat r c rs) i j = rs ! i ! j"
  by (simp add: el_def)

lemma sum_lessThan_2: "(\<Sum>i<(2::nat). f i) = f 0 + (f 1 :: real)"
  by (simp add: numeral_2_eq_2)

lemma z0_facts [simp]: "nrows z0 = 2" "ncols z0 = 1" "mean_cols z0 = [0]"
  "center z0 = z0" "wf_mat z0"
  by (simp_all add: z0_def mean_cols_def center_def zip_row_def vec_of_def mat_of_def
      sum_lessThan_2 wf_mat_def numeral_2_eq_2)

lemma esrf0_facts [simp]: "sr_observation_func esrf0 = obs0" "sr_warn esrf0"
  "sr_obser_noise_covar esrf0 = Mat 1 1 [[1]]"
  by (simp_all add: esrf0_def esrf_init_def J0_def mmul_def tp_def mat_of_def)

lemma esrf0_c_matrix: "esrf_c_matrix esrf0 z0 0 = Mat 1 1 [[3]]"
  by (simp add: esrf_c_matrix_def obs0_def zip_m_def mmul_def tp_def smul_def mat_of_def
      sum_lessThan_2) (simp add: z0_def)

lemma esrf0_eigh: "eigh L0 (esrf_c_matrix esrf0 z0 0) = ([3], eye 1)"
  by (simp add: esrf0_c_matrix L0_def eigh0_def)

lemma esrf0_hyps:
  "nrows (sr_observation_func esrf0 z0 0) = nrows z0"
  "ncols (sr_observation_func esrf0 z0 0) = 1"
  "nrows (sr_obser_noise_covar esrf0) = 1" "ncols (sr_obser_noise_covar esrf0) = 1"
  "eig_shape 1 (eigh L0 (esrf_c_matrix esrf0 z0 0))"
  "\<forall>w\<in>set (fst (eigh L0 (esrf_c_matrix esrf0 z0 0))). w \<noteq> 0"
  "eig_shape (nrows z0) (eigh L0 (esrf_m_matrix L0 esrf0 z0 0))"
  "length x0 = 1"
  by (simp_all add: esrf0_eigh eig_shape_def x0_def)
    (simp_all add: L0_def eigh0_def smul_def obs0_def)

section \<open>Example filters\<close>

lemma sum_sq_diff:
  fixes f :: "nat \<Rightarrow> real"
  shows "(\<Sum>i<n. (f i - c)\<^sup>2) = (\<Sum>i<n. (f i)\<^sup>2) - 2 * c * (\<Sum>i<n. f i) + real n * c\<^sup>2"
proof -
  have "(\<Sum>i<n. (f i - c)\<^sup>2) = (\<Sum>i<n. (f i)\<^sup>2 - 2 * c * f i + c\<^sup>2)"
    by (intro sum.cong refl) (simp add: power2_diff algebra_simps)
  also have "\<dots> = (\<Sum>i<n. (f i)\<^sup>2) - 2 * c * (\<Sum>i<n. f i) + real n * c\<^sup>2"
    by (simp add: sum.distrib sum_subtractf sum_distrib_left)
  finally show ?thesis .
qed

lemma std_shift_rms_nth:
  assumes N: "0 < nrows D" and j: "j < ncols D"
  shows "std_cols (zip_row (\<lambda>a b. b + a) D m) ! j = rms_cols D ! j
         \<longleftrightarrow> (\<Sum>i<nrows D. el D i j) = 0"
proof -
  define n where "n = nrows D"
  define S where "S = (\<Sum>i<n. el D i j)"
  define Q where "Q = (\<Sum>i<n. (el D i j)\<^sup>2)"
  have n: "0 < real n" using N by (simp add: n_def)
  have mean: "mean_cols (zip_row (\<lambda>a b. b + a) D m) ! j = m ! j + S / real n"
    using j n by (simp add: mean_cols_def zip_row_def sum.distrib S_def n_def add_divide_distrib)
  have "std_cols (zip_row (\<lambda>a b. b + a) D m) ! j
      = sqrt ((\<Sum>i<n. (el D i j - S / real n)\<^sup>2) / real n)"
    using j by (simp add: std_cols_def mean n_def[symmetric]) (simp add: zip_row_def n_def)
  also have "(\<Sum>i<n. (el D i j - S / real n)\<^sup>2) = Q - S\<^sup>2 / real n"
  proof -
    have "(\<Sum>i<n. (el D i j - S / real n)\<^sup>2)
        = Q - 2 * (S / real n) * S + real n * (S / real n)\<^sup>2"
      unfolding sum_sq_diff S_def Q_def ..
    also have "\<dots> = Q - S\<^sup>2 / real n"
      using n by (simp add: power2_eq_square field_simps)
    finally show ?thesis .
  qed
  finally have std: "std_cols (zip_row (\<lambda>a b. b + a) D m) ! j
      = sqrt ((Q - S\<^sup>2 / real n) / real n)" .
  have rms: "rms_cols D ! j = sqrt (Q / real n)"
    using j by (simp add: rms_cols_def mean_cols_def map_m_def Q_def n_def)
  have "(Q - S\<^sup>2 / real n) / real n = Q / real n \<longleftrightarrow> S = 0"
    using n by (simp add: field_simps)
  then show ?thesis
    by (simp add: std rms S_def n_def)
qed

lemma std_shift_rms:
  assumes N: "0 < nrows D"
  shows "std_cols (zip_row (\<lambda>a b. b + a) D m) = rms_cols D
         \<longleftrightarrow> (\<forall>j<ncols D. (\<Sum>i<nrows D. el D i j) = 0)"
proof -
  have len: "length (std_cols (zip_row (\<lambda>a b. b + a) D m)) = ncols D"
    "length (rms_cols D) = ncols D"
    by (simp_all add: rms_cols_def)
  show ?thesis
    using std_shift_rms_nth[OF N] len by (auto simp: list_eq_iff_nth_eq)
qed

lemma rms_cols_eq:
  "rms_cols D = vec_of (ncols D) (\<lambda>j. sqrt ((\<Sum>i<nrows D. (el D i j)\<^sup>2) / real (nrows D)))"
  by (auto simp: rms_cols_def mean_cols_def map_m_def vec_of_def)

lemma esrf_returns':
  assumes "esrf_consistent L F z x t"
    and "\<forall>w\<in>set (fst (eigh L (esrf_c_matrix F z t))). w \<noteq> 0"
  shows "esrf_analysis_update L F z x t =
     (let wm = fst (eigh L (esrf_m_matrix L F z t)) in
      (if sr_warn F \<and> (\<exists>w\<in>set wm. w > 1) then [EigenvalueWarning (Max (set wm))] else [],
       Inr (zip_row (\<lambda>a b. b + a) (esrf_deviations L F z t) (esrf_mean L F z x t),
            esrf_mean L F z x t,
            rms_cols (esrf_deviations L F z t))))"
  using assms by (intro esrf_returns[where dx = "length x"])
    (simp_all add: esrf_consistent_def Let_def)

lemma woodbury_returns':
  assumes "woodbury_consistent L F z x t"
    and "solve_shape L (wb_d_matrix F z t) (wb_c_matrix F z t)"
  shows "woodbury_analysis_update L F z x t =
     (let wm = fst (eigh L (wb_m_matrix L F z t)) in
      (if wb_warn F \<and> (\<exists>w\<in>set wm. w > 1) then [EigenvalueWarning (Max (set wm))] else [],
       Inr (zip_row (\<lambda>a b. b + a) (wb_deviations L F z t) (wb_mean L F z x t),
            wb_mean L F z x t,
            rms_cols (wb_deviations L F z t))))"
proof -
  from assms(2) obtain e where e: "solve L (wb_d_matrix F z t) (wb_c_matrix F z t) = Some e"
    "nrows e = nrows z" "ncols e = nrows (wb_observation_func F z t)"
    by (auto simp: solve_shape_def split: option.splits)
  show ?thesis
    using assms(1) e
    by (intro woodbury_returns[where dx = "length x" and e = e])
      (simp_all add: woodbury_consistent_def Let_def)
qed

lemma local_update_returns':
  assumes "letkf_consistent L F z xf x sd w"
  shows "local_analysis_update L F z xf x sd w = ([], Inr (le_analysis L F z xf x sd w))"
  using assms by (intro local_update_returns[where dx = "length x"])
    (simp_all add: letkf_consistent_def list_all_iff)

lemma enkf_returns':
  assumes "enkf_consistent L F rng z x t"
  shows "enkf_analysis_update L F rng z x t =
     ([], Inr ((enkf_analysis L F rng z x t, mean_cols (enkf_analysis L F rng z x t),
                std_cols (enkf_analysis L F rng z x t)),
               snd (observation_sampler F rng z t)))"
  using assms by (intro enkf_returns) (simp_all add: enkf_consistent_def Let_def)

lemma deviations_shape:
  "esrf_consistent L F z x t \<Longrightarrow> nrows (esrf_deviations L F z t) = nrows z"
  "ncols (esrf_deviations L F z t) = ncols z"
  "woodbury_consistent L G z x t \<Longrightarrow> nrows (wb_deviations L G z t) = nrows z"
  "ncols (wb_deviations L G z t) = ncols z"
  by (simp_all add: esrf_deviations_def wb_deviations_def root_matrix_def esrf_consistent_def
      woodbury_consistent_def eig_shape_def Let_def)

lemma le_analysis_shape:
  "letkf_consistent L F z xf x sd w \<Longrightarrow> nrows (le_analysis L F z xf x sd w) = nrows z"
  "ncols (le_analysis L F z xf x sd w) = ncols z"
  by (simp_all add: le_analysis_def le_w_matrix_def letkf_consistent_def svd_shape_def Let_def)

text \<open>
  Claim C5. The spread returned by the square-root update is, for each state dimension, the
  root of the mean over the particles of the squared analysis deviations \<open>dZ_a\<close>. It equals
  the column-wise standard deviation of the returned ensemble \<open>Z_a\<close> exactly when every column
  of \<open>dZ_a\<close> sums to zero, and differs from it otherwise.
\<close>

theorem esrf_spread_is_rms:
  assumes "esrf_consistent L F z x t"
    and "\<forall>w\<in>set (fst (eigh L (esrf_c_matrix F z t))). w \<noteq> 0"
  shows "\<exists>ws z_analysis z_mean_analysis spread.
     esrf_analysis_update L F z x t = (ws, Inr (z_analysis, z_mean_analysis, spread)) \<and>
     z_analysis = zip_row (\<lambda>a b. b + a) (esrf_deviations L F z t) z_mean_analysis \<and>
     spread = vec_of (ncols z) (\<lambda>j.
        sqrt ((\<Sum>i<nrows z. (el (esrf_deviations L F z t) i j)\<^sup>2) / real (nrows z))) \<and>
     (spread = std_cols z_analysis \<longleftrightarrow>
        (\<forall>j<ncols z. (\<Sum>i<nrows z. el (esrf_deviations L F z t) i j) = 0))"
proof -
  have N: "0 < nrows (esrf_deviations L F z t)"
    using assms(1) by (simp add: deviations_shape(1)[OF assms(1)] esrf_consistent_def Let_def)
  show ?thesis
    unfolding esrf_returns'[OF assms] Let_def
    using std_shift_rms[OF N, of "esrf_mean L F z x t"]
    by (auto simp: rms_cols_eq deviations_shape(1)[OF assms(1)] deviations_shape(2))
qed

lemma esrf0_consistent: "esrf_consistent L0 esrf0 z0 x0 0"
  using esrf0_hyps by (simp add: esrf_consistent_def x0_def)

theorem esrf_spread_is_rms_witness:
  "esrf_consistent L0 esrf0 z0 x0 0 \<and>
   fst (eigh L0 (esrf_c_matrix esrf0 z0 0)) = [3] \<and>
   (\<exists>ws z_analysis z_mean_analysis spread.
     esrf_analysis_update L0 esrf0 z0 x0 0 = (ws, Inr (z_analysis, z_mean_analysis, spread)) \<and>
     z_analysis = zip_row (\<lambda>a b. b + a) (esrf_deviations L0 esrf0 z0 0) z_mean_analysis \<and>
     spread = vec_of (ncols z0) (\<lambda>j.
        sqrt ((\<Sum>i<nrows z0. (el (esrf_deviations L0 esrf0 z0 0) i j)\<^sup>2) / real (nrows z0))) \<and>
     (spread = std_cols z_analysis \<longleftrightarrow>
        (\<forall>j<ncols z0. (\<Sum>i<nrows z0. el (esrf_deviations L0 esrf0 z0 0) i j) = 0)))"
proof -
  have nz: "\<forall>w\<in>set (fst (eigh L0 (esrf_c_matrix esrf0 z0 0))). w \<noteq> 0"
    by (simp add: esrf0_eigh)
  have ev: "fst (eigh L0 (esrf_c_matrix esrf0 z0 0)) = [3]"
    by (simp add: esrf0_eigh)
  show ?thesis
    using esrf0_consistent ev esrf_spread_is_rms [OF esrf0_consistent nz]
    by - (rule conjI | assumption)+
qed

text \<open>
  Claim C2. The perturbed-observation update draws \<open>X_f\<close> from the observation sampler,
  centers \<open>Z_f\<close> and \<open>X_f\<close>, forms the innovations \<open>x - X_f\<close> and returns the ensemble
  \<open>Z_a = Z_f + (dX_err . pinv dX) . dZ\<close> together with the column means and the column
  standard deviations of that same \<open>Z_a\<close>.
\<close>

theorem enkf_update_formula:
  assumes "enkf_consistent L F rng z_f x t"
  shows "let (X_f, rng') = observation_sampler F rng z_f t;
             dZ = center z_f;
             dX = center X_f;
             dX_err = zip_row (\<lambda>a b. b - a) X_f x;
             Z_a = zip_m (+) z_f (mmul (mmul dX_err (pinv L dX)) dZ)
         in enkf_analysis_update L F rng z_f x t
              = ([], Inr ((Z_a, mean_cols Z_a, std_cols Z_a), rng'))"
  using enkf_returns'[OF assms]
  by (simp add: enkf_analysis_def Let_def split_beta)

lemma enkf0_consistent: "enkf_consistent L0 enkf0 () z0 x0 0"
  by (simp add: enkf_consistent_def enkf0_def obs0_def x0_def L0_def pinv0_def Let_def)

theorem enkf_update_formula_witness:
  "enkf_consistent L0 enkf0 () z0 x0 0 \<and>
   (let (X_f, rng') = observation_sampler enkf0 () z0 0;
        dZ = center z0;
        dX = center X_f;
        dX_err = zip_row (\<lambda>a b. b - a) X_f x0;
        Z_a = zip_m (+) z0 (mmul (mmul dX_err (pinv L0 dX)) dZ)
    in enkf_analysis_update L0 enkf0 () z0 x0 0
         = ([], Inr ((Z_a, mean_cols Z_a, std_cols Z_a), rng')))"
  using enkf0_consistent enkf_update_formula [OF enkf0_consistent]
  by - (rule conjI | assumption)+

text \<open>
  Claim C8. For each of the four strategies, a call with consistent shapes returns an analysis
  ensemble of the shape \<open>(N, D_z)\<close> of the forecast ensemble.
\<close>

theorem analysis_shape:
  "(enkf_consistent L Fk rng z x t \<longrightarrow>
      (\<exists>z_a m s rng'. enkf_analysis_update L Fk rng z x t = ([], Inr ((z_a, m, s), rng')) \<and>
         shaped (nrows z) (ncols z) z_a)) \<and>
   (esrf_consistent L Fs z x t \<and> list_all (\<lambda>w. w \<noteq> 0) (fst (eigh L (esrf_c_matrix Fs z t))) \<longrightarrow>
      (\<exists>ws z_a m s. esrf_analysis_update L Fs z x t = (ws, Inr (z_a, m, s)) \<and>
         shaped (nrows z) (ncols z) z_a)) \<and>
   (woodbury_consistent L Fw z x t \<and> solve_shape L (wb_d_matrix Fw z t) (wb_c_matrix Fw z t) \<longrightarrow>
      (\<exists>ws z_a m s. woodbury_analysis_update L Fw z x t = (ws, Inr (z_a, m, s)) \<and>
         shaped (nrows z) (ncols z) z_a)) \<and>
   (letkf_consistent L Fl z xf x sd w \<longrightarrow>
      (\<exists>z_a. local_analysis_update L Fl z xf x sd w = ([], Inr z_a) \<and>
         shaped (nrows z) (ncols z) z_a))"
proof (intro conjI impI)
  assume "enkf_consistent L Fk rng z x t"
  then show "\<exists>z_a m s rng'. enkf_analysis_update L Fk rng z x t = ([], Inr ((z_a, m, s), rng'))
      \<and> shaped (nrows z) (ncols z) z_a"
    by (simp add: enkf_returns' shaped_def enkf_analysis_def Let_def)
next
  assume a: "esrf_consistent L Fs z x t \<and>
    list_all (\<lambda>w. w \<noteq> 0) (fst (eigh L (esrf_c_matrix Fs z t)))"
  then have "\<forall>w\<in>set (fst (eigh L (esrf_c_matrix Fs z t))). w \<noteq> 0"
    by (simp add: list_all_iff)
  with a show "\<exists>ws z_a m s. esrf_analysis_update L Fs z x t = (ws, Inr (z_a, m, s)) \<and>
      shaped (nrows z) (ncols z) z_a"
    using deviations_shape(1)[of L Fs z x t]
    by (simp add: esrf_returns' Let_def shaped_def deviations_shape(2))
next
  assume "woodbury_consistent L Fw z x t \<and>
    solve_shape L (wb_d_matrix Fw z t) (wb_c_matrix Fw z t)"
  then show "\<exists>ws z_a m s. woodbury_analysis_update L Fw z x t = (ws, Inr (z_a, m, s)) \<and>
      shaped (nrows z) (ncols z) z_a"
    using deviations_shape(3)[of L Fw z x t]
    by (simp add: woodbury_returns' Let_def shaped_def deviations_shape(4))
next
  assume "letkf_consistent L Fl z xf x sd w"
  then show "\<exists>z_a. local_analysis_update L Fl z xf x sd w = ([], Inr z_a) \<and>
      shaped (nrows z) (ncols z) z_a"
    by (simp add: local_update_returns' shaped_def le_analysis_shape)
      (simp add: le_analysis_def)
qed

lemma wb0_facts [simp]: "wb_observation_func wb0 = obs0" "wb_warn wb0"
  "wb_obser_noise_preci wb0 = Scalar 1"
  by (simp_all add: wb0_def)

lemma obs0_simp [simp]: "obs0 z t = z"
  by (simp add: obs0_def)

lemma wb0_c_matrix: "wb_c_matrix wb0 z0 0 = Mat 2 2 [[1, -1], [-1, 1]]"
  by (simp add: wb_c_matrix_def wb_a_matrix_def mmul_def tp_def smul_def mat_of_def
      numeral_2_eq_2) (simp add: z0_def)

lemma wb0_d_matrix: "wb_d_matrix wb0 z0 0 = Mat 2 2 [[2, -1], [-1, 2]]"
  by (simp add: wb_d_matrix_def wb0_c_matrix zip_m_def smul_def eye_def mat_of_def
      numeral_2_eq_2)

lemma wb0_solve: "solve_shape L (wb_d_matrix wb0 z0 0) (wb_c_matrix wb0 z0 0)"
  if "solve L = solve0" for L
  by (simp add: solve_shape_def that solve0_def wb0_d_matrix)

lemma wb0_consistent: "woodbury_consistent L wb0 z0 x0 0"
  if "eig_shape 2 (eigh L (wb_m_matrix L wb0 z0 0))" for L
  using that by (simp add: woodbury_consistent_def x0_def preci_shape_def)

lemma L0_facts [simp]: "eigh L0 = eigh0" "solve L0 = solve0" "svd L0 = svd0" "pinv L0 = pinv0"
  by (simp_all add: L0_def)

lemma wb0_L0_consistent: "woodbury_consistent L0 wb0 z0 x0 0"
  by (rule wb0_consistent) (simp add: eig_shape_def eigh0_def smul_def)

lemma letkf0_consistent: "letkf_consistent L0 letkf0 z0 (obs0 z0 0) x0 [1] [0]"
  by (simp add: letkf_consistent_def x0_def letkf0_def svd_shape_def svd0_def)

theorem analysis_shape_witness:
  "enkf_consistent L0 enkf0 () z0 x0 0 \<and>
   (\<exists>z_a m s rng'. enkf_analysis_update L0 enkf0 () z0 x0 0 = ([], Inr ((z_a, m, s), rng')) \<and>
      shaped (nrows z0) (ncols z0) z_a) \<and>
   esrf_consistent L0 esrf0 z0 x0 0 \<and>
   list_all (\<lambda>w. w \<noteq> 0) (fst (eigh L0 (esrf_c_matrix esrf0 z0 0))) \<and>
   (\<exists>ws z_a m s. esrf_analysis_update L0 esrf0 z0 x0 0 = (ws, Inr (z_a, m, s)) \<and>
      shaped (nrows z0) (ncols z0) z_a) \<and>
   woodbury_consistent L0 wb0 z0 x0 0 \<and>
   solve_shape L0 (wb_d_matrix wb0 z0 0) (wb_c_matrix wb0 z0 0) \<and>
   (\<exists>ws z_a m s. woodbury_analysis_update L0 wb0 z0 x0 0 = (ws, Inr (z_a, m, s)) \<and>
      shaped (nrows z0) (ncols z0) z_a) \<and>
   letkf_consistent L0 letkf0 z0 (obs0 z0 0) x0 [1] [0] \<and>
   (\<exists>z_a. local_analysis_update L0 letkf0 z0 (obs0 z0 0) x0 [1] [0] = ([], Inr z_a) \<and>
      shaped (nrows z0) (ncols z0) z_a)"
proof -
  have nz: "list_all (\<lambda>w. w \<noteq> 0) (fst (eigh L0 (esrf_c_matrix esrf0 z0 0)))"
    by (simp add: esrf0_eigh del: L0_facts)
  have sv: "solve_shape L0 (wb_d_matrix wb0 z0 0) (wb_c_matrix wb0 z0 0)"
    by (rule wb0_solve) simp
  show ?thesis
    using analysis_shape [of L0 enkf0 "()" z0 x0 0 esrf0 wb0 letkf0 "obs0 z0 0" "[1]" "[0]"]
      enkf0_consistent esrf0_consistent nz wb0_L0_consistent sv letkf0_consistent
    by blast
qed

section \<open>The eigenvalue warning\<close>

lemma snd_bnd_cong:
  assumes "snd m = snd m'" "\<And>y. snd m = Inr y \<Longrightarrow> snd (f y) = snd (g y)"
  shows "snd (bnd m f) = snd (bnd m' g)"
  using assms by (cases m; cases m') (auto simp: bnd_def split: sum.splits prod.splits)

lemma snd_eig_warning [simp]: "snd (eig_warning b ev) = Inr ()"
  by (simp add: eig_warning_def warnings_warn_def)

lemma esrf_warn_irrelevant:
  "snd (esrf_analysis_update L (F\<lparr>sr_warn := True\<rparr>) z x t) =
   snd (esrf_analysis_update L (F\<lparr>sr_warn := False\<rparr>) z x t)"
  unfolding esrf_analysis_update_def Let_def
  by (simp add: split_def) (intro snd_bnd_cong refl, simp)

lemma woodbury_warn_irrelevant:
  "snd (woodbury_analysis_update L (F\<lparr>wb_warn := True\<rparr>) z x t) =
   snd (woodbury_analysis_update L (F\<lparr>wb_warn := False\<rparr>) z x t)"
  unfolding woodbury_analysis_update_def Let_def
  by (simp add: split_def) (intro snd_bnd_cong refl, simp)

lemma root_matrix_clip:
  "root_matrix g (clip_upper w, V) = root_matrix (\<lambda>x. g (min x 1)) (w, V)"
  by (simp add: root_matrix_def clip_upper_def comp_def)

lemma clip_upper_le: "list_all (\<lambda>e. e \<le> 1) (clip_upper w)"
  by (simp add: clip_upper_def list_all_iff)


text \<open>
  Claim C3 (amended). With \<open>warn = True\<close>, a call of the square-root or of the Woodbury update
  that gets to the eigenvalues of \<open>m\<close> emits one warning, carrying the largest eigenvalue, if
  some eigenvalue is strictly greater than 1 (the comparison has no tolerance), and no warning
  otherwise. In both cases the call returns, and what it returns is computed from the
  eigenvalues clipped to at most 1: the analysis deviations are \<open>V f(clip w) V\<^sup>T dz\<close> for the
  eigenvalues \<open>w\<close> and eigenvectors \<open>V\<close> that \<^verbatim>\<open>eigh\<close> returned for \<open>m\<close>. The outcome is
  the outcome of the same call with \<open>warn = False\<close>.
\<close>

theorem eigenvalue_warning:
  "(esrf_consistent L Fs z x t \<and> list_all (\<lambda>w. w \<noteq> 0) (fst (eigh L (esrf_c_matrix Fs z t)))
      \<and> sr_warn Fs \<longrightarrow>
      (let eigval_m = fst (eigh L (esrf_m_matrix L Fs z t));
           eigvec_m = snd (eigh L (esrf_m_matrix L Fs z t));
           clipped = clip_upper eigval_m;
           dz_analysis = mmul (root_matrix (\<lambda>e. sqrt \<bar>1 - e\<bar>) (clipped, eigvec_m)) (center z);
           z_mean_analysis = esrf_mean L Fs z x t in
       fst (esrf_analysis_update L Fs z x t) =
         (if list_ex (\<lambda>e. 1 < e) eigval_m then [EigenvalueWarning (Max (set eigval_m))] else []) \<and>
       snd (esrf_analysis_update L Fs z x t) =
         Inr (zip_row (\<lambda>a b. b + a) dz_analysis z_mean_analysis, z_mean_analysis,
              rms_cols dz_analysis) \<and>
       list_all (\<lambda>e. e \<le> 1) clipped)) \<and>
   (woodbury_consistent L Fw z x t \<and> solve_shape L (wb_d_matrix Fw z t) (wb_c_matrix Fw z t)
      \<and> wb_warn Fw \<longrightarrow>
      (let eigval_m = fst (eigh L (wb_m_matrix L Fw z t));
           eigvec_m = snd (eigh L (wb_m_matrix L Fw z t));
           clipped = clip_upper eigval_m;
           dz_analysis = mmul (root_matrix (\<lambda>e. sqrt (1 - e)) (clipped, eigvec_m)) (center z);
           z_mean_analysis = wb_mean L Fw z x t in
       fst (woodbury_analysis_update L Fw z x t) =
         (if list_ex (\<lambda>e. 1 < e) eigval_m then [EigenvalueWarning (Max (set eigval_m))] else []) \<and>
       snd (woodbury_analysis_update L Fw z x t) =
         Inr (zip_row (\<lambda>a b. b + a) dz_analysis z_mean_analysis, z_mean_analysis,
              rms_cols dz_analysis) \<and>
       list_all (\<lambda>e. e \<le> 1) clipped)) \<and>
   snd (esrf_analysis_update L (Fs\<lparr>sr_warn := True\<rparr>) z x t) =
     snd (esrf_analysis_update L (Fs\<lparr>sr_warn := False\<rparr>) z x t) \<and>
   snd (woodbury_analysis_update L (Fw\<lparr>wb_warn := True\<rparr>) z x t) =
     snd (woodbury_analysis_update L (Fw\<lparr>wb_warn := False\<rparr>) z x t)"
proof (intro conjI impI)
  assume a: "esrf_consistent L Fs z x t \<and>
    list_all (\<lambda>w. w \<noteq> 0) (fst (eigh L (esrf_c_matrix Fs z t))) \<and> sr_warn Fs"
  then have "\<forall>w\<in>set (fst (eigh L (esrf_c_matrix Fs z t))). w \<noteq> 0"
    by (simp add: list_all_iff)
  with a show "let eigval_m = fst (eigh L (esrf_m_matrix L Fs z t));
           eigvec_m = snd (eigh L (esrf_m_matrix L Fs z t));
           clipped = clip_upper eigval_m;
           dz_analysis = mmul (root_matrix (\<lambda>e. sqrt \<bar>1 - e\<bar>) (clipped, eigvec_m)) (center z);
           z_mean_analysis = esrf_mean L Fs z x t in
       fst (esrf_analysis_update L Fs z x t) =
         (if list_ex (\<lambda>e. 1 < e) eigval_m then [EigenvalueWarning (Max (set eigval_m))] else []) \<and>
       snd (esrf_analysis_update L Fs z x t) =
         Inr (zip_row (\<lambda>a b. b + a) dz_analysis z_mean_analysis, z_mean_analysis,
              rms_cols dz_analysis) \<and>
       list_all (\<lambda>e. e \<le> 1) clipped"
    by (simp add: esrf_returns' Let_def list_ex_iff root_matrix_clip esrf_deviations_def
        clip_upper_le)
next
  assume "woodbury_consistent L Fw z x t \<and>
    solve_shape L (wb_d_matrix Fw z t) (wb_c_matrix Fw z t) \<and> wb_warn Fw"
  then show "let eigval_m = fst (eigh L (wb_m_matrix L Fw z t));
           eigvec_m = snd (eigh L (wb_m_matrix L Fw z t));
           clipped = clip_upper eigval_m;
           dz_analysis = mmul (root_matrix (\<lambda>e. sqrt (1 - e)) (clipped, eigvec_m)) (center z);
           z_mean_analysis = wb_mean L Fw z x t in
       fst (woodbury_analysis_update L Fw z x t) =
         (if list_ex (\<lambda>e. 1 < e) eigval_m then [EigenvalueWarning (Max (set eigval_m))] else []) \<and>
       snd (woodbury_analysis_update L Fw z x t) =
         Inr (zip_row (\<lambda>a b. b + a) dz_analysis z_mean_analysis, z_mean_analysis,
              rms_cols dz_analysis) \<and>
       list_all (\<lambda>e. e \<le> 1) clipped"
    by (simp add: woodbury_returns' Let_def list_ex_iff root_matrix_clip wb_deviations_def
        clip_upper_le)
qed (simp_all add: esrf_warn_irrelevant woodbury_warn_irrelevant)

lemma L_noisy_facts [simp]: "eigh (L_noisy hi) = eigh_noisy hi" "solve (L_noisy hi) = solve0"
  by (simp_all add: L_noisy_def)

lemma noisy_shape: "nrows A = 2 \<Longrightarrow> eig_shape 2 (eigh_noisy hi A)"
  by (simp add: eigh_noisy_def eig_shape_def eigh0_def smul_def)

lemma noisy_eigenvalues [simp]: "nrows A = 2 \<Longrightarrow> fst (eigh_noisy hi A) = [0, hi]"
  by (simp add: eigh_noisy_def)

lemma noisy_esrf_consistent: "esrf_consistent (L_noisy hi) esrf0 z0 x0 0"
  by (simp add: esrf_consistent_def x0_def noisy_shape)
    (simp add: eigh_noisy_def eigh0_def eig_shape_def)

lemma noisy_esrf_nz:
  "list_all (\<lambda>w. w \<noteq> 0) (fst (eigh (L_noisy hi) (esrf_c_matrix esrf0 z0 0)))"
  by (simp add: esrf0_c_matrix eigh_noisy_def eigh0_def)

lemma noisy_c [simp]: "eigh (L_noisy hi) (esrf_c_matrix esrf0 z0 0) = ([3], eye 1)"
  by (simp add: esrf0_c_matrix eigh_noisy_def eigh0_def)

lemma eye_1: "eye 1 = Mat 1 1 [[1]]"
  by (simp add: eye_def mat_of_def)

lemma noisy_esrf_m:
  "esrf_m_matrix (L_noisy hi) esrf0 z0 0 = Mat 2 2 [[1/3, - (1/3)], [- (1/3), 1/3]]"
  unfolding esrf_m_matrix_def Let_def noisy_c eye_1
  by (simp add: zip_row_def mmul_def tp_def mat_of_def numeral_2_eq_2)
    (simp add: z0_def)

lemma noisy_esrf_mean: "esrf_mean (L_noisy hi) esrf0 z0 x0 0 = [2]"
  unfolding esrf_mean_def Let_def noisy_c eye_1
  by (simp add: eig_inverse_def zip_row_def mmul_def tp_def
      mat_of_def vec_of_def numeral_2_eq_2 zip_v_def vmul_def x0_def sum_lessThan_2)
    (simp add: z0_def)

lemma noisy_vectors:
  "snd (eigh_noisy hi (Mat 2 2 [[1/3, - (1/3)], [- (1/3), 1/3]]))
     = smul (sqrt (1/2)) (Mat 2 2 [[1, 1], [1, -1]])"
  by (simp add: eigh_noisy_def eigh0_def)

lemma noisy_esrf_dz:
  "mmul (root_matrix (\<lambda>e. sqrt \<bar>1 - e\<bar>)
      ([0, 1], smul (sqrt (1/2)) (Mat 2 2 [[1, 1], [1, -1]]))) z0
   = Mat 2 1 [[0], [0]]"
  by (simp add: root_matrix_def zip_row_def mmul_def tp_def smul_def mat_of_def
      numeral_2_eq_2 sum_lessThan_2) (simp add: z0_def)


lemma wb0_e_matrix:
  "solve L = solve0 \<Longrightarrow>
   wb_e_matrix L wb0 z0 0 = Mat 2 2 [[1/3, - (1/3)], [- (1/3), 1/3]]"
  by (simp add: wb_e_matrix_def wb0_c_matrix wb0_d_matrix solve0_def mmul_def smul_def
      mat_of_def numeral_2_eq_2)

lemma wb0_m_matrix:
  "solve L = solve0 \<Longrightarrow>
   wb_m_matrix L wb0 z0 0 = Mat 2 2 [[1/3, - (1/3)], [- (1/3), 1/3]]"
  by (simp add: wb_m_matrix_def wb0_e_matrix wb0_c_matrix map_m_def zip_m_def mmul_def
      mat_of_def numeral_2_eq_2 sum_lessThan_2)

lemma wb0_mean: "solve L = solve0 \<Longrightarrow> wb_mean L wb0 z0 x0 0 = [2]"
  by (simp add: wb_mean_def wb0_e_matrix wb_a_matrix_def tp_def smul_def
      mat_of_def vec_of_def numeral_2_eq_2 zip_v_def vmul_def x0_def sum_lessThan_2)
    (simp add: z0_def)

lemma noisy_wb_dz:
  "mmul (root_matrix (\<lambda>e. sqrt (1 - e))
      ([0, 1], smul (sqrt (1/2)) (Mat 2 2 [[1, 1], [1, -1]]))) z0
   = Mat 2 1 [[0], [0]]"
  by (simp add: root_matrix_def zip_row_def mmul_def tp_def smul_def mat_of_def
      numeral_2_eq_2 sum_lessThan_2) (simp add: z0_def)

lemma zero_deviations:
  "zip_row (\<lambda>a b. b + a) (Mat 2 1 [[0], [0]]) [2] = Mat 2 1 [[2], [2]]"
  "rms_cols (Mat 2 1 [[0], [0]]) = [0]"
  by (simp_all add: zip_row_def rms_cols_def mean_cols_def map_m_def mat_of_def vec_of_def
      numeral_2_eq_2)

lemma noisy_results:
  "zip_row (\<lambda>a b. b + a) (mmul (root_matrix (\<lambda>e. sqrt \<bar>1 - e\<bar>)
      ([0, 1], smul (sqrt (1/2)) (Mat 2 2 [[1, 1], [1, -1]]))) z0) [2] = Mat 2 1 [[2], [2]]"
  "rms_cols (mmul (root_matrix (\<lambda>e. sqrt \<bar>1 - e\<bar>)
      ([0, 1], smul (sqrt (1/2)) (Mat 2 2 [[1, 1], [1, -1]]))) z0) = [0]"
  "zip_row (\<lambda>a b. b + a) (mmul (root_matrix (\<lambda>e. sqrt (1 - e))
      ([0, 1], smul (sqrt (1/2)) (Mat 2 2 [[1, 1], [1, -1]]))) z0) [2] = Mat 2 1 [[2], [2]]"
  "rms_cols (mmul (root_matrix (\<lambda>e. sqrt (1 - e))
      ([0, 1], smul (sqrt (1/2)) (Mat 2 2 [[1, 1], [1, -1]]))) z0) = [0]"
  by (simp_all only: noisy_esrf_dz noisy_wb_dz zero_deviations)

theorem eigenvalue_warning_witness:
  "esrf_consistent (L_noisy (3/2)) esrf0 z0 x0 0 \<and>
   list_all (\<lambda>w. w \<noteq> 0) (fst (eigh (L_noisy (3/2)) (esrf_c_matrix esrf0 z0 0))) \<and>
   sr_warn esrf0 \<and>
   fst (eigh (L_noisy (3/2)) (esrf_m_matrix (L_noisy (3/2)) esrf0 z0 0)) = [0, 3/2] \<and>
   clip_upper [0, 3/2] = [0, 1] \<and>
   esrf_analysis_update (L_noisy (3/2)) esrf0 z0 x0 0 =
     ([EigenvalueWarning (3/2)], Inr (Mat 2 1 [[2], [2]], [2], [0])) \<and>
   woodbury_consistent (L_noisy (3/2)) wb0 z0 x0 0 \<and>
   solve_shape (L_noisy (3/2)) (wb_d_matrix wb0 z0 0) (wb_c_matrix wb0 z0 0) \<and>
   wb_warn wb0 \<and>
   fst (eigh (L_noisy (3/2)) (wb_m_matrix (L_noisy (3/2)) wb0 z0 0)) = [0, 3/2] \<and>
   woodbury_analysis_update (L_noisy (3/2)) wb0 z0 x0 0 =
     ([EigenvalueWarning (3/2)], Inr (Mat 2 1 [[2], [2]], [2], [0]))"
proof -
  have wc: "woodbury_consistent (L_noisy (3/2)) wb0 z0 x0 0"
    by (rule wb0_consistent) (simp add: noisy_shape)
  have sv: "solve_shape (L_noisy (3/2)) (wb_d_matrix wb0 z0 0) (wb_c_matrix wb0 z0 0)"
    by (rule wb0_solve) simp
  have cl: "clip_upper [0, 3/2] = [0, 1]"
    by (simp add: clip_upper_def)
  show ?thesis
    using eigenvalue_warning [of "L_noisy (3/2)" esrf0 z0 x0 0 wb0]
      noisy_esrf_consistent [of "3/2"] noisy_esrf_nz [of "3/2"] wc sv
    by (simp add: Let_def noisy_esrf_m noisy_vectors noisy_esrf_mean
        wb0_m_matrix wb0_mean noisy_results cl prod_eq_iff)
qed

text \<open>The claim as stated, with a tolerance: whatever positive tolerance is meant, a library
  answer with an eigenvalue above 1 by half the tolerance makes the Woodbury update warn.\<close>

theorem eigenvalue_warning_counterexample:
  "\<not> (\<exists>tol>0. \<forall>L. woodbury_consistent L wb0 z0 x0 0 \<and>
         solve_shape L (wb_d_matrix wb0 z0 0) (wb_c_matrix wb0 z0 0) \<longrightarrow>
       (fst (woodbury_analysis_update L wb0 z0 x0 0) \<noteq> []) =
       list_ex (\<lambda>e. 1 + tol < e) (fst (eigh L (wb_m_matrix L wb0 z0 0))))"
proof
  assume "\<exists>tol>0. \<forall>L. woodbury_consistent L wb0 z0 x0 0 \<and>
         solve_shape L (wb_d_matrix wb0 z0 0) (wb_c_matrix wb0 z0 0) \<longrightarrow>
       (fst (woodbury_analysis_update L wb0 z0 x0 0) \<noteq> []) =
       list_ex (\<lambda>e. 1 + tol < e) (fst (eigh L (wb_m_matrix L wb0 z0 0)))"
  then obtain tol :: real where tol: "0 < tol"
    and all: "\<And>L. woodbury_consistent L wb0 z0 x0 0 \<Longrightarrow>
         solve_shape L (wb_d_matrix wb0 z0 0) (wb_c_matrix wb0 z0 0) \<Longrightarrow>
       (fst (woodbury_analysis_update L wb0 z0 x0 0) \<noteq> []) =
       list_ex (\<lambda>e. 1 + tol < e) (fst (eigh L (wb_m_matrix L wb0 z0 0)))"
    by blast
  define L where "L = L_noisy (1 + tol / 2)"
  have m: "fst (eigh L (wb_m_matrix L wb0 z0 0)) = [0, 1 + tol / 2]"
    by (simp add: L_def)
  have wc: "woodbury_consistent L wb0 z0 x0 0"
    unfolding L_def by (rule wb0_consistent) (simp add: noisy_shape)
  have sv: "solve_shape L (wb_d_matrix wb0 z0 0) (wb_c_matrix wb0 z0 0)"
    unfolding L_def by (rule wb0_solve) simp
  have "fst (woodbury_analysis_update L wb0 z0 x0 0) \<noteq> []"
    using tol by (simp add: woodbury_returns'[OF wc sv] m Let_def)
  moreover have "\<not> list_ex (\<lambda>e. 1 + tol < e) (fst (eigh L (wb_m_matrix L wb0 z0 0)))"
    using tol by (simp add: m)
  ultimately show False
    using all[OF wc sv] by simp
qed

section \<open>Inconsistent shapes\<close>

lemma broadcast1_length_one:
  assumes "length x = 1"
  shows "broadcast1 f x v = broadcast1 f (replicate (length v) (x ! 0)) v"
proof -
  have "bdim (length x) (length v) = Some (length v)"
    using assms by (simp add: bdim_def)
  then show ?thesis
    using assms unfolding broadcast1_def
    by (auto intro!: arg_cong[where f=ret] vec_of_cong)
qed

lemma broadcast1_mismatch:
  "length u \<noteq> length v \<Longrightarrow> length u \<noteq> 1 \<Longrightarrow> length v \<noteq> 1 \<Longrightarrow>
   broadcast1 f u v = raise ValueError"
  by (simp add: broadcast1_def bdim_def)

lemma dot_mm_mismatch: "ncols A \<noteq> nrows B \<Longrightarrow> dot_mm A B = raise ValueError"
  by (simp add: dot_mm_def)

lemma esrf_length_one:
  assumes "length x = 1"
  shows "esrf_analysis_update L F z x t =
         esrf_analysis_update L F z (replicate (ncols (sr_observation_func F z t)) (x ! 0)) t"
proof -
  have key: "broadcast1 (-) x m =
      broadcast1 (-) (replicate (ncols (sr_observation_func F z t)) (x ! 0)) m"
    if "mean0 (sr_observation_func F z t) = (ws, Inr m)" for ws m
    using broadcast1_length_one[OF assms, of "(-)" m] mean0_length[OF that] by simp
  show ?thesis
    unfolding esrf_analysis_update_def Let_def
    by (auto intro!: bnd_cong simp: key)
qed

lemma woodbury_length_one:
  assumes "length x = 1"
  shows "woodbury_analysis_update L F z x t =
         woodbury_analysis_update L F z (replicate (ncols (wb_observation_func F z t)) (x ! 0)) t"
proof -
  have key: "broadcast1 (-) x m =
      broadcast1 (-) (replicate (ncols (wb_observation_func F z t)) (x ! 0)) m"
    if "mean0 (wb_observation_func F z t) = (ws, Inr m)" for ws m
    using broadcast1_length_one[OF assms, of "(-)" m] mean0_length[OF that] by simp
  show ?thesis
    unfolding woodbury_analysis_update_def Let_def
    by (auto intro!: bnd_cong simp: key)
qed

lemma woodbury_observation_mismatch:
  assumes "0 < nrows z" "0 < nrows (wb_observation_func F z t)"
    and "length x \<noteq> 1" "ncols (wb_observation_func F z t) \<noteq> 1"
    and "length x \<noteq> ncols (wb_observation_func F z t)"
  shows "woodbury_analysis_update L F z x t = ([], Inl ValueError)"
  using assms
  by (simp add: woodbury_analysis_update_def Let_def mean0_pos broadcast2_row_r
      broadcast1_mismatch) (simp add: raise_def)

lemma woodbury_precision_mismatch:
  assumes "0 < nrows z" "0 < nrows (wb_observation_func F z t)"
    and "length x = ncols (wb_observation_func F z t)"
    and "wb_obser_noise_preci F = Dense P" "ncols P \<noteq> ncols (wb_observation_func F z t)"
  shows "woodbury_analysis_update L F z x t = ([], Inl ValueError)"
  using assms
  by (simp add: woodbury_analysis_update_def Let_def mean0_pos broadcast2_row_r
      broadcast1_same a_matrix_of_def obser_noise_preci_is_dense_def dot_mm_mismatch) (simp add: raise_def)

lemma esrf_observation_mismatch:
  assumes N: "0 < nrows z"
    and X: "nrows (sr_observation_func F z t) = nrows z"
           "ncols (sr_observation_func F z t) = dx"
    and R: "nrows (sr_obser_noise_covar F) = dx" "ncols (sr_obser_noise_covar F) = dx"
    and C: "eig_shape dx (eigh L (esrf_c_matrix F z t))"
           "list_all (\<lambda>w. w \<noteq> 0) (fst (eigh L (esrf_c_matrix F z t)))"
    and x: "length x \<noteq> 1" "dx \<noteq> 1" "length x \<noteq> dx"
  shows "esrf_analysis_update L F z x t = ([], Inl ValueError)"
  using assms
  by (simp add: esrf_analysis_update_def Let_def mean0_pos broadcast2_row_r broadcast2_row_l
      broadcast2_same dot_simps la_eigh_def center_def[symmetric]
      esrf_c_matrix_def[symmetric, unfolded Let_def]
      split_beta eig_shape_def divide2_row list_ex_iff list_all_iff broadcast1_mismatch) (simp add: raise_def)

lemma z2_facts [simp]: "nrows z2 = 2" "ncols z2 = 2" "mean_cols z2 = [0, 0]" "center z2 = z2"
  by (simp_all add: z2_def mean_cols_def center_def zip_row_def vec_of_def mat_of_def
      sum_lessThan_2 numeral_2_eq_2)

lemma esrf2_facts [simp]: "sr_observation_func esrf2 = obs0" "sr_warn esrf2"
  "sr_obser_noise_covar esrf2 = eye 2"
  by (simp_all add: esrf2_def esrf_init_def mmul_def tp_def eye_def mat_of_def numeral_2_eq_2)

lemma esrf2_c_matrix: "esrf_c_matrix esrf2 z2 0 = Mat 2 2 [[3, 2], [2, 3]]"
  by (simp add: esrf_c_matrix_def zip_m_def mmul_def tp_def smul_def eye_def mat_of_def
      numeral_2_eq_2) (simp add: z2_def)

lemma wb0_z2_c_matrix: "wb_c_matrix wb0 z2 0 = Mat 2 2 [[2, -2], [-2, 2]]"
  by (simp add: wb_c_matrix_def wb_a_matrix_def mmul_def tp_def smul_def mat_of_def
      numeral_2_eq_2) (simp add: z2_def)

lemma wb0_z2_d_matrix: "wb_d_matrix wb0 z2 0 = Mat 2 2 [[3, -2], [-2, 3]]"
  by (simp add: wb_d_matrix_def wb0_z2_c_matrix zip_m_def smul_def eye_def mat_of_def
      numeral_2_eq_2)

text \<open>
  Claim C7 (amended). The updates do not validate the shapes of their inputs. An observed
  vector of length 1 is accepted whatever the observation dimension: numpy broadcasts it, and
  the square-root and the Woodbury update run as with the vector repeated. An observed vector
  whose length is neither 1 nor the observation dimension (itself not 1), or a dense precision
  matrix whose number of columns is not the observation dimension, ends the call with numpy's
  own \<open>ValueError\<close>, raised by the first operation that meets the mismatch: in the square-root
  update after the eigendecomposition of the innovation covariance.
\<close>

theorem shapes_are_not_validated:
  "(length x = 1 \<longrightarrow>
      esrf_analysis_update L Fs z x t =
        esrf_analysis_update L Fs z (replicate (ncols (sr_observation_func Fs z t)) (x ! 0)) t \<and>
      woodbury_analysis_update L Fw z x t =
        woodbury_analysis_update L Fw z (replicate (ncols (wb_observation_func Fw z t)) (x ! 0)) t) \<and>
   (0 < nrows z \<and> nrows (sr_observation_func Fs z t) = nrows z \<and>
    nrows (sr_obser_noise_covar Fs) = ncols (sr_observation_func Fs z t) \<and>
    ncols (sr_obser_noise_covar Fs) = ncols (sr_observation_func Fs z t) \<and>
    eig_shape (ncols (sr_observation_func Fs z t)) (eigh L (esrf_c_matrix Fs z t)) \<and>
    list_all (\<lambda>w. w \<noteq> 0) (fst (eigh L (esrf_c_matrix Fs z t))) \<and>
    length x' \<noteq> 1 \<and> ncols (sr_observation_func Fs z t) \<noteq> 1 \<and>
    length x' \<noteq> ncols (sr_observation_func Fs z t) \<longrightarrow>
      esrf_analysis_update L Fs z x' t = ([], Inl ValueError)) \<and>
   (0 < nrows z \<and> 0 < nrows (wb_observation_func Fw z t) \<and>
    length x' \<noteq> 1 \<and> ncols (wb_observation_func Fw z t) \<noteq> 1 \<and>
    length x' \<noteq> ncols (wb_observation_func Fw z t) \<longrightarrow>
      woodbury_analysis_update L Fw z x' t = ([], Inl ValueError)) \<and>
   (0 < nrows z \<and> 0 < nrows (wb_observation_func Fw z t) \<and>
    length x'' = ncols (wb_observation_func Fw z t) \<and>
    wb_obser_noise_preci Fw = Dense P \<and> ncols P \<noteq> ncols (wb_observation_func Fw z t) \<longrightarrow>
      woodbury_analysis_update L Fw z x'' t = ([], Inl ValueError))"
  using esrf_length_one [of x L Fs z t] woodbury_length_one [of x L Fw z t]
    esrf_observation_mismatch [of z Fs t "ncols (sr_observation_func Fs z t)" L x']
    woodbury_observation_mismatch [of z Fw t x' L]
    woodbury_precision_mismatch [of z Fw t x'' P L]
  by blast

theorem shapes_are_not_validated_witness:
  "length x0 = 1 \<and>
   esrf_analysis_update L0 esrf2 z2 x0 0 = esrf_analysis_update L0 esrf2 z2 [3, 3] 0 \<and>
   woodbury_analysis_update L0 wb0 z2 x0 0 = woodbury_analysis_update L0 wb0 z2 [3, 3] 0 \<and>
   ncols (sr_observation_func esrf2 z2 0) = 2 \<and> length [1, 2, 3 :: real] = 3 \<and>
   fst (eigh L0 (esrf_c_matrix esrf2 z2 0)) = [1, 5] \<and>
   esrf_analysis_update L0 esrf2 z2 [1, 2, 3] 0 = ([], Inl ValueError) \<and>
   woodbury_analysis_update L0 wb0 z2 [1, 2, 3] 0 = ([], Inl ValueError) \<and>
   ncols (eye 3) = 3 \<and>
   woodbury_analysis_update L0 (wb0\<lparr>wb_obser_noise_preci := Dense (eye 3)\<rparr>) z2 [3, 3] 0
     = ([], Inl ValueError)"
  using shapes_are_not_validated [of x0 L0 esrf2 z2 0 wb0 "[1, 2, 3]" "[3, 3]" "eye 3"]
    shapes_are_not_validated [of x0 L0 esrf2 z2 0 "wb0\<lparr>wb_obser_noise_preci := Dense (eye 3)\<rparr>"
      "[1, 2, 3]" "[3, 3]" "eye 3"]
  by (simp add: x0_def esrf2_c_matrix eigh0_def eig_shape_def smul_def numeral_2_eq_2)

text \<open>The claim as stated fails: with a two-dimensional observation, the Woodbury update
  accepts an observed vector of length 1 and returns.\<close>

theorem shapes_are_not_validated_counterexample:
  "ncols (wb_observation_func wb0 z2 0) = 2 \<and> length x0 = 1 \<and>
   (\<exists>ws r. woodbury_analysis_update L0 wb0 z2 x0 0 = (ws, Inr r))"
proof -
  have c: "woodbury_consistent L0 wb0 z2 [3, 3] 0"
    by (simp add: woodbury_consistent_def preci_shape_def eig_shape_def eigh0_def smul_def)
  have s: "solve_shape L0 (wb_d_matrix wb0 z2 0) (wb_c_matrix wb0 z2 0)"
    by (simp add: solve_shape_def solve0_def wb0_z2_d_matrix)
  have "woodbury_analysis_update L0 wb0 z2 x0 0 = woodbury_analysis_update L0 wb0 z2 [3, 3] 0"
    using woodbury_length_one [of x0 L0 wb0 z2 0] by (simp add: x0_def numeral_2_eq_2)
  then show ?thesis
    by (simp add: woodbury_returns'[OF c s] Let_def x0_def)
qed

section \<open>Entries and algebra of matrices\<close>

lemma el_ops [simp]:
  "i < ncols A \<Longrightarrow> j < nrows A \<Longrightarrow> el (tp A) i j = el A j i"
  "i < nrows A \<Longrightarrow> j < ncols B \<Longrightarrow> el (mmul A B) i j = (\<Sum>k<ncols A. el A i k * el B k j)"
  "i < nrows A \<Longrightarrow> j < ncols A \<Longrightarrow> el (smul c A) i j = c * el A i j"
  "i < n \<Longrightarrow> j < n \<Longrightarrow> el (eye n) i j = (if i = j then 1 else 0)"
  "i < nrows A \<Longrightarrow> j < ncols A \<Longrightarrow> el (map_m g A) i j = g (el A i j)"
  "i < nrows A \<Longrightarrow> j < ncols A \<Longrightarrow> el (zip_m f A B) i j = f (el A i j) (el B i j)"
  "i < nrows A \<Longrightarrow> j < ncols A \<Longrightarrow> el (zip_row f A v) i j = f (el A i j) (v ! j)"
  "i < nrows A \<Longrightarrow> j < ncols A \<Longrightarrow> el (center A) i j = el A i j - mean_cols A ! j"
  by (simp_all add: tp_def mmul_def smul_def eye_def map_m_def zip_m_def zip_row_def center_def)

lemma nth_ops [simp]:
  "j < ncols B \<Longrightarrow> vmul v B ! j = (\<Sum>k<length v. v ! k * el B k j)"
  "i < nrows A \<Longrightarrow> mvmul A v ! i = (\<Sum>k<ncols A. el A i k * v ! k)"
  "i < length u \<Longrightarrow> zip_v f u v ! i = f (u ! i) (v ! i)"
  "j < ncols A \<Longrightarrow> mean_cols A ! j = (\<Sum>i<nrows A. el A i j) / real (nrows A)"
  by (simp_all add: vmul_def mvmul_def zip_v_def mean_cols_def)

lemma mat_eq_iff:
  assumes "wf_mat A" "wf_mat B"
  shows "A = B \<longleftrightarrow> nrows A = nrows B \<and> ncols A = ncols B \<and>
    (\<forall>i<nrows A. \<forall>j<ncols A. el A i j = el B i j)"
  using assms by (auto intro: mat_eqI)

lemma vec_eq_iff: "u = v \<longleftrightarrow> length u = length v \<and> (\<forall>i<length u. u ! i = v ! i)"
  by (auto simp: list_eq_iff_nth_eq)

lemma sum_delta_right:
  fixes f :: "nat \<Rightarrow> real"
  assumes "j < n"
  shows "(\<Sum>k<n. f k * (if k = j then a else 0)) = f j * a"
proof -
  have "(\<Sum>k<n. f k * (if k = j then a else 0)) = (\<Sum>k<n. if k = j then f k * a else 0)"
    by (intro sum.cong) auto
  also have "\<dots> = f j * a"
    using assms by (simp add: sum.delta)
  finally show ?thesis .
qed

lemma sum_delta_left':
  fixes f :: "nat \<Rightarrow> real"
  assumes "j < n"
  shows "(\<Sum>k<n. (if j = k then a else 0) * f k) = a * f j"
  using sum_delta_left[OF assms] .

lemma mmul_assoc:
  assumes "ncols A = nrows B" "ncols B = nrows C"
  shows "mmul (mmul A B) C = mmul A (mmul B C)"
proof (rule mat_eqI)
  fix i j assume i: "i < nrows (mmul A (mmul B C))" and j: "j < ncols (mmul A (mmul B C))"
  then have i': "i < nrows A" and j': "j < ncols C" by simp_all
  have "el (mmul (mmul A B) C) i j = (\<Sum>k<ncols B. (\<Sum>l<ncols A. el A i l * el B l k) * el C k j)"
    using i' j' by simp
  also have "\<dots> = (\<Sum>k<ncols B. \<Sum>l<ncols A. el A i l * (el B l k * el C k j))"
    by (simp add: sum_distrib_right mult.assoc)
  also have "\<dots> = (\<Sum>l<ncols A. \<Sum>k<ncols B. el A i l * (el B l k * el C k j))"
    by (rule sum.swap)
  also have "\<dots> = (\<Sum>l<ncols A. el A i l * (\<Sum>k<ncols B. el B l k * el C k j))"
    by (simp add: sum_distrib_left)
  also have "\<dots> = el (mmul A (mmul B C)) i j"
    using i' j' assms by simp
  finally show "el (mmul (mmul A B) C) i j = el (mmul A (mmul B C)) i j" .
qed simp_all

lemma mmul_eye_left: "wf_mat A \<Longrightarrow> nrows A = n \<Longrightarrow> mmul (eye n) A = A"
  by (rule mat_eqI) (auto simp: sum_delta_left)

lemma mmul_eye_right: "wf_mat A \<Longrightarrow> ncols A = n \<Longrightarrow> mmul A (eye n) = A"
  by (rule mat_eqI) (auto simp: sum_delta_right)

lemma tp_eye [simp]: "tp (eye n) = eye n"
  by (rule mat_eqI) auto

lemma tp_tp: "wf_mat A \<Longrightarrow> tp (tp A) = A"
  by (rule mat_eqI) auto

lemma tp_mmul: "ncols A = nrows B \<Longrightarrow> tp (mmul A B) = mmul (tp B) (tp A)"
  by (rule mat_eqI) (auto simp: mult.commute)

lemma mmul_eye_eye [simp]: "mmul (eye n) (eye n) = eye n"
  by (simp add: mmul_eye_left)

section \<open>The local update without observations\<close>

text \<open>What \<^verbatim>\<open>numpy.linalg.svd\<close> returns for a matrix \<open>A\<close> in exact arithmetic: orthogonal
  \<open>U\<close> and \<open>Vh\<close>, and \<open>min n d\<close> singular values with \<open>A = U diag(s) Vh\<close>.\<close>

lemma svd_sandwich:
  fixes u v :: "nat \<Rightarrow> nat \<Rightarrow> real"
  assumes U: "\<And>a b. a < n \<Longrightarrow> b < n \<Longrightarrow> (\<Sum>i<n. u i a * u i b) = (if a = b then 1 else 0)"
    and V: "\<And>a b. a < d \<Longrightarrow> b < d \<Longrightarrow> (\<Sum>j<d. v a j * v b j) = (if a = b then 1 else 0)"
    and k: "k \<le> n" "k \<le> d" and l: "l < k"
  shows "(\<Sum>i<n. \<Sum>j<d. u i l * (\<Sum>m<k. u i m * s m * v m j) * v l j) = s l"
proof -
  have "(\<Sum>i<n. \<Sum>j<d. u i l * (\<Sum>m<k. u i m * s m * v m j) * v l j)
      = (\<Sum>i<n. \<Sum>j<d. \<Sum>m<k. s m * (u i l * u i m) * (v m j * v l j))"
    by (simp add: sum_distrib_left sum_distrib_right mult_ac)
  also have "\<dots> = (\<Sum>i<n. \<Sum>m<k. \<Sum>j<d. s m * (u i l * u i m) * (v m j * v l j))"
    by (intro sum.cong refl sum.swap)
  also have "\<dots> = (\<Sum>m<k. \<Sum>i<n. \<Sum>j<d. s m * (u i l * u i m) * (v m j * v l j))"
    by (rule sum.swap)
  also have "\<dots> = (\<Sum>m<k. s m * (\<Sum>i<n. u i l * u i m) * (\<Sum>j<d. v m j * v l j))"
    by (simp add: sum_distrib_left sum_distrib_right mult_ac)
  also have "\<dots> = (\<Sum>m<k. s m * (if l = m then 1 else 0) * (if m = l then 1 else 0))"
    using k l by (intro sum.cong refl) (simp add: U V)
  also have "\<dots> = (\<Sum>m<k. if m = l then s m else 0)"
    by (intro sum.cong refl) simp
  also have "\<dots> = s l"
    using l by (simp add: sum.delta)
  finally show ?thesis .
qed

lemma svd_of_zero:
  assumes v: "svd_valid A usv" and z: "\<And>i j. i < nrows A \<Longrightarrow> j < ncols A \<Longrightarrow> el A i j = 0"
    and l: "l < min (nrows A) (ncols A)"
  shows "fst (snd usv) ! l = 0"
proof -
  define U where "U = fst usv"
  define s where "s = fst (snd usv)"
  define Vh where "Vh = snd (snd usv)"
  define n where "n = nrows A"
  define d where "d = ncols A"
  have sh: "nrows U = n" "ncols U = n" "nrows Vh = d" "ncols Vh = d"
    and UU: "mmul (tp U) U = eye n" and VV: "mmul Vh (tp Vh) = eye d"
    and A: "A = mat_of n d (\<lambda>i j. \<Sum>l<min n d. el U i l * s ! l * el Vh l j)"
    using v by (simp_all add: svd_valid_def Let_def U_def s_def Vh_def n_def d_def shaped_def)
  have U: "(\<Sum>i<n. el U i a * el U i b) = (if a = b then 1 else 0)" if "a < n" "b < n" for a b
  proof -
    have "el (mmul (tp U) U) a b = el (eye n) a b" by (simp add: UU)
    then show ?thesis using that sh by simp
  qed
  have V: "(\<Sum>j<d. el Vh a j * el Vh b j) = (if a = b then 1 else 0)" if "a < d" "b < d" for a b
  proof -
    have "el (mmul Vh (tp Vh)) a b = el (eye d) a b" by (simp add: VV)
    then show ?thesis using that sh by simp
  qed
  have ent: "(\<Sum>m<min n d. el U i m * s ! m * el Vh m j) = 0" if "i < n" "j < d" for i j
  proof -
    have "el A i j = (\<Sum>m<min n d. el U i m * s ! m * el Vh m j)"
      using that by (subst A) simp
    then show ?thesis using z[of i j] that by (simp add: n_def d_def)
  qed
  have "s ! l = (\<Sum>i<n. \<Sum>j<d. el U i l * (\<Sum>m<min n d. el U i m * s ! m * el Vh m j) * el Vh l j)"
    using l by (intro svd_sandwich[symmetric] U V) (simp_all add: n_def d_def)
  also have "\<dots> = 0"
    by (simp add: ent)
  finally show ?thesis by (simp add: s_def)
qed

lemma le_analysis_no_observations:
  assumes N: "1 < nrows z"
    and X: "nrows xf = nrows z" "ncols xf = length x"
    and len: "length sd = length x" "length w = length x"
    and w: "\<forall>a\<in>set w. a = 0"
    and infl: "0 < inflation_factor F"
    and S: "svd_valid (le_scaled xf w sd) (svd L (le_scaled xf w sd))"
  shows "le_analysis L F z xf x sd w = mat_of (nrows z) (ncols z)
     (\<lambda>i j. mean_cols z ! j + sqrt (inflation_factor F) * el (center z) i j)"
proof -
  define n where "n = nrows z"
  define dx where "dx = length x"
  define c where "c = (real n - 1) / inflation_factor F"
  define U where "U = fst (svd L (le_scaled xf w sd))"
  have n: "1 < n" using N by (simp add: n_def)
  have c: "0 < c" using n infl by (simp add: c_def)
  have eff: "le_eff w sd ! m = 0" if "m < dx" for m
    using that w len by (simp add: le_eff_def dx_def)
  have scaled: "el (le_scaled xf w sd) i j = 0" if "i < n" "j < dx" for i j
    using that X eff len by (simp add: le_scaled_def n_def dx_def)
  have s0: "fst (snd (svd L (le_scaled xf w sd))) ! l = 0" if "l < min dx n" for l
    using that X by (intro svd_of_zero[OF S] scaled) (simp_all add: n_def dx_def)
  have einv: "le_eigval_p_inv L F n xf w sd ! i = c" if "i < n" for i
    using that X s0 by (simp add: le_eigval_p_inv_def Let_def c_def dx_def)
  have Ush: "nrows U = n" "ncols U = n" and UU: "mmul U (tp U) = eye n"
    using S X by (simp_all add: svd_valid_def Let_def U_def shaped_def n_def)
  have orth: "(\<Sum>k<n. el U i k * el U j k) = (if i = j then 1 else 0)" if "i < n" "j < n" for i j
  proof -
    have "el (mmul U (tp U)) i j = el (eye n) i j" by (simp add: UU)
    then show ?thesis using that Ush by simp
  qed
  define eigval_p where "eigval_p = map (\<lambda>a. 1 / a) (le_eigval_p_inv L F n xf w sd)"
  have ep: "length eigval_p = n" "\<And>k. k < n \<Longrightarrow> eigval_p ! k = 1 / c"
    by (simp_all add: eigval_p_def einv)
  define d_vector where
    "d_vector = mvmul (zip_row (*) (center xf) (le_eff w sd)) (zip_v (-) x (mean_cols xf))"
  have dv: "length d_vector = n" "\<And>l. l < n \<Longrightarrow> d_vector ! l = 0"
    using X eff by (simp_all add: d_vector_def n_def dx_def)
  define w_mean where
    "w_mean = mvmul U (zip_v (*) eigval_p (mvmul (tp U) d_vector))"
  have wm: "w_mean ! j = 0" if "j < n" for j
    using that Ush ep dv by (simp add: w_mean_def)
  have root: "sqrt (real n - 1) * sqrt (1 / c) = sqrt (inflation_factor F)"
  proof -
    have "(real n - 1) * (1 / c) = inflation_factor F"
      using n infl by (simp add: c_def)
    then show ?thesis
      by (simp add: real_sqrt_mult[symmetric] del: real_sqrt_mult times_divide_eq_right)
  qed
  have dw: "el (smul (sqrt (real n - 1))
        (mmul (zip_row (*) U (map sqrt eigval_p)) (tp U))) i j
      = (if i = j then sqrt (inflation_factor F) else 0)" if "i < n" "j < n" for i j
  proof -
    have "el (smul (sqrt (real n - 1)) (mmul (zip_row (*) U (map sqrt eigval_p)) (tp U))) i j
        = sqrt (real n - 1) * (\<Sum>k<n. el U i k * sqrt (1 / c) * el U j k)"
      using that Ush ep by simp
    also have "(\<Sum>k<n. el U i k * sqrt (1 / c) * el U j k)
        = sqrt (1 / c) * (\<Sum>k<n. el U i k * el U j k)"
      by (simp add: sum_distrib_left mult_ac)
    also have "\<dots> = sqrt (1 / c) * (if i = j then 1 else 0)"
      using that by (simp add: orth)
    finally show ?thesis
      using root by (simp add: mult.assoc[symmetric] del: real_sqrt_divide)
  qed
  have W: "el (le_w_matrix L F n xf x sd w) i j = (if i = j then sqrt (inflation_factor F) else 0)"
    if "i < n" "j < n" for i j
    using that Ush dw[OF that] wm[OF that(2)]
    by (simp add: le_w_matrix_def Let_def U_def[symmetric] eigval_p_def[symmetric]
        d_vector_def[symmetric] w_mean_def[symmetric])
  have Wsh: "nrows (le_w_matrix L F n xf x sd w) = n" "ncols (le_w_matrix L F n xf x sd w) = n"
    using Ush by (simp_all add: le_w_matrix_def Let_def U_def[symmetric])
  show ?thesis
    unfolding le_analysis_def n_def[symmetric]
    by (rule mat_eqI) (simp_all add: Wsh W n_def[symmetric] sum_delta_left)
qed

lemma center_column_sum:
  assumes "0 < nrows A" "j < ncols A"
  shows "(\<Sum>i<nrows A. el (center A) i j) = 0"
proof -
  have "(\<Sum>i<nrows A. el (center A) i j) = (\<Sum>i<nrows A. el A i j - mean_cols A ! j)"
    using assms by (intro sum.cong refl) simp
  also have "\<dots> = 0"
    using assms by (simp add: sum_subtractf)
  finally show ?thesis .
qed

lemma inflated_mean:
  assumes N: "0 < nrows z"
  shows "mean_cols (mat_of (nrows z) (ncols z) (\<lambda>i j. mean_cols z ! j + r * el (center z) i j))
         = mean_cols z"
proof -
  have "(\<Sum>i<nrows z. mean_cols z ! j + r * el (center z) i j) / real (nrows z) = mean_cols z ! j"
    if "j < ncols z" for j
  proof -
    have "(\<Sum>i<nrows z. mean_cols z ! j + r * el (center z) i j)
        = real (nrows z) * mean_cols z ! j + r * (\<Sum>i<nrows z. el (center z) i j)"
      by (simp add: sum.distrib sum_distrib_left)
    also have "\<dots> = real (nrows z) * mean_cols z ! j"
      by (simp only: center_column_sum[OF N that] mult_zero_right add_0_right)
    finally show ?thesis
      using N by (simp del: nth_ops(4))
  qed
  then show ?thesis
    by (subst vec_eq_iff) (simp add: mean_cols_def)
qed

lemma inflated_std:
  assumes N: "0 < nrows z" and r: "0 \<le> r"
  shows "std_cols (mat_of (nrows z) (ncols z) (\<lambda>i j. mean_cols z ! j + r * el (center z) i j))
         = map (\<lambda>s. r * s) (std_cols z)"
proof -
  let ?Z = "mat_of (nrows z) (ncols z) (\<lambda>i j. mean_cols z ! j + r * el (center z) i j)"
  have "sqrt ((\<Sum>i<nrows z. \<bar>el ?Z i j - mean_cols ?Z ! j\<bar>\<^sup>2) / real (nrows z))
      = r * sqrt ((\<Sum>i<nrows z. \<bar>el z i j - mean_cols z ! j\<bar>\<^sup>2) / real (nrows z))"
    if j: "j < ncols z" for j
  proof -
    have "(\<Sum>i<nrows z. \<bar>el ?Z i j - mean_cols ?Z ! j\<bar>\<^sup>2)
        = (\<Sum>i<nrows z. r\<^sup>2 * \<bar>el z i j - mean_cols z ! j\<bar>\<^sup>2)"
      using j by (intro sum.cong refl) (simp add: inflated_mean[OF N] power_mult_distrib
          del: nth_ops(4))
    also have "\<dots> = r\<^sup>2 * (\<Sum>i<nrows z. \<bar>el z i j - mean_cols z ! j\<bar>\<^sup>2)"
      by (simp add: sum_distrib_left)
    finally have "(\<Sum>i<nrows z. \<bar>el ?Z i j - mean_cols ?Z ! j\<bar>\<^sup>2) / real (nrows z)
        = r\<^sup>2 * ((\<Sum>i<nrows z. \<bar>el z i j - mean_cols z ! j\<bar>\<^sup>2) / real (nrows z))"
      by simp
    then show ?thesis
      using r by (simp only: real_sqrt_mult real_sqrt_abs abs_of_nonneg)
  qed
  then show ?thesis
    by (subst vec_eq_iff) (simp add: std_cols_def del: nth_ops(4))
qed


lemma svd0_valid_zero:
  assumes "A = mat_of n d (\<lambda>i j. 0)"
  shows "svd_valid A (svd0 A)"
  unfolding svd_valid_def Let_def svd0_def assms
  by (auto simp: shaped_def mmul_eye_left intro!: mat_of_cong)

lemma letkf0_scaled: "le_scaled (obs0 z0 0) [0] [1] = mat_of 2 1 (\<lambda>i j. 0)"
  by (auto simp: le_scaled_def le_eff_def zip_v_def vec_of_def zip_row_def intro!: mat_of_cong)


section \<open>Linear algebra of the square-root updates\<close>

lemma mmul_add_left:
  assumes "nrows A = nrows B" "ncols A = ncols B"
  shows "mmul (zip_m (+) A B) C = zip_m (+) (mmul A C) (mmul B C)"
  using assms by (intro mat_eqI) (simp_all add: sum.distrib distrib_right)

lemma mmul_add_right:
  assumes "nrows B = nrows C" "ncols B = ncols C" "ncols A = nrows B"
  shows "mmul A (zip_m (+) B C) = zip_m (+) (mmul A B) (mmul A C)"
  using assms by (intro mat_eqI) (simp_all add: sum.distrib distrib_left)

lemma mmul_sub_right:
  assumes "nrows B = nrows C" "ncols B = ncols C" "ncols A = nrows B"
  shows "mmul A (zip_m (-) B C) = zip_m (-) (mmul A B) (mmul A C)"
  using assms by (intro mat_eqI) (simp_all add: sum_subtractf right_diff_distrib)

lemma mmul_smul_left: "mmul (smul k A) B = smul k (mmul A B)"
  by (intro mat_eqI) (simp_all add: sum_distrib_left mult.assoc)

lemma mmul_smul_right: "ncols A = nrows B \<Longrightarrow> mmul A (smul k B) = smul k (mmul A B)"
  by (intro mat_eqI) (simp_all add: sum_distrib_left mult_ac)

lemma sum_pick_right:
  fixes f g :: "nat \<Rightarrow> real"
  assumes "j < n"
  shows "(\<Sum>k<n. f k * (if k = j then g k else 0)) = f j * g j"
proof -
  have "(\<Sum>k<n. f k * (if k = j then g k else 0)) = (\<Sum>k<n. if k = j then f k * g k else 0)"
    by (intro sum.cong) auto
  also have "\<dots> = f j * g j"
    using assms by (simp add: sum.delta)
  finally show ?thesis .
qed

lemma sum_pick_left:
  fixes f g :: "nat \<Rightarrow> real"
  assumes "j < n"
  shows "(\<Sum>k<n. (if j = k then g j else 0) * f k) = g j * f j"
  using sum_delta_left[OF assms] .

lemma zip_row_as_mmul:
  assumes "length w = ncols V"
  shows "zip_row (*) V w = mmul V (diag_m w)"
  using assms by (intro mat_eqI) (simp_all add: diag_m_def sum_pick_right)

lemma zip_row_div_as_mmul:
  assumes "length w = ncols V"
  shows "zip_row (/) V w = mmul V (diag_m (map inverse w))"
  using assms by (intro mat_eqI) (simp_all add: diag_m_def sum_pick_right divide_inverse)

lemma diag_shape [simp]: "nrows (diag_m w) = length w" "ncols (diag_m w) = length w"
  "wf_mat (diag_m w)"
  by (simp_all add: diag_m_def)

lemma diag_inverse:
  assumes "\<forall>a\<in>set w. a \<noteq> 0"
  shows "mmul (diag_m (map inverse w)) (diag_m w) = eye (length w)"
  using assms by (intro mat_eqI) (auto simp: diag_m_def sum_delta_left)

lemma eigh_validD:
  assumes "eigh_valid A wV"
  shows "length (fst wV) = nrows A" "nrows (snd wV) = nrows A" "ncols (snd wV) = nrows A"
    "wf_mat (snd wV)" "mmul (tp (snd wV)) (snd wV) = eye (nrows A)"
    "mmul (snd wV) (tp (snd wV)) = eye (nrows A)"
    "mmul A (snd wV) = zip_row (*) (snd wV) (fst wV)"
  using assms by (simp_all add: eigh_valid_def Let_def shaped_def)

lemma eig_inverse_left:
  assumes v: "eigh_valid A wV" and sq: "ncols A = nrows A"
    and nz: "\<forall>a\<in>set (fst wV). a \<noteq> 0"
  shows "mmul (eig_inverse wV) A = eye (nrows A)"
proof -
  define n where "n = nrows A"
  define w where "w = fst wV"
  define V where "V = snd wV"
  define Di where "Di = diag_m (map inverse w)"
  define D where "D = diag_m w"
  note e = eigh_validD[OF v, folded n_def w_def V_def]
  have sh [simp]: "nrows V = n" "ncols V = n" "length w = n" "nrows A = n" "ncols A = n"
    "nrows D = n" "ncols D = n" "nrows Di = n" "ncols Di = n"
    using e sq by (simp_all add: n_def D_def Di_def)
  have wfV: "wf_mat V" by (rule e)
  have AV: "mmul A V = mmul V D"
    using e(7) by (simp add: zip_row_as_mmul D_def)
  have inv: "eig_inverse wV = mmul (mmul V Di) (tp V)"
    by (simp add: eig_inverse_def zip_row_div_as_mmul Di_def w_def[symmetric] V_def[symmetric])
  have DiD: "mmul Di D = eye n"
    using diag_inverse[of w] nz sh(3) by (simp add: Di_def D_def w_def[symmetric])
  have "mmul (mmul (eig_inverse wV) A) V = mmul (eig_inverse wV) (mmul V D)"
    by (simp add: mmul_assoc inv AV)
  also have "\<dots> = mmul (mmul V Di) (mmul (mmul (tp V) V) D)"
    by (simp add: inv mmul_assoc)
  also have "\<dots> = mmul (mmul V Di) D"
    by (simp add: e(5) mmul_eye_left D_def)
  also have "\<dots> = mmul V (mmul Di D)"
    by (simp add: mmul_assoc)
  also have "\<dots> = V"
    by (simp add: DiD mmul_eye_right wfV)
  finally have step: "mmul (mmul (eig_inverse wV) A) V = V" .
  have "mmul (eig_inverse wV) A = mmul (mmul (eig_inverse wV) A) (mmul V (tp V))"
    by (simp add: e(6) mmul_eye_right inv)
  also have "\<dots> = mmul (mmul (mmul (eig_inverse wV) A) V) (tp V)"
    by (simp add: mmul_assoc inv)
  also have "\<dots> = eye n"
    by (simp add: step e(6))
  finally show ?thesis by (simp only: n_def)
qed

lemma nonzero_vecI: "length v = n \<Longrightarrow> i < n \<Longrightarrow> v ! i \<noteq> 0 \<Longrightarrow> nonzero_vec n v"
  using nth_mem[of i v] by (auto simp: nonzero_vec_def list_ex_iff)

lemma nonzero_vec_sum_squares:
  assumes "nonzero_vec n v"
  shows "0 < (\<Sum>i<n. (v ! i)\<^sup>2)"
proof -
  from assms obtain i where i: "i < n" "v ! i \<noteq> 0"
    by (auto simp: nonzero_vec_def list_ex_iff in_set_conv_nth)
  have "0 < (v ! i)\<^sup>2" using i by simp
  also have "(v ! i)\<^sup>2 \<le> (\<Sum>i<n. (v ! i)\<^sup>2)"
    using i by (intro member_le_sum) simp_all
  finally show ?thesis .
qed

lemma eigenvalue_quad:
  assumes v: "eigh_valid A wV" and sq: "ncols A = nrows A" and i: "i < nrows A"
  shows "fst wV ! i = quad A (vec_of (nrows A) (\<lambda>a. el (snd wV) a i))"
    and "nonzero_vec (nrows A) (vec_of (nrows A) (\<lambda>a. el (snd wV) a i))"
proof -
  define n where "n = nrows A"
  define w where "w = fst wV"
  define V where "V = snd wV"
  note e = eigh_validD[OF v, folded n_def w_def V_def]
  have i': "i < n" using i by (simp add: n_def)
  have col: "(\<Sum>b<n. el A a b * el V b i) = el V a i * w ! i" if "a < n" for a
  proof -
    have "el (mmul A V) a i = el (zip_row (*) V w) a i" by (simp add: e(7))
    then show ?thesis using that i' e(1-4) sq by (simp add: n_def)
  qed
  have unit: "(\<Sum>a<n. el V a i * el V a i) = 1"
  proof -
    have "el (mmul (tp V) V) i i = el (eye n) i i" by (simp add: e(5))
    then show ?thesis using i' e(1-4) by simp
  qed
  have "quad A (vec_of n (\<lambda>a. el V a i)) = (\<Sum>a<n. el V a i * (\<Sum>b<n. el A a b * el V b i))"
    unfolding quad_def sq n_def[symmetric]
    by (intro sum.cong refl) (simp add: sum_distrib_left mult.assoc)
  also have "\<dots> = (\<Sum>a<n. w ! i * (el V a i * el V a i))"
    by (intro sum.cong refl) (simp add: col)
  also have "\<dots> = w ! i"
    by (simp add: sum_distrib_left[symmetric] unit)
  finally show "fst wV ! i = quad A (vec_of (nrows A) (\<lambda>a. el (snd wV) a i))"
    by (simp add: n_def w_def V_def)
  have "\<exists>a<n. el V a i \<noteq> 0"
  proof (rule ccontr)
    assume "\<not> (\<exists>a<n. el V a i \<noteq> 0)"
    then have "(\<Sum>a<n. el V a i * el V a i) = 0" by simp
    with unit show False by simp
  qed
  then obtain a where "a < n" "el V a i \<noteq> 0" by blast
  then have "nonzero_vec n (vec_of n (\<lambda>a. el V a i))"
    by (intro nonzero_vecI[of _ _ a]) simp_all
  then show "nonzero_vec (nrows A) (vec_of (nrows A) (\<lambda>a. el (snd wV) a i))"
    by (simp add: n_def V_def)
qed

lemma quad_gram:
  assumes sh: "nrows R = n" "ncols R = n" "ncols X = n" and v: "length v = n"
  shows "quad (zip_m (+) (mmul (tp X) X) (smul k R)) v
       = (\<Sum>m<nrows X. (\<Sum>a<n. el X m a * v ! a)\<^sup>2) + k * quad R v"
proof -
  have "quad (zip_m (+) (mmul (tp X) X) (smul k R)) v
      = (\<Sum>a<n. \<Sum>b<n. v ! a * ((\<Sum>m<nrows X. el X m a * el X m b) + k * el R a b) * v ! b)"
    unfolding quad_def using sh by (intro sum.cong refl) simp_all
  also have "\<dots> = (\<Sum>a<n. \<Sum>b<n. (\<Sum>m<nrows X. (el X m a * v ! a) * (el X m b * v ! b)))
      + k * (\<Sum>a<n. \<Sum>b<n. v ! a * el R a b * v ! b)"
    by (simp add: sum.distrib sum_distrib_left sum_distrib_right algebra_simps)
  also have "(\<Sum>a<n. \<Sum>b<n. (\<Sum>m<nrows X. (el X m a * v ! a) * (el X m b * v ! b)))
      = (\<Sum>m<nrows X. \<Sum>a<n. \<Sum>b<n. (el X m a * v ! a) * (el X m b * v ! b))"
  proof -
    have "(\<Sum>a<n. \<Sum>b<n. (\<Sum>m<nrows X. (el X m a * v ! a) * (el X m b * v ! b)))
        = (\<Sum>a<n. \<Sum>m<nrows X. \<Sum>b<n. (el X m a * v ! a) * (el X m b * v ! b))"
      by (intro sum.cong refl sum.swap)
    also have "\<dots> = (\<Sum>m<nrows X. \<Sum>a<n. \<Sum>b<n. (el X m a * v ! a) * (el X m b * v ! b))"
      by (rule sum.swap)
    finally show ?thesis .
  qed
  also have "\<dots> = (\<Sum>m<nrows X. (\<Sum>a<n. el X m a * v ! a)\<^sup>2)"
    by (simp add: power2_eq_square sum_product)
  finally show ?thesis
    using sh by (simp add: quad_def)
qed

lemma esrf_eigenvalues_positive:
  assumes N: "1 < nrows z"
    and R: "nrows (sr_obser_noise_covar F) = ncols (sr_observation_func F z t)"
           "pos_def (sr_obser_noise_covar F)"
    and v: "eigh_valid (esrf_c_matrix F z t) (eigh L (esrf_c_matrix F z t))"
  shows "\<forall>w\<in>set (fst (eigh L (esrf_c_matrix F z t))). 0 < w"
proof -
  define n where "n = ncols (sr_observation_func F z t)"
  define C where "C = esrf_c_matrix F z t"
  define X where "X = center (sr_observation_func F z t)"
  define R' where "R' = sr_obser_noise_covar F"
  have Rsh: "nrows R' = n" "ncols R' = n"
    using R by (simp_all add: pos_def_def n_def R'_def)
  have Csh: "nrows C = n" "ncols C = n"
    by (simp_all add: C_def n_def)
  have len: "length (fst (eigh L C)) = n"
    using eigh_validD(1)[OF v] Csh by (simp add: C_def)
  have "0 < fst (eigh L C) ! i" if i: "i < n" for i
  proof -
    define u where "u = vec_of n (\<lambda>a. el (snd (eigh L C)) a i)"
    have q: "fst (eigh L C) ! i = quad C u" and nz: "nonzero_vec n u"
      using eigenvalue_quad[OF v, of i] Csh i by (simp_all add: C_def u_def)
    have u: "length u = n" by (simp add: u_def)
    have "quad C u = (\<Sum>m<nrows X. (\<Sum>a<n. el X m a * u ! a)\<^sup>2) + (real (nrows z) - 1) * quad R' u"
      unfolding C_def esrf_c_matrix_def Let_def X_def[symmetric] R'_def[symmetric]
      by (rule quad_gram) (simp_all add: Rsh u X_def n_def)
    moreover have "0 \<le> (\<Sum>m<nrows X. (\<Sum>a<n. el X m a * u ! a)\<^sup>2)"
      by (intro sum_nonneg) simp
    moreover have "0 < quad R' u"
      using R(2) nz Rsh by (simp add: pos_def_def R'_def)
    moreover have "0 < real (nrows z) - 1"
      using N by simp
    ultimately show ?thesis
      using q by (simp add: add_nonneg_pos)
  qed
  then show ?thesis
    using len by (auto simp: in_set_conv_nth C_def)
qed

lemma wb_a_as_product:
  assumes "preci_shape (ncols dx) p"
  shows "wb_a_matrix p dx = mmul (preci_matrix (ncols dx) p) (tp dx)"
proof (cases p)
  case (Scalar s)
  then show ?thesis
    by (simp add: wb_a_matrix_def preci_matrix_def mmul_smul_left mmul_eye_left)
      (intro mat_eqI; simp)
next
  case (Diagonal d)
  then show ?thesis
    using assms
    by (simp add: wb_a_matrix_def preci_matrix_def preci_shape_def)
      (intro mat_eqI; simp add: diag_m_def sum_pick_left)
next
  case (Dense P)
  then show ?thesis
    by (simp add: wb_a_matrix_def preci_matrix_def)
qed

lemma preci_matrix_shape [simp]:
  "preci_shape n p \<Longrightarrow> nrows (preci_matrix n p) = n"
  "preci_shape n p \<Longrightarrow> ncols (preci_matrix n p) = n"
  by (auto simp: preci_matrix_def preci_shape_def split: precision.splits)

lemma quad_dot: "quad M v = (\<Sum>i<nrows M. v ! i * mvmul M v ! i)"
  unfolding quad_def by (intro sum.cong refl) (simp add: sum_distrib_left mult.assoc)

lemma mvmul_mmul:
  assumes "ncols A = nrows B"
  shows "mvmul (mmul A B) v = mvmul A (mvmul B v)"
proof -
  have "(\<Sum>k<ncols B. (\<Sum>l<ncols A. el A i l * el B l k) * v ! k)
      = (\<Sum>l<ncols A. el A i l * (\<Sum>k<ncols B. el B l k * v ! k))" for i
  proof -
    have "(\<Sum>k<ncols B. (\<Sum>l<ncols A. el A i l * el B l k) * v ! k)
        = (\<Sum>k<ncols B. \<Sum>l<ncols A. el A i l * (el B l k * v ! k))"
      by (simp add: sum_distrib_right mult.assoc)
    also have "\<dots> = (\<Sum>l<ncols A. \<Sum>k<ncols B. el A i l * (el B l k * v ! k))"
      by (rule sum.swap)
    finally show ?thesis by (simp add: sum_distrib_left)
  qed
  then show ?thesis
    using assms by (subst vec_eq_iff) simp
qed

lemma dot_tp:
  "(\<Sum>i<nrows X. v ! i * mvmul X y ! i) = (\<Sum>a<ncols X. mvmul (tp X) v ! a * y ! a)"
proof -
  have "(\<Sum>i<nrows X. v ! i * mvmul X y ! i) = (\<Sum>i<nrows X. \<Sum>a<ncols X. el X i a * v ! i * y ! a)"
    by (intro sum.cong refl) (simp add: sum_distrib_left mult_ac)
  also have "\<dots> = (\<Sum>a<ncols X. \<Sum>i<nrows X. el X i a * v ! i * y ! a)"
    by (rule sum.swap)
  also have "\<dots> = (\<Sum>a<ncols X. mvmul (tp X) v ! a * y ! a)"
    by (intro sum.cong refl) (simp add: sum_distrib_right)
  finally show ?thesis .
qed

lemma quad_congruence:
  assumes "nrows P = ncols X" "ncols P = ncols X"
  shows "quad (mmul X (mmul P (tp X))) v = quad P (mvmul (tp X) v)"
proof -
  have "quad (mmul X (mmul P (tp X))) v
      = (\<Sum>i<nrows X. v ! i * mvmul X (mvmul P (mvmul (tp X) v)) ! i)"
    using assms by (simp add: quad_dot mvmul_mmul)
  also have "\<dots> = (\<Sum>a<ncols X. mvmul (tp X) v ! a * mvmul P (mvmul (tp X) v) ! a)"
    by (rule dot_tp)
  also have "\<dots> = quad P (mvmul (tp X) v)"
    using assms by (simp add: quad_dot)
  finally show ?thesis .
qed

lemma pos_def_nonneg:
  assumes "pos_def P" "length u = nrows P"
  shows "0 \<le> quad P u"
proof (cases "nonzero_vec (nrows P) u")
  case True
  then show ?thesis using assms by (simp add: pos_def_def less_imp_le)
next
  case False
  then have "\<forall>a\<in>set u. a = 0"
    using assms(2) by (auto simp: nonzero_vec_def list_ex_iff)
  then have "\<And>i. i < nrows P \<Longrightarrow> u ! i = 0"
    using assms(2) by simp
  then show ?thesis
    by (simp add: quad_def)
qed

lemma quad_shifted:
  assumes "nrows c = n" "ncols c = n"
  shows "quad (zip_m (+) (smul k (eye n)) c) v = k * (\<Sum>i<n. (v ! i)\<^sup>2) + quad c v"
proof -
  have "(\<Sum>j<n. v ! i * ((k * (if i = j then 1 else 0)) + el c i j) * v ! j)
      = k * (v ! i)\<^sup>2 + (\<Sum>j<n. v ! i * el c i j * v ! j)" if "i < n" for i
  proof -
    have "(\<Sum>j<n. v ! i * ((k * (if i = j then 1 else 0)) + el c i j) * v ! j)
        = (\<Sum>j<n. (if i = j then k * v ! i else 0) * v ! j) + (\<Sum>j<n. v ! i * el c i j * v ! j)"
      by (simp add: sum.distrib[symmetric] algebra_simps) (intro sum.cong refl; simp)
    then show ?thesis
      using that by (simp add: sum_delta_left power2_eq_square)
  qed
  then show ?thesis
    using assms by (simp add: quad_def sum.distrib sum_distrib_left)
qed

lemma nonsingular_shifted:
  assumes k: "0 < k" and sh: "nrows c = n" "ncols c = n"
    and c: "\<And>v. length v = n \<Longrightarrow> 0 \<le> quad c v"
  shows "\<not> singular (zip_m (+) (smul k (eye n)) c)"
proof
  assume "singular (zip_m (+) (smul k (eye n)) c)"
  then obtain v where v: "nonzero_vec n v"
    and z: "mvmul (zip_m (+) (smul k (eye n)) c) v = replicate n 0"
    by (auto simp: singular_def)
  have len: "length v = n" using v by (simp add: nonzero_vec_def)
  have "quad (zip_m (+) (smul k (eye n)) c) v = 0"
    by (simp add: quad_dot z)
  moreover have "0 < k * (\<Sum>i<n. (v ! i)\<^sup>2) + quad c v"
    using k nonzero_vec_sum_squares[OF v] c[OF len] by (intro add_pos_nonneg mult_pos_pos)
  ultimately show False
    by (simp add: quad_shifted[OF sh])
qed

lemma woodbury_d_nonsingular:
  assumes N: "1 < nrows z"
    and X: "nrows (wb_observation_func F z t) = nrows z"
    and P: "preci_shape (ncols (wb_observation_func F z t)) (wb_obser_noise_preci F)"
      "pos_def (preci_matrix (ncols (wb_observation_func F z t)) (wb_obser_noise_preci F))"
  shows "\<not> singular (wb_d_matrix F z t)"
proof -
  define X' where "X' = center (wb_observation_func F z t)"
  define P' where "P' = preci_matrix (ncols (wb_observation_func F z t)) (wb_obser_noise_preci F)"
  have sh: "nrows P' = ncols X'" "ncols P' = ncols X'"
    using P(1) by (simp_all add: P'_def X'_def)
  have c: "wb_c_matrix F z t = mmul X' (mmul P' (tp X'))"
    using P(1) by (simp add: wb_c_matrix_def Let_def wb_a_as_product X'_def P'_def)
  have "0 \<le> quad (wb_c_matrix F z t) v" for v
    unfolding c quad_congruence[OF sh]
    using P(2) sh by (intro pos_def_nonneg) (simp_all add: P'_def)
  then show ?thesis
    unfolding wb_d_matrix_def using N X
    by (intro nonsingular_shifted) simp_all
qed

section \<open>Divisors\<close>

lemma center_single_row:
  assumes "nrows A = 1" "i < 1" "j < ncols A"
  shows "el (center A) i j = 0"
  using assms by simp

lemma esrf_c_single:
  assumes "nrows z = 1" "nrows (sr_observation_func F z t) = 1"
    and "nrows (sr_obser_noise_covar F) = ncols (sr_observation_func F z t)"
    and "ncols (sr_obser_noise_covar F) = ncols (sr_observation_func F z t)"
    and "a < ncols (sr_observation_func F z t)" "b < ncols (sr_observation_func F z t)"
  shows "el (esrf_c_matrix F z t) a b = 0"
  using assms by (simp add: esrf_c_matrix_def Let_def)

lemma quad_zero_matrix:
  assumes "\<And>a b. a < nrows A \<Longrightarrow> b < ncols A \<Longrightarrow> el A a b = 0"
  shows "quad A v = 0"
  using assms by (simp add: quad_def)

lemma esrf_single_particle:
  assumes N: "nrows z = 1" and X: "nrows (sr_observation_func F z t) = 1"
    and R: "nrows (sr_obser_noise_covar F) = ncols (sr_observation_func F z t)"
           "ncols (sr_obser_noise_covar F) = ncols (sr_observation_func F z t)"
    and D: "0 < ncols (sr_observation_func F z t)"
    and v: "eigh_valid (esrf_c_matrix F z t) (eigh L (esrf_c_matrix F z t))"
  shows "list_all (\<lambda>w. w = 0) (fst (eigh L (esrf_c_matrix F z t)))"
    and "esrf_analysis_update L F z x t = ([], Inl (FloatingPointError DivideByZero))"
proof -
  define C where "C = esrf_c_matrix F z t"
  define n where "n = ncols (sr_observation_func F z t)"
  have Csh: "nrows C = n" "ncols C = n" by (simp_all add: C_def n_def)
  have zero: "el C a b = 0" if "a < nrows C" "b < ncols C" for a b
    using that esrf_c_single[OF N X R] by (simp add: C_def)
  have len: "length (fst (eigh L C)) = n" and Vsh: "nrows (snd (eigh L C)) = n"
    "ncols (snd (eigh L C)) = n"
    using eigh_validD(1-3)[OF v] Csh by (simp_all add: C_def)
  have w0: "fst (eigh L C) ! i = 0" if "i < n" for i
    using eigenvalue_quad(1)[OF v, of i] that Csh quad_zero_matrix[of C, OF zero]
    by (simp add: C_def)
  then have all0: "\<forall>w\<in>set (fst (eigh L C)). w = 0"
    using len by (auto simp: in_set_conv_nth)
  then show "list_all (\<lambda>w. w = 0) (fst (eigh L (esrf_c_matrix F z t)))"
    by (simp add: list_all_iff C_def)
  have "fst (eigh L C) \<noteq> []"
    using len D by (auto simp: n_def)
  then have ex: "list_ex (\<lambda>w. w = 0) (fst (eigh L C))"
    using all0 by (cases "fst (eigh L C)") (auto simp: list_ex_iff)
  have N': "0 < nrows z" and X': "nrows (sr_observation_func F z t) = nrows z"
    using N X by simp_all
  show "esrf_analysis_update L F z x t = ([], Inl (FloatingPointError DivideByZero))"
    using N' X' R D len Vsh ex
    by (simp add: esrf_analysis_update_def Let_def mean0_pos broadcast2_row_r broadcast2_same
        dot_simps la_eigh_def center_def[symmetric] C_def
        esrf_c_matrix_def[symmetric, unfolded Let_def] split_beta divide2_row n_def)
      (simp add: raise_def)
qed

lemma wb_c_single:
  assumes "nrows (wb_observation_func F z t) = 1"
    and "preci_shape (ncols (wb_observation_func F z t)) (wb_obser_noise_preci F)"
  shows "wb_c_matrix F z t = mat_of 1 1 (\<lambda>i j. 0)"
  using assms by (intro mat_eqI) (simp_all add: wb_c_matrix_def Let_def)

lemma wb_d_single:
  assumes "nrows z = 1" "nrows (wb_observation_func F z t) = 1"
    and "preci_shape (ncols (wb_observation_func F z t)) (wb_obser_noise_preci F)"
  shows "wb_d_matrix F z t = mat_of 1 1 (\<lambda>i j. 0)"
  using assms by (intro mat_eqI) (simp_all add: wb_d_matrix_def wb_c_single)

lemma singular_zero: "singular (mat_of 1 1 (\<lambda>i j. 0))"
  unfolding singular_def
  by (rule exI[of _ "[1]"]) (simp add: nonzero_vec_def mvmul_def vec_of_def)

lemma woodbury_single_particle:
  assumes N: "nrows z = 1" and X: "nrows (wb_observation_func F z t) = 1"
    and P: "preci_shape (ncols (wb_observation_func F z t)) (wb_obser_noise_preci F)"
    and x: "length x = ncols (wb_observation_func F z t)"
    and s: "solve_valid (wb_d_matrix F z t) (wb_c_matrix F z t)
              (solve L (wb_d_matrix F z t) (wb_c_matrix F z t))"
  shows "singular (wb_d_matrix F z t)"
    and "woodbury_analysis_update L F z x t = ([], Inl LinAlgError)"
proof -
  show sing: "singular (wb_d_matrix F z t)"
    unfolding wb_d_single[OF N X P] by (rule singular_zero)
  then have none: "solve L (wb_d_matrix F z t) (wb_c_matrix F z t) = None"
    using s by (auto simp: solve_valid_def split: option.splits)
  have N': "0 < nrows z" and X': "nrows (wb_observation_func F z t) = nrows z"
    using N X by simp_all
  show "woodbury_analysis_update L F z x t = ([], Inl LinAlgError)"
    using N' X' P x
    by (simp add: woodbury_analysis_update_def Let_def mean0_pos broadcast2_row_r
        broadcast2_same broadcast1_same dot_simps la_solve_def center_def[symmetric]
        a_matrix_of_shape wb_c_matrix_def[symmetric, unfolded Let_def]
        wb_d_matrix_def[symmetric] none)
      (simp add: raise_def)
qed

lemma letkf_single_particle:
  assumes N: "nrows z = 1" and X: "nrows xf = 1" "ncols xf = length x"
    and len: "length sd = length x" "length w = length x"
    and sd: "list_all (\<lambda>s. s \<noteq> 0) sd" and w: "list_all (\<lambda>a. 0 \<le> a) w"
    and infl: "inflation_factor F \<noteq> 0"
    and S: "svd_valid (le_scaled xf w sd) (svd L (le_scaled xf w sd))"
  shows "le_eigval_p_inv L F (nrows z) xf w sd = [0]"
    and "local_analysis_update L F z xf x sd w = ([], Inl (FloatingPointError DivideByZero))"
proof -
  have scaled: "el (le_scaled xf w sd) i j = 0"
    if "i < nrows (le_scaled xf w sd)" "j < ncols (le_scaled xf w sd)" for i j
    using that X by (simp add: le_scaled_def)
  have s0: "fst (snd (svd L (le_scaled xf w sd))) ! l = 0" if "l < min 1 (length x)" for l
    using that X by (intro svd_of_zero[OF S] scaled) simp_all
  show inv: "le_eigval_p_inv L F (nrows z) xf w sd = [0]"
    using N X s0 by (subst vec_eq_iff) (simp add: le_eigval_p_inv_def Let_def min.commute)
  have eff: "\<forall>a\<in>set (le_eff w sd). 0 \<le> a"
    using len w by (intro le_eff_nonneg) (simp_all add: list_all_iff)
  have sd2: "\<not> list_ex (\<lambda>x. x = 0) (map (\<lambda>s. s\<^sup>2) sd)"
    using sd by (auto simp: list_ex_iff list_all_iff)
  have sh: "length (fst (snd (svd L (le_scaled xf w sd)))) = min (nrows xf) (ncols xf)"
    using S by (simp add: svd_valid_def Let_def)
  have N': "0 < nrows z" and X': "nrows xf = nrows z" using N X by simp_all
  have e0: "map (\<lambda>x. x * (real (nrows z) - 1) / inflation_factor F) (replicate (nrows z) 1)
      = replicate (nrows z) ((real (nrows z) - 1) / inflation_factor F)"
    by simp
  have inv': "vec_of (nrows z) (\<lambda>i. replicate (nrows z) ((real (nrows z) - 1) / inflation_factor F) ! i +
       (if i < length x \<and> i < nrows z
        then map power2 (fst (snd (svd L (le_scaled xf w sd)))) ! i else 0))
     = le_eigval_p_inv L F (nrows z) xf w sd"
    using sh X' X(2) unfolding le_eigval_p_inv_def Let_def
    by (auto intro!: vec_of_cong simp: min.commute)
  show "local_analysis_update L F z xf x sd w = ([], Inl (FloatingPointError DivideByZero))"
    using N' X' X(2) len infl sh
    apply (simp add: local_analysis_update_def Let_def mean0_pos broadcast2_row_r
        broadcast2_row_l center_def[symmetric] divide1_same sd2 le_eff_def[symmetric]
        pow_half_nonneg[OF eff] le_scaled_def[symmetric] split_beta div_by_nonzero
        e0 comp_def iadd_prefix_same min.commute inv')
    apply (simp add: inv div_sv_def)
    apply (simp add: raise_def)
    done
qed

lemma letkf_divisors_positive:
  assumes "letkf_consistent L F z xf x sd w"
  shows "list_all (\<lambda>a. 0 < a) (le_eigval_p_inv L F (nrows z) xf w sd)"
  using le_eigval_p_inv_pos[of "nrows z" F L xf w sd] assms
  by (simp add: letkf_consistent_def list_all_iff)

text \<open>
  Claim C10 (amended). In exact arithmetic, where \<^verbatim>\<open>eigh\<close>, \<^verbatim>\<open>solve\<close> and \<^verbatim>\<open>svd\<close> return
  exact answers: with at least two particles the divisors of the deterministic updates are not
  zero: the eigenvalues of the innovation covariance are positive when the noise covariance
  is positive definite (4.2), the matrix \<open>d\<close> is not singular when the precision is positive
  definite (4.3), the entries of \<open>eigval_p_inv\<close> are positive when the inflation factor is
  (4.4); each update returns. With one particle the centered deviations vanish: the
  eigenvalues of the innovation covariance are all 0 and the square-root update divides by
  them, the matrix \<open>d\<close> is singular and \<^verbatim>\<open>solve\<close> raises, \<open>eigval_p_inv\<close> is 0 and the local
  update divides by it.
\<close>

theorem division_safety:
  "(esrf_consistent L Fs z x t \<and> 1 < nrows z \<and> pos_def (sr_obser_noise_covar Fs) \<and>
    eigh_valid (esrf_c_matrix Fs z t) (eigh L (esrf_c_matrix Fs z t)) \<longrightarrow>
      list_all (\<lambda>w. 0 < w) (fst (eigh L (esrf_c_matrix Fs z t))) \<and>
      (\<exists>ws r. esrf_analysis_update L Fs z x t = (ws, Inr r))) \<and>
   (woodbury_consistent L Fw z x t \<and>
    pos_def (preci_matrix (length x) (wb_obser_noise_preci Fw)) \<and>
    solve_valid (wb_d_matrix Fw z t) (wb_c_matrix Fw z t)
      (solve L (wb_d_matrix Fw z t) (wb_c_matrix Fw z t)) \<longrightarrow>
      \<not> singular (wb_d_matrix Fw z t) \<and>
      (\<exists>ws r. woodbury_analysis_update L Fw z x t = (ws, Inr r))) \<and>
   (letkf_consistent L Fl z xf x sd w \<longrightarrow>
      list_all (\<lambda>a. 0 < a) (le_eigval_p_inv L Fl (nrows z) xf w sd) \<and>
      (\<exists>r. local_analysis_update L Fl z xf x sd w = ([], Inr r))) \<and>
   (nrows z' = 1 \<and> nrows (sr_observation_func Fs z' t) = 1 \<and>
    nrows (sr_obser_noise_covar Fs) = ncols (sr_observation_func Fs z' t) \<and>
    ncols (sr_obser_noise_covar Fs) = ncols (sr_observation_func Fs z' t) \<and>
    0 < ncols (sr_observation_func Fs z' t) \<and>
    eigh_valid (esrf_c_matrix Fs z' t) (eigh L (esrf_c_matrix Fs z' t)) \<longrightarrow>
      list_all (\<lambda>w. w = 0) (fst (eigh L (esrf_c_matrix Fs z' t))) \<and>
      esrf_analysis_update L Fs z' x t = ([], Inl (FloatingPointError DivideByZero))) \<and>
   (nrows z' = 1 \<and> nrows (wb_observation_func Fw z' t) = 1 \<and>
    preci_shape (ncols (wb_observation_func Fw z' t)) (wb_obser_noise_preci Fw) \<and>
    length x = ncols (wb_observation_func Fw z' t) \<and>
    solve_valid (wb_d_matrix Fw z' t) (wb_c_matrix Fw z' t)
      (solve L (wb_d_matrix Fw z' t) (wb_c_matrix Fw z' t)) \<longrightarrow>
      singular (wb_d_matrix Fw z' t) \<and>
      woodbury_analysis_update L Fw z' x t = ([], Inl LinAlgError)) \<and>
   (nrows z' = 1 \<and> nrows xf' = 1 \<and> ncols xf' = length x \<and>
    length sd = length x \<and> length w = length x \<and>
    list_all (\<lambda>s. s \<noteq> 0) sd \<and> list_all (\<lambda>a. 0 \<le> a) w \<and> inflation_factor Fl \<noteq> 0 \<and>
    svd_valid (le_scaled xf' w sd) (svd L (le_scaled xf' w sd)) \<longrightarrow>
      le_eigval_p_inv L Fl (nrows z') xf' w sd = [0] \<and>
      local_analysis_update L Fl z' xf' x sd w = ([], Inl (FloatingPointError DivideByZero)))"
proof (intro conjI impI; (elim conjE)?)
  assume a: "esrf_consistent L Fs z x t" "1 < nrows z" "pos_def (sr_obser_noise_covar Fs)"
    "eigh_valid (esrf_c_matrix Fs z t) (eigh L (esrf_c_matrix Fs z t))"
  have R: "nrows (sr_obser_noise_covar Fs) = ncols (sr_observation_func Fs z t)"
    using a(1) by (simp add: esrf_consistent_def Let_def)
  have pos: "\<forall>w\<in>set (fst (eigh L (esrf_c_matrix Fs z t))). 0 < w"
    by (rule esrf_eigenvalues_positive[OF a(2) R a(3) a(4)])
  then show "list_all (\<lambda>w. 0 < w) (fst (eigh L (esrf_c_matrix Fs z t)))"
    by (simp add: list_all_iff)
  have "\<forall>w\<in>set (fst (eigh L (esrf_c_matrix Fs z t))). w \<noteq> 0"
    using pos by auto
  then show "\<exists>ws r. esrf_analysis_update L Fs z x t = (ws, Inr r)"
    by (simp add: esrf_returns'[OF a(1)] Let_def)
next
  assume a: "woodbury_consistent L Fw z x t"
    "pos_def (preci_matrix (length x) (wb_obser_noise_preci Fw))"
    "solve_valid (wb_d_matrix Fw z t) (wb_c_matrix Fw z t)
      (solve L (wb_d_matrix Fw z t) (wb_c_matrix Fw z t))"
  have c: "1 < nrows z" "nrows (wb_observation_func Fw z t) = nrows z"
    "ncols (wb_observation_func Fw z t) = length x"
    "preci_shape (length x) (wb_obser_noise_preci Fw)"
    using a(1) by (simp_all add: woodbury_consistent_def Let_def)
  show ns: "\<not> singular (wb_d_matrix Fw z t)"
    using c a(2) by (intro woodbury_d_nonsingular) simp_all
  then have "solve_shape L (wb_d_matrix Fw z t) (wb_c_matrix Fw z t)"
    using a(3) by (auto simp: solve_valid_def solve_shape_def shaped_def split: option.splits)
  then show "\<exists>ws r. woodbury_analysis_update L Fw z x t = (ws, Inr r)"
    by (simp add: woodbury_returns'[OF a(1)] Let_def)
next
  assume a: "letkf_consistent L Fl z xf x sd w"
  show "list_all (\<lambda>a. 0 < a) (le_eigval_p_inv L Fl (nrows z) xf w sd)"
    by (rule letkf_divisors_positive[OF a])
  show "\<exists>r. local_analysis_update L Fl z xf x sd w = ([], Inr r)"
    by (simp add: local_update_returns'[OF a])
next
  assume a: "nrows z' = 1" "nrows (sr_observation_func Fs z' t) = 1"
    "nrows (sr_obser_noise_covar Fs) = ncols (sr_observation_func Fs z' t)"
    "ncols (sr_obser_noise_covar Fs) = ncols (sr_observation_func Fs z' t)"
    "0 < ncols (sr_observation_func Fs z' t)"
    "eigh_valid (esrf_c_matrix Fs z' t) (eigh L (esrf_c_matrix Fs z' t))"
  show "list_all (\<lambda>w. w = 0) (fst (eigh L (esrf_c_matrix Fs z' t)))"
    by (rule esrf_single_particle(1)[OF a])
  show "esrf_analysis_update L Fs z' x t = ([], Inl (FloatingPointError DivideByZero))"
    by (rule esrf_single_particle(2)[OF a])
next
  assume a: "nrows z' = 1" "nrows (wb_observation_func Fw z' t) = 1"
    "preci_shape (ncols (wb_observation_func Fw z' t)) (wb_obser_noise_preci Fw)"
    "length x = ncols (wb_observation_func Fw z' t)"
    "solve_valid (wb_d_matrix Fw z' t) (wb_c_matrix Fw z' t)
      (solve L (wb_d_matrix Fw z' t) (wb_c_matrix Fw z' t))"
  show "singular (wb_d_matrix Fw z' t)"
    by (rule woodbury_single_particle(1)[OF a])
  show "woodbury_analysis_update L Fw z' x t = ([], Inl LinAlgError)"
    by (rule woodbury_single_particle(2)[OF a])
next
  assume a: "nrows z' = 1" "nrows xf' = 1" "ncols xf' = length x"
    "length sd = length x" "length w = length x"
    "list_all (\<lambda>s. s \<noteq> 0) sd" "list_all (\<lambda>a. 0 \<le> a) w" "inflation_factor Fl \<noteq> 0"
    "svd_valid (le_scaled xf' w sd) (svd L (le_scaled xf' w sd))"
  show "le_eigval_p_inv L Fl (nrows z') xf' w sd = [0]"
    by (rule letkf_single_particle(1)[OF a])
  show "local_analysis_update L Fl z' xf' x sd w = ([], Inl (FloatingPointError DivideByZero))"
    by (rule letkf_single_particle(2)[OF a])
qed

lemma z1_facts [simp]: "nrows z1 = 1" "ncols z1 = 1"
  by (simp_all add: z1_def)

lemma pos_def_1x1:
  assumes "0 < a"
  shows "pos_def (Mat 1 1 [[a]])"
proof -
  have "0 < quad (Mat 1 1 [[a]]) v" if "nonzero_vec 1 v" for v
  proof -
    from that obtain b where v: "v = [b]" "b \<noteq> 0"
      by (cases v) (auto simp: nonzero_vec_def)
    have "quad (Mat 1 1 [[a]]) v = a * b\<^sup>2"
      by (simp add: quad_def v power2_eq_square)
    then show ?thesis
      using assms v by simp
  qed
  then show ?thesis
    by (simp add: pos_def_def)
qed

lemma eigh_valid_1x1: "eigh_valid (Mat 1 1 [[a]]) ([a], eye 1)"
  by (simp add: eigh_valid_def shaped_def mmul_eye_right wf_mat_def)
    (simp add: zip_row_def eye_def mat_of_def)

lemma esrf0_z1_c_matrix: "esrf_c_matrix esrf0 z1 0 = Mat 1 1 [[0]]"
  by (simp add: esrf_c_matrix_def zip_m_def mmul_def tp_def smul_def mat_of_def center_def
      zip_row_def mean_cols_def vec_of_def)

lemma wb0_preci [simp]: "preci_matrix (Suc 0) (Scalar 1) = Mat 1 1 [[1]]"
  by (simp add: preci_matrix_def smul_def eye_def mat_of_def)

lemma wb0_solve_valid:
  "solve_valid (wb_d_matrix wb0 z0 0) (wb_c_matrix wb0 z0 0)
     (solve L0 (wb_d_matrix wb0 z0 0) (wb_c_matrix wb0 z0 0))"
proof -
  have ns: "\<not> singular (wb_d_matrix wb0 z0 0)"
    by (rule woodbury_d_nonsingular)
      (simp_all add: preci_shape_def pos_def_1x1[unfolded One_nat_def])
  have e: "solve0 (Mat 2 2 [[2, -1], [-1, 2]]) (Mat 2 2 [[1, -1], [-1, 1]])
      = Some (Mat 2 2 [[1/3, - (1/3)], [- (1/3), 1/3]])"
    by (simp add: solve0_def mmul_def smul_def mat_of_def numeral_2_eq_2)
  have m: "mmul (Mat 2 2 [[2, -1], [-1, 2]]) (Mat 2 2 [[1/3, - (1/3)], [- (1/3), 1/3]])
      = Mat 2 2 [[1, -1], [-1, 1]]"
    by (simp add: mmul_def mat_of_def numeral_2_eq_2)
  show ?thesis
    using ns by (simp add: solve_valid_def wb0_d_matrix wb0_c_matrix e m shaped_def wf_mat_def)
qed

lemma wb0_z1_solve_valid:
  "solve_valid (wb_d_matrix wb0 z1 0) (wb_c_matrix wb0 z1 0)
     (solve L0 (wb_d_matrix wb0 z1 0) (wb_c_matrix wb0 z1 0))"
proof -
  have d: "wb_d_matrix wb0 z1 0 = mat_of 1 1 (\<lambda>i j. 0)"
    by (rule wb_d_single) (simp_all add: preci_shape_def)
  have "solve0 (mat_of 1 1 (\<lambda>i j. 0)) B = None" for B
    by (simp add: solve0_def)
  then show ?thesis
    using singular_zero by (simp add: solve_valid_def d)
qed

lemma letkf0_z1_scaled: "le_scaled z1 [0] [1] = mat_of 1 1 (\<lambda>i j. 0)"
  by (auto simp: le_scaled_def le_eff_def zip_v_def vec_of_def zip_row_def intro!: mat_of_cong)

theorem division_safety_witness:
  "esrf_consistent L0 esrf0 z0 x0 0 \<and> 1 < nrows z0 \<and> pos_def (sr_obser_noise_covar esrf0) \<and>
   eigh_valid (esrf_c_matrix esrf0 z0 0) (eigh L0 (esrf_c_matrix esrf0 z0 0)) \<and>
   fst (eigh L0 (esrf_c_matrix esrf0 z0 0)) = [3] \<and>
   (\<exists>ws r. esrf_analysis_update L0 esrf0 z0 x0 0 = (ws, Inr r)) \<and>
   woodbury_consistent L0 wb0 z0 x0 0 \<and>
   pos_def (preci_matrix (length x0) (wb_obser_noise_preci wb0)) \<and>
   solve_valid (wb_d_matrix wb0 z0 0) (wb_c_matrix wb0 z0 0)
      (solve L0 (wb_d_matrix wb0 z0 0) (wb_c_matrix wb0 z0 0)) \<and>
   \<not> singular (wb_d_matrix wb0 z0 0) \<and>
   (\<exists>ws r. woodbury_analysis_update L0 wb0 z0 x0 0 = (ws, Inr r)) \<and>
   letkf_consistent L0 letkf0 z0 (obs0 z0 0) x0 [1] [0] \<and>
   list_all (\<lambda>a. 0 < a) (le_eigval_p_inv L0 letkf0 (nrows z0) (obs0 z0 0) [0] [1]) \<and>
   (\<exists>r. local_analysis_update L0 letkf0 z0 (obs0 z0 0) x0 [1] [0] = ([], Inr r)) \<and>
   nrows z1 = 1 \<and> nrows (sr_observation_func esrf0 z1 0) = 1 \<and>
   0 < ncols (sr_observation_func esrf0 z1 0) \<and>
   eigh_valid (esrf_c_matrix esrf0 z1 0) (eigh L0 (esrf_c_matrix esrf0 z1 0)) \<and>
   list_all (\<lambda>w. w = 0) (fst (eigh L0 (esrf_c_matrix esrf0 z1 0))) \<and>
   esrf_analysis_update L0 esrf0 z1 x0 0 = ([], Inl (FloatingPointError DivideByZero)) \<and>
   solve_valid (wb_d_matrix wb0 z1 0) (wb_c_matrix wb0 z1 0)
      (solve L0 (wb_d_matrix wb0 z1 0) (wb_c_matrix wb0 z1 0)) \<and>
   singular (wb_d_matrix wb0 z1 0) \<and>
   woodbury_analysis_update L0 wb0 z1 x0 0 = ([], Inl LinAlgError) \<and>
   svd_valid (le_scaled z1 [0] [1]) (svd L0 (le_scaled z1 [0] [1])) \<and>
   le_eigval_p_inv L0 letkf0 (nrows z1) z1 [0] [1] = [0] \<and>
   local_analysis_update L0 letkf0 z1 z1 x0 [1] [0] = ([], Inl (FloatingPointError DivideByZero))"
proof -
  have a1: "pos_def (sr_obser_noise_covar esrf0)"
    by (simp add: pos_def_1x1[unfolded One_nat_def])
  have a2: "eigh_valid (esrf_c_matrix esrf0 z0 0) (eigh L0 (esrf_c_matrix esrf0 z0 0))"
    using eigh_valid_1x1[of 3] by (simp add: esrf0_c_matrix eigh0_def)
  have a3: "fst (eigh L0 (esrf_c_matrix esrf0 z0 0)) = [3]"
    by (simp add: esrf0_c_matrix eigh0_def)
  have b1: "pos_def (preci_matrix (length x0) (wb_obser_noise_preci wb0))"
    by (simp add: x0_def pos_def_1x1[unfolded One_nat_def])
  have c1: "eigh_valid (esrf_c_matrix esrf0 z1 0) (eigh L0 (esrf_c_matrix esrf0 z1 0))"
    using eigh_valid_1x1[of 0] by (simp add: esrf0_z1_c_matrix eigh0_def)
  have c2: "svd_valid (le_scaled z1 [0] [1]) (svd L0 (le_scaled z1 [0] [1]))"
    using svd0_valid_zero[OF letkf0_z1_scaled] by simp
  have h: "1 < nrows z0" "nrows z1 = 1" "nrows (sr_observation_func esrf0 z1 0) = 1"
    "0 < ncols (sr_observation_func esrf0 z1 0)"
    by simp_all
  note t = division_safety [of L0 esrf0 z0 x0 0 wb0 letkf0 "obs0 z0 0" "[1]" "[0]" z1 z1]
  show ?thesis
    using t esrf0_consistent a1 a2 a3 wb0_L0_consistent b1 wb0_solve_valid letkf0_consistent
      c1 c2 wb0_z1_solve_valid h
    by (simp add: x0_def preci_shape_def letkf0_def)
qed

lemma double_0 [simp]: "double 0 = 0"
  by (simp add: double_def)

lemma double_near:
  fixes n :: int and r :: real and e :: int
  assumes r: "0 \<le> r" "r < 1/2"
    and n: "2 ^ 52 \<le> \<bar>of_int n + r\<bar>" "\<bar>of_int n + r\<bar> < 2 ^ 53"
  shows "double ((of_int n + r) * 2 powr (of_int e - 52)) = of_int n * 2 powr (of_int e - 52)"
proof -
  define u :: real where "u = 2 powr (of_int e - 52)"
  define x where "x = (of_int n + r) * u"
  have u: "0 < u" by (simp add: u_def)
  have ue: "2 powr (of_int e) = 2 ^ 52 * u"
    unfolding u_def by (simp add: powr_diff)
  have ue1: "2 powr (of_int (e + 1)) = 2 ^ 53 * u"
    unfolding u_def by (simp add: powr_diff powr_add)
  have ax: "\<bar>x\<bar> = \<bar>of_int n + r\<bar> * u"
    using u by (simp add: x_def abs_mult)
  have x0: "x \<noteq> 0"
    using n(1) u by (auto simp: x_def)
  have "\<lfloor>log 2 \<bar>x\<bar>\<rfloor> = e"
  proof (subst floor_log_eq_powr_iff)
    show "0 < \<bar>x\<bar>" using x0 by simp
    show "(1::real) < 2" by simp
    show "2 powr of_int e \<le> \<bar>x\<bar> \<and> \<bar>x\<bar> < 2 powr of_int (e + 1)"
      unfolding ue ue1 ax using n u by simp
  qed
  then have ulp: "2 powr (of_int \<lfloor>log 2 \<bar>x\<bar>\<rfloor> - 52) = u"
    by (simp add: u_def)
  have q: "x / u = of_int n + r"
    using u by (simp add: x_def)
  have f: "\<lfloor>of_int n + r\<rfloor> = n"
    using r by linarith
  have "double x = of_int n * u"
    unfolding double_def Let_def ulp q f using x0 r by simp
  then show ?thesis
    by (simp add: x_def u_def)
qed


lemma double_vals:
  "double 2 = 2" "double 4 = 4" "double (2 + 1 / 2 ^ 60) = 2"
  "double (2 ^ 60) = 2 ^ 60" "double (- (2 ^ 60)) = - (2 ^ 60)" "double (1 + 2 ^ 60) = 2 ^ 60"
proof -
  have p: "2 powr (- 51) = (1 / 2 ^ 51 :: real)"
    "2 powr (- 50) = (1 / 2 ^ 50 :: real)"
    "2 powr 8 = (2 ^ 8 :: real)"
    by (simp_all add: powr_minus_divide)
  show "double 2 = 2"
    using double_near [of 0 "2 ^ 52" 1] by (simp add: p)
  show "double 4 = 4"
    using double_near [of 0 "2 ^ 52" 2] by (simp add: p)
  show "double (2 + 1 / 2 ^ 60) = 2"
    using double_near [of "1 / 2 ^ 9" "2 ^ 52" 1] by (simp add: p)
  show "double (2 ^ 60) = 2 ^ 60"
    using double_near [of 0 "2 ^ 52" 60] by (simp add: p)
  show "double (- (2 ^ 60)) = - (2 ^ 60)"
    using double_near [of 0 "- (2 ^ 52)" 60] by (simp add: p)
  show "double (1 + 2 ^ 60) = 2 ^ 60"
    using double_near [of "1 / 2 ^ 8" "2 ^ 52" 60] by (simp add: p)
qed


lemma esrf_zero_eigenvalue:
  assumes c: "esrf_consistent L F z x t"
    and D: "0 < length x"
    and ex: "list_ex (\<lambda>w. w = 0) (fst (eigh L (esrf_c_matrix F z t)))"
  shows "esrf_analysis_update L F z x t = ([], Inl (FloatingPointError DivideByZero))"
proof -
  have N: "0 < nrows z" and X: "nrows (sr_observation_func F z t) = nrows z"
    "ncols (sr_observation_func F z t) = length x"
    and R: "nrows (sr_obser_noise_covar F) = length x" "ncols (sr_obser_noise_covar F) = length x"
    and sh: "length (fst (eigh L (esrf_c_matrix F z t))) = length x"
      "nrows (snd (eigh L (esrf_c_matrix F z t))) = length x"
      "ncols (snd (eigh L (esrf_c_matrix F z t))) = length x"
    using c by (simp_all add: esrf_consistent_def Let_def eig_shape_def)
  show ?thesis
    using N X R D sh ex
    by (simp add: esrf_analysis_update_def Let_def mean0_pos broadcast2_row_r broadcast2_same
        dot_simps la_eigh_def center_def[symmetric]
        esrf_c_matrix_def[symmetric, unfolded Let_def] split_beta divide2_row)
      (simp add: raise_def)
qed

lemma woodbury_solve_fails:
  assumes c: "woodbury_consistent L F z x t"
    and none: "solve L (wb_d_matrix F z t) (wb_c_matrix F z t) = None"
  shows "woodbury_analysis_update L F z x t = ([], Inl LinAlgError)"
proof -
  have N: "0 < nrows z" and X: "nrows (wb_observation_func F z t) = nrows z"
    "ncols (wb_observation_func F z t) = length x"
    and P: "preci_shape (length x) (wb_obser_noise_preci F)"
    using c by (simp_all add: woodbury_consistent_def Let_def)
  show ?thesis
    using N X P
    by (simp add: woodbury_analysis_update_def Let_def mean0_pos broadcast2_row_r
        broadcast2_same broadcast1_same dot_simps la_solve_def center_def[symmetric]
        a_matrix_of_shape wb_c_matrix_def[symmetric, unfolded Let_def]
        wb_d_matrix_def[symmetric] none)
      (simp add: raise_def)
qed


lemma L_double_facts [simp]: "eigh L_double = eigh_double" "solve L_double = solve_double"
  by (simp_all add: L_double_def L0_def)

lemma eigh_double_shape: "nrows A = 2 \<Longrightarrow> eig_shape 2 (eigh_double A)"
  by (simp add: eigh_double_def eig_shape_def eigh0_def smul_def Let_def)

lemma map_m_2x2:
  "map_m f (Mat 2 2 [[a, b], [c, d]]) = Mat 2 2 [[f a, f b], [f c, f d]]"
  by (simp add: map_m_def mat_of_def numeral_2_eq_2)

lemma esrf_small_facts [simp]: "sr_observation_func esrf_small = obs0"
  "sr_obser_noise_covar esrf_small = Mat 2 2 [[1 / 2 ^ 60, 0], [0, 1 / 2 ^ 60]]"
  by (simp_all add: esrf_small_def esrf_init_def mmul_def tp_def smul_def eye_def mat_of_def
      numeral_2_eq_2)

lemma esrf_small_c_matrix:
  "esrf_c_matrix esrf_small z2 0 = Mat 2 2 [[2 + 1 / 2 ^ 60, 2], [2, 2 + 1 / 2 ^ 60]]"
  by (simp add: esrf_c_matrix_def zip_m_def mmul_def tp_def smul_def mat_of_def
      numeral_2_eq_2) (simp add: z2_def)

lemma esrf_small_eigenvalues:
  "fst (eigh L_double (esrf_c_matrix esrf_small z2 0)) = [0, 4]"
proof -
  have "map_m double (Mat 2 2 [[2 + 1 / 2 ^ 60, 2], [2, 2 + 1 / 2 ^ 60]])
      = Mat 2 2 [[2, 2], [2, 2]]"
    by (simp only: map_m_2x2 double_vals)
  then have "fst (eigh_double (Mat 2 2 [[2 + 1 / 2 ^ 60, 2], [2, 2 + 1 / 2 ^ 60]]))
      = map double [0, 4]"
    by (simp add: eigh_double_def eigh0_def Let_def)
  then show ?thesis
    by (simp only: esrf_small_c_matrix L_double_facts list.map double_vals double_0)
qed

lemma pos_def_diag2:
  assumes "0 < a"
  shows "pos_def (Mat 2 2 [[a, 0], [0, a]])"
proof -
  have "0 < quad (Mat 2 2 [[a, 0], [0, a]]) v" if "nonzero_vec 2 v" for v
  proof -
    from that obtain b c where v: "v = [b, c]" "b \<noteq> 0 \<or> c \<noteq> 0"
      by (cases v; cases "tl v") (auto simp: nonzero_vec_def)
    have "quad (Mat 2 2 [[a, 0], [0, a]]) v = a * (b\<^sup>2 + c\<^sup>2)"
      by (simp add: quad_def v power2_eq_square sum_lessThan_2 algebra_simps)
    moreover have "0 < b\<^sup>2 + c\<^sup>2"
      using v(2) by (auto simp: sum_power2_gt_zero_iff)
    ultimately show ?thesis
      using assms by simp
  qed
  then show ?thesis
    by (simp add: pos_def_def)
qed

lemma esrf_small_consistent: "esrf_consistent L_double esrf_small z2 [3, 3] 0"
  using eigh_double_shape [of "esrf_c_matrix esrf_small z2 0"]
    eigh_double_shape [of "esrf_m_matrix L_double esrf_small z2 0"]
  by (simp add: esrf_consistent_def numeral_2_eq_2)

lemma wb_sharp_facts [simp]: "wb_observation_func wb_sharp = obs0"
  "wb_obser_noise_preci wb_sharp = Scalar (2 ^ 60)"
  by (simp_all add: wb_sharp_def)

lemma wb_sharp_c_matrix:
  "wb_c_matrix wb_sharp z0 0 = Mat 2 2 [[2 ^ 60, - (2 ^ 60)], [- (2 ^ 60), 2 ^ 60]]"
  by (simp add: wb_c_matrix_def wb_a_matrix_def mmul_def tp_def smul_def mat_of_def
      numeral_2_eq_2) (simp add: z0_def)

lemma wb_sharp_d_matrix:
  "wb_d_matrix wb_sharp z0 0 = Mat 2 2 [[1 + 2 ^ 60, - (2 ^ 60)], [- (2 ^ 60), 1 + 2 ^ 60]]"
  by (simp add: wb_d_matrix_def wb_sharp_c_matrix zip_m_def smul_def eye_def mat_of_def
      numeral_2_eq_2)

lemma wb_sharp_rounded:
  "map_m double (wb_d_matrix wb_sharp z0 0)
     = Mat 2 2 [[2 ^ 60, - (2 ^ 60)], [- (2 ^ 60), 2 ^ 60]]"
  by (simp only: wb_sharp_d_matrix map_m_2x2 double_vals)

lemma wb_sharp_solve:
  "solve L_double (wb_d_matrix wb_sharp z0 0) (wb_c_matrix wb_sharp z0 0) = None"
  by (simp add: solve_double_def wb_sharp_rounded solve0_def)

lemma wb_sharp_consistent: "woodbury_consistent L_double wb_sharp z0 x0 0"
  by (simp add: woodbury_consistent_def x0_def preci_shape_def eigh_double_shape)

lemma wb_sharp_preci: "preci_matrix (length x0) (Scalar (2 ^ 60)) = Mat 1 1 [[2 ^ 60]]"
  by (simp add: preci_matrix_def smul_def eye_def mat_of_def x0_def)

text \<open>The claim as stated, without the restriction to exact arithmetic. In double precision
  \<open>2 + 1 / 2 ^ 60\<close> is 2 and \<open>1 + 2 ^ 60\<close> is \<open>2 ^ 60\<close>. With the two particles \<open>(1, 1)\<close> and
  \<open>(-1, -1)\<close> and the positive definite noise covariance \<open>(1 / 2 ^ 60) I\<close>, the matrix \<open>c\<close> that
  \<^verbatim>\<open>eigh\<close> receives is stored as \<open>[[2, 2], [2, 2]]\<close>: its eigenvalues are 0 and 4, and the
  square-root update divides by 0. With the two particles \<open>1\<close> and \<open>-1\<close> and the positive
  precision \<open>2 ^ 60\<close>, the matrix \<open>d\<close> that \<^verbatim>\<open>solve\<close> receives is stored as
  \<open>2 ^ 60 [[1, -1], [-1, 1]]\<close>, which is singular, and \<^verbatim>\<open>solve\<close> raises.\<close>

theorem division_safety_counterexample:
  "esrf_consistent L_double esrf_small z2 [3, 3] 0 \<and> 1 < nrows z2 \<and>
   pos_def (sr_obser_noise_covar esrf_small) \<and>
   double (2 + 1 / 2 ^ 60) = 2 \<and>
   fst (eigh L_double (esrf_c_matrix esrf_small z2 0)) = [0, 4] \<and>
   esrf_analysis_update L_double esrf_small z2 [3, 3] 0
     = ([], Inl (FloatingPointError DivideByZero)) \<and>
   woodbury_consistent L_double wb_sharp z0 x0 0 \<and>
   pos_def (preci_matrix (length x0) (wb_obser_noise_preci wb_sharp)) \<and>
   double (1 + 2 ^ 60) = 2 ^ 60 \<and>
   solve L_double (wb_d_matrix wb_sharp z0 0) (wb_c_matrix wb_sharp z0 0) = None \<and>
   woodbury_analysis_update L_double wb_sharp z0 x0 0 = ([], Inl LinAlgError)"
proof -
  have a: "pos_def (sr_obser_noise_covar esrf_small)"
    by (simp add: pos_def_diag2)
  have b: "esrf_analysis_update L_double esrf_small z2 [3, 3] 0
     = ([], Inl (FloatingPointError DivideByZero))"
    using esrf_small_eigenvalues
    by (intro esrf_zero_eigenvalue[OF esrf_small_consistent]) simp_all
  have c: "pos_def (preci_matrix (length x0) (wb_obser_noise_preci wb_sharp))"
    unfolding wb_sharp_facts wb_sharp_preci by (rule pos_def_1x1) simp
  have d: "woodbury_analysis_update L_double wb_sharp z0 x0 0 = ([], Inl LinAlgError)"
    by (rule woodbury_solve_fails[OF wb_sharp_consistent wb_sharp_solve])
  have e: "1 < nrows z2"
    by simp
  show ?thesis
    by (intro conjI esrf_small_consistent e a double_vals esrf_small_eigenvalues b
        wb_sharp_consistent c wb_sharp_solve d)
qed

section \<open>The two square-root updates agree on the mean\<close>

lemma vmul_assoc:
  assumes "length v = nrows A" "ncols A = nrows B"
  shows "vmul (vmul v A) B = vmul v (mmul A B)"
proof -
  have "(\<Sum>k<ncols A. (\<Sum>l<nrows A. v ! l * el A l k) * el B k j)
      = (\<Sum>l<nrows A. v ! l * (\<Sum>k<ncols A. el A l k * el B k j))" for j
  proof -
    have "(\<Sum>k<ncols A. (\<Sum>l<nrows A. v ! l * el A l k) * el B k j)
        = (\<Sum>k<ncols A. \<Sum>l<nrows A. v ! l * (el A l k * el B k j))"
      by (simp add: sum_distrib_right mult.assoc)
    also have "\<dots> = (\<Sum>l<nrows A. \<Sum>k<ncols A. v ! l * (el A l k * el B k j))"
      by (rule sum.swap)
    finally show ?thesis by (simp add: sum_distrib_left)
  qed
  then show ?thesis
    using assms by (subst vec_eq_iff) simp
qed

lemma vmul_sub:
  assumes "nrows A = nrows B" "ncols A = ncols B" "length v = nrows A"
  shows "zip_v (-) (vmul v A) (vmul v B) = vmul v (zip_m (-) A B)"
proof -
  have "(\<Sum>k<length v. v ! k * el A k i) - (\<Sum>k<length v. v ! k * el B k i)
      = (\<Sum>k<length v. v ! k * el (zip_m (-) A B) k i)" if "i < ncols B" for i
  proof -
    have "(\<Sum>k<length v. v ! k * el (zip_m (-) A B) k i)
        = (\<Sum>k<length v. v ! k * el A k i - v ! k * el B k i)"
      using assms that by (intro sum.cong refl) (simp add: right_diff_distrib)
    then show ?thesis by (simp add: sum_subtractf)
  qed
  then show ?thesis
    using assms by (subst vec_eq_iff) simp
qed

lemma vmul_smul_right:
  assumes "length v = nrows A"
  shows "vmul v (smul k A) = map (\<lambda>a. k * a) (vmul v A)"
proof -
  have "(\<Sum>l<length v. v ! l * el (smul k A) l i) = k * (\<Sum>l<length v. v ! l * el A l i)"
    if "i < ncols A" for i
  proof -
    have "(\<Sum>l<length v. v ! l * el (smul k A) l i) = (\<Sum>l<length v. k * (v ! l * el A l i))"
      using assms that by (intro sum.cong refl) simp
    then show ?thesis by (simp add: sum_distrib_left)
  qed
  then show ?thesis
    by (subst vec_eq_iff) simp
qed

lemma vmul_scale_left:
  "vmul (map (\<lambda>a. k * a) u) A = map (\<lambda>a. k * a) (vmul u A)"
  by (subst vec_eq_iff) (simp add: sum_distrib_left mult_ac)

lemma zip_m_add_commute:
  "nrows A = nrows B \<Longrightarrow> ncols A = ncols B \<Longrightarrow> zip_m (+) A B = zip_m (+) B A"
  by (intro mat_eqI) simp_all

lemma shifted_minus:
  assumes "nrows c = n" "ncols c = n"
  shows "zip_m (-) (zip_m (+) (smul k (eye n)) c) c = smul k (eye n)"
  using assms by (intro mat_eqI) simp_all

lemma mvmul_eye: "length u = n \<Longrightarrow> mvmul (eye n) u = u"
  by (subst vec_eq_iff) (simp add: sum_delta_left)

lemma inverse_pos_def:
  assumes R: "pos_def R" and RP: "mmul R P = eye n"
    and sh: "nrows R = n" "nrows P = n" "ncols P = n"
  shows "pos_def P"
proof -
  have Rc: "ncols R = n" using R sh by (simp add: pos_def_def)
  have "0 < quad P u" if u: "nonzero_vec n u" for u
  proof -
    define y where "y = mvmul P u"
    have lu: "length u = n" using u by (simp add: nonzero_vec_def)
    have ly: "length y = n" by (simp add: y_def sh)
    have Ry: "mvmul R y = u"
      using mvmul_mmul[of R P u] Rc sh by (simp add: y_def RP mvmul_eye lu)
    have "nonzero_vec n y"
    proof (rule ccontr)
      assume "\<not> nonzero_vec n y"
      then have "\<forall>a\<in>set y. a = 0" using ly by (auto simp: nonzero_vec_def list_ex_iff)
      then have y0: "\<And>i. i < n \<Longrightarrow> y ! i = 0" using ly by simp
      have "mvmul R y ! i = 0" if "i < n" for i
        using that sh Rc y0 by simp
      then have "\<And>i. i < n \<Longrightarrow> u ! i = 0" by (simp add: Ry)
      then have "\<forall>a\<in>set u. a = 0" using lu by (auto simp: in_set_conv_nth)
      then show False using u by (auto simp: nonzero_vec_def list_ex_iff)
    qed
    then have pos: "0 < quad R y"
      using R sh by (simp add: pos_def_def)
    have "quad P u = (\<Sum>a<n. u ! a * y ! a)"
      by (simp add: quad_dot sh y_def)
    also have "\<dots> = (\<Sum>a<n. y ! a * mvmul R y ! a)"
      by (simp add: Ry mult.commute)
    also have "\<dots> = quad R y"
      by (simp add: quad_dot sh)
    finally show ?thesis using pos by simp
  qed
  then show ?thesis
    using sh by (simp add: pos_def_def)
qed

text \<open>The push-through identity behind the Woodbury form: with \<open>C = X\<^sup>T X + k R\<close>, a left
  inverse \<open>Ci\<close> of \<open>C\<close>, \<open>R P = I\<close>, \<open>A = P X\<^sup>T\<close>, \<open>c = X A\<close>, \<open>d = k I + c\<close> and \<open>d e = c\<close>,
  the matrix \<open>A - A e\<close> is \<open>k Ci X\<^sup>T\<close>.\<close>

lemma push_through:
  assumes X: "nrows X = n" "ncols X = m"
    and R: "nrows R = m" "ncols R = m"
    and P: "nrows P = m" "ncols P = m"
    and Ci: "nrows Ci = m" "ncols Ci = m"
    and e: "nrows e = n" "ncols e = n"
    and CiC: "mmul Ci (zip_m (+) (mmul (tp X) X) (smul k R)) = eye m"
    and RP: "mmul R P = eye m"
    and de: "mmul (zip_m (+) (smul k (eye n)) (mmul X (mmul P (tp X)))) e
             = mmul X (mmul P (tp X))"
  shows "zip_m (-) (mmul P (tp X)) (mmul (mmul P (tp X)) e) = smul k (mmul Ci (tp X))"
proof -
  define A where "A = mmul P (tp X)"
  define c where "c = mmul X A"
  define d where "d = zip_m (+) (smul k (eye n)) c"
  define C where "C = zip_m (+) (mmul (tp X) X) (smul k R)"
  define G where "G = mmul Ci (tp X)"
  have sh [simp]: "nrows A = m" "ncols A = n" "nrows c = n" "ncols c = n" "nrows d = n"
    "ncols d = n" "nrows C = m" "ncols C = m" "nrows G = m" "ncols G = n"
    using X R P Ci by (simp_all add: A_def c_def d_def C_def G_def)
  note [simp] = X R P Ci e
  have CA: "mmul C A = mmul (tp X) d"
  proof -
    have "mmul C A = zip_m (+) (mmul (mmul (tp X) X) A) (mmul (smul k R) A)"
      unfolding C_def by (rule mmul_add_left) simp_all
    also have "mmul (mmul (tp X) X) A = mmul (tp X) c"
      by (simp add: mmul_assoc c_def)
    also have "mmul (smul k R) A = smul k (mmul (mmul R P) (tp X))"
      by (simp add: mmul_smul_left A_def mmul_assoc)
    also have "\<dots> = smul k (tp X)"
      by (simp add: RP mmul_eye_left)
    finally have l: "mmul C A = zip_m (+) (mmul (tp X) c) (smul k (tp X))" .
    have "mmul (tp X) d = zip_m (+) (mmul (tp X) (smul k (eye n))) (mmul (tp X) c)"
      unfolding d_def by (rule mmul_add_right) simp_all
    also have "mmul (tp X) (smul k (eye n)) = smul k (tp X)"
      by (simp add: mmul_smul_right mmul_eye_right)
    finally have r: "mmul (tp X) d = zip_m (+) (smul k (tp X)) (mmul (tp X) c)" .
    show ?thesis
      unfolding l r by (rule zip_m_add_commute) simp_all
  qed
  have "A = mmul (mmul Ci C) A"
    using CiC by (simp add: C_def[symmetric] mmul_eye_left A_def)
  also have "\<dots> = mmul Ci (mmul (tp X) d)"
    by (simp add: mmul_assoc CA)
  also have "\<dots> = mmul G d"
    by (simp add: mmul_assoc G_def)
  finally have A: "A = mmul G d" .
  have "mmul A e = mmul G (mmul d e)"
    by (subst A) (simp add: mmul_assoc)
  also have "mmul d e = c"
    using de by (simp add: d_def c_def A_def)
  finally have Ae: "mmul A e = mmul G c" .
  have "zip_m (-) A (mmul A e) = zip_m (-) (mmul G d) (mmul G c)"
    using A Ae by simp
  also have "\<dots> = mmul G (zip_m (-) d c)"
    by (rule mmul_sub_right[symmetric]) simp_all
  also have "zip_m (-) d c = smul k (eye n)"
    unfolding d_def by (rule shifted_minus) simp_all
  also have "mmul G (smul k (eye n)) = smul k G"
    by (simp add: mmul_smul_right mmul_eye_right G_def)
  finally show ?thesis
    by (simp add: A_def G_def)
qed

lemma gain_forms_agree:
  assumes X: "nrows X = n" "ncols X = m"
    and R: "nrows R = m" "ncols R = m"
    and P: "nrows P = m" "ncols P = m"
    and Ci: "nrows Ci = m" "ncols Ci = m"
    and e: "nrows e = n" "ncols e = n"
    and Z: "nrows Z = n" and err: "length err = m" and k: "k \<noteq> 0"
    and CiC: "mmul Ci (zip_m (+) (mmul (tp X) X) (smul k R)) = eye m"
    and RP: "mmul R P = eye m"
    and de: "mmul (zip_m (+) (smul k (eye n)) (mmul X (mmul P (tp X)))) e
             = mmul X (mmul P (tp X))"
  shows "vmul err (mmul Ci (mmul (tp X) Z))
       = map (\<lambda>a. a / k)
           (vmul (zip_v (-) (vmul err (mmul P (tp X)))
                    (vmul (vmul err (mmul P (tp X))) e)) Z)"
proof -
  define A where "A = mmul P (tp X)"
  define G where "G = mmul Ci (tp X)"
  note [simp] = X R P Ci e Z err
  have sh [simp]: "nrows A = m" "ncols A = n" "nrows G = m" "ncols G = n"
    by (simp_all add: A_def G_def)
  have pt: "zip_m (-) A (mmul A e) = smul k G"
    unfolding A_def G_def by (rule push_through[OF X R P Ci e CiC RP de])
  have "zip_v (-) (vmul err A) (vmul (vmul err A) e)
      = zip_v (-) (vmul err A) (vmul err (mmul A e))"
    by (simp add: vmul_assoc)
  also have "\<dots> = vmul err (zip_m (-) A (mmul A e))"
    by (rule vmul_sub) simp_all
  also have "\<dots> = map (\<lambda>a. k * a) (vmul err G)"
    unfolding pt by (rule vmul_smul_right) simp
  finally have b: "zip_v (-) (vmul err A) (vmul (vmul err A) e) = map (\<lambda>a. k * a) (vmul err G)" .
  have "map (\<lambda>a. a / k) (vmul (zip_v (-) (vmul err A) (vmul (vmul err A) e)) Z)
      = map (\<lambda>a. a / k) (map (\<lambda>a. k * a) (vmul (vmul err G) Z))"
    by (simp only: b vmul_scale_left)
  also have "\<dots> = vmul (vmul err G) Z"
    using k by (simp add: comp_def)
  also have "\<dots> = vmul err (mmul G Z)"
    by (rule vmul_assoc) simp_all
  also have "mmul G Z = mmul Ci (mmul (tp X) Z)"
    unfolding G_def by (rule mmul_assoc) simp_all
  finally show ?thesis
    by (simp add: A_def)
qed

text \<open>
  Claim C1. For a forecast ensemble of at least two particles, a deterministic observation
  function and a positive definite noise covariance \<open>R\<close>, the square-root update with
  covariance \<open>R\<close> and the Woodbury update with a precision whose matrix is the inverse of \<open>R\<close>
  both return, and they return the same analysis mean, in exact arithmetic.
\<close>

theorem square_root_and_woodbury_means_agree:
  assumes s: "esrf_consistent L Fs z x t" and w: "woodbury_consistent L Fw z x t"
    and obs: "wb_observation_func Fw z t = sr_observation_func Fs z t"
    and R: "pos_def (sr_obser_noise_covar Fs)"
    and inv: "mmul (sr_obser_noise_covar Fs)
                (preci_matrix (length x) (wb_obser_noise_preci Fw)) = eye (length x)"
    and ev: "eigh_valid (esrf_c_matrix Fs z t) (eigh L (esrf_c_matrix Fs z t))"
    and sv: "solve_valid (wb_d_matrix Fw z t) (wb_c_matrix Fw z t)
               (solve L (wb_d_matrix Fw z t) (wb_c_matrix Fw z t))"
  shows "\<exists>ws1 za1 m1 s1 ws2 za2 m2 s2.
     esrf_analysis_update L Fs z x t = (ws1, Inr (za1, m1, s1)) \<and>
     woodbury_analysis_update L Fw z x t = (ws2, Inr (za2, m2, s2)) \<and>
     m1 = m2"
proof -
  define m where "m = length x"
  define n where "n = nrows z"
  define xf where "xf = sr_observation_func Fs z t"
  define X where "X = center xf"
  define R' where "R' = sr_obser_noise_covar Fs"
  define P where "P = preci_matrix m (wb_obser_noise_preci Fw)"
  define k where "k = real n - 1"
  have N: "1 < n" and Xsh: "nrows X = n" "ncols X = m"
    and Rsh: "nrows R' = m" "ncols R' = m"
    and ps: "preci_shape m (wb_obser_noise_preci Fw)"
    using s w by (simp_all add: esrf_consistent_def woodbury_consistent_def Let_def n_def m_def
        X_def xf_def R'_def)
  have Psh: "nrows P = m" "ncols P = m"
    using ps by (simp_all add: P_def)
  have k: "k \<noteq> 0" using N by (simp add: k_def)
  \<comment> \<open>the square-root update returns\<close>
  have xfc: "ncols (sr_observation_func Fs z t) = m"
    using Xsh(2) by (simp add: X_def xf_def)
  have pos: "\<forall>w\<in>set (fst (eigh L (esrf_c_matrix Fs z t))). 0 < w"
    using N Rsh R ev xfc
    by (intro esrf_eigenvalues_positive) (simp_all add: n_def R'_def)
  then have nz: "\<forall>w\<in>set (fst (eigh L (esrf_c_matrix Fs z t))). w \<noteq> 0"
    by auto
  note run1 = esrf_returns'[OF s nz]
  \<comment> \<open>the Woodbury update returns\<close>
  have Ppos: "pos_def P"
    using R inv Rsh Psh by (intro inverse_pos_def[of R' P m]) (simp_all add: R'_def P_def m_def)
  have ns: "\<not> singular (wb_d_matrix Fw z t)"
    using w Ppos by (intro woodbury_d_nonsingular)
      (simp_all add: woodbury_consistent_def Let_def P_def m_def)
  then obtain e where e: "solve L (wb_d_matrix Fw z t) (wb_c_matrix Fw z t) = Some e"
    "nrows e = n" "ncols e = n" "mmul (wb_d_matrix Fw z t) e = wb_c_matrix Fw z t"
    using sv w by (auto simp: solve_valid_def shaped_def n_def woodbury_consistent_def Let_def
        split: option.splits)
  have ss: "solve_shape L (wb_d_matrix Fw z t) (wb_c_matrix Fw z t)"
    using e w by (simp add: solve_shape_def n_def woodbury_consistent_def Let_def)
  note run2 = woodbury_returns'[OF w ss]
  \<comment> \<open>the means agree\<close>
  have A: "wb_a_matrix (wb_obser_noise_preci Fw) X = mmul P (tp X)"
    using ps Xsh by (simp add: wb_a_as_product P_def)
  have c: "wb_c_matrix Fw z t = mmul X (mmul P (tp X))"
    by (simp add: wb_c_matrix_def Let_def obs X_def[symmetric] xf_def[symmetric] A)
  have d: "wb_d_matrix Fw z t = zip_m (+) (smul k (eye n)) (mmul X (mmul P (tp X)))"
    by (simp add: wb_d_matrix_def c k_def n_def)
  have C: "esrf_c_matrix Fs z t = zip_m (+) (mmul (tp X) X) (smul k R')"
    by (simp add: esrf_c_matrix_def Let_def X_def xf_def R'_def k_def n_def)
  define Ci where "Ci = eig_inverse (eigh L (esrf_c_matrix Fs z t))"
  have Cish: "nrows Ci = m" "ncols Ci = m"
    using eigh_validD(2,3)[OF ev] Xsh
    by (simp_all add: Ci_def eig_inverse_def X_def xf_def)
  have CiC0: "mmul Ci (esrf_c_matrix Fs z t) = eye m"
    using eig_inverse_left[OF ev _ nz] xfc by (simp add: Ci_def)
  have CiC: "mmul Ci (zip_m (+) (mmul (tp X) X) (smul k R')) = eye m"
    using CiC0 unfolding C .
  have RP: "mmul R' P = eye m"
    using inv by (simp add: R'_def P_def m_def)
  have de: "mmul (zip_m (+) (smul k (eye n)) (mmul X (mmul P (tp X)))) e = mmul X (mmul P (tp X))"
    using e(4) by (simp add: d c)
  have Zsh: "nrows (center z) = n" by (simp add: n_def)
  have err: "length (zip_v (-) x (mean_cols xf)) = m" by (simp add: m_def)
  have "esrf_mean L Fs z x t = wb_mean L Fw z x t"
    unfolding esrf_mean_def wb_mean_def Let_def obs xf_def[symmetric] X_def[symmetric]
      Ci_def[symmetric] A wb_e_matrix_def e(1) option.sel k_def[symmetric, unfolded n_def]
    using gain_forms_agree[OF Xsh Rsh Psh Cish e(2,3) Zsh err k CiC RP de]
    by simp
  then show ?thesis
    unfolding run1 run2 Let_def by simp
qed

theorem square_root_and_woodbury_means_agree_witness:
  "esrf_consistent L0 esrf0 z0 x0 0 \<and> woodbury_consistent L0 wb0 z0 x0 0 \<and>
   wb_observation_func wb0 z0 0 = sr_observation_func esrf0 z0 0 \<and>
   pos_def (sr_obser_noise_covar esrf0) \<and>
   mmul (sr_obser_noise_covar esrf0) (preci_matrix (length x0) (wb_obser_noise_preci wb0))
     = eye (length x0) \<and>
   eigh_valid (esrf_c_matrix esrf0 z0 0) (eigh L0 (esrf_c_matrix esrf0 z0 0)) \<and>
   solve_valid (wb_d_matrix wb0 z0 0) (wb_c_matrix wb0 z0 0)
     (solve L0 (wb_d_matrix wb0 z0 0) (wb_c_matrix wb0 z0 0)) \<and>
   (\<exists>ws1 za1 m1 s1 ws2 za2 m2 s2.
     esrf_analysis_update L0 esrf0 z0 x0 0 = (ws1, Inr (za1, m1, s1)) \<and>
     woodbury_analysis_update L0 wb0 z0 x0 0 = (ws2, Inr (za2, m2, s2)) \<and>
     m1 = m2)"
proof -
  have o: "wb_observation_func wb0 z0 0 = sr_observation_func esrf0 z0 0"
    by simp
  have r: "pos_def (sr_obser_noise_covar esrf0)"
    by (simp add: pos_def_1x1[unfolded One_nat_def])
  have i: "mmul (sr_obser_noise_covar esrf0)
      (preci_matrix (length x0) (wb_obser_noise_preci wb0)) = eye (length x0)"
    by (simp add: x0_def mmul_def eye_def mat_of_def)
  have e: "eigh_valid (esrf_c_matrix esrf0 z0 0) (eigh L0 (esrf_c_matrix esrf0 z0 0))"
    using eigh_valid_1x1[of 3] by (simp add: esrf0_c_matrix eigh0_def)
  show ?thesis
    using esrf0_consistent wb0_L0_consistent o r i e wb0_solve_valid
      square_root_and_woodbury_means_agree
        [OF esrf0_consistent wb0_L0_consistent o r i e wb0_solve_valid]
    by - (rule conjI | assumption)+
qed

end
